(* ===== verification/Prelude.thy ===== *)
theory Prelude
  imports Main "HOL-Library.Word"
begin

text \<open>
  Shared notation, automation and generic lemmas.

  A Go function that takes a context, touches the outside world and returns
  \<open>(T, error)\<close> is an action \<open>('w, 'e, 'a) io\<close>: a function from the world
  \<open>'w\<close> to an error (\<open>Inl\<close>) or a value (\<open>Inr\<close>) and the world it leaves behind.
  The effects made before an error stay in that world; only a transaction undoes them
  (theory UnitOfWork). \<open>tryM\<close> is the Go idiom \<open>if err != nil { return err }\<close>,
  \<open>attemptM\<close> is \<open>x, err := f()\<close> followed by a branch on \<open>err\<close>, \<open>wrapM\<close> is
  \<open>fmt.Errorf("...: %w", err)\<close> on the way out.

  \<open>wpM\<close> is the weakest precondition of an action for a postcondition on values and one
  on errors. It is deterministic and total: an action always returns, so \<open>wpM m Q E w\<close>
  says that \<open>m\<close> run in \<open>w\<close> ends in \<open>Q\<close> or in \<open>E\<close>. Its equations (collection
  \<open>wp_simps\<close>) run an action symbolically; the contracts of the ports (theory Ports) and
  the rule \<open>wpM_conseq\<close> carry the proofs about the handlers.
\<close>

named_theorems wp_simps \<open>weakest preconditions of the basic actions\<close>
named_theorems wp_rules \<open>introduction rules for weakest preconditions\<close>

section \<open>Actions: state, errors, sequencing\<close>

type_synonym ('w, 'e, 'a) io = "'w \<Rightarrow> ('e + 'a) \<times> 'w"

definition returnM :: "'a \<Rightarrow> ('w, 'e, 'a) io" where
  "returnM x = (\<lambda>w. (Inr x, w))"

definition failM :: "'e \<Rightarrow> ('w, 'e, 'a) io" where
  "failM e = (\<lambda>w. (Inl e, w))"

definition tryM :: "('w, 'e, 'a) io \<Rightarrow> ('a \<Rightarrow> ('w, 'e, 'b) io) \<Rightarrow> ('w, 'e, 'b) io" where
  "tryM m f = (\<lambda>w. case m w of (Inl e, v) \<Rightarrow> (Inl e, v) | (Inr x, v) \<Rightarrow> f x v)"

definition attemptM :: "('w, 'e, 'a) io \<Rightarrow> ('w, 'e, 'e + 'a) io" where
  "attemptM m = (\<lambda>w. case m w of (r, v) \<Rightarrow> (Inr r, v))"

definition wrapM :: "('e \<Rightarrow> 'e) \<Rightarrow> ('w, 'e, 'a) io \<Rightarrow> ('w, 'e, 'a) io" where
  "wrapM g m = (\<lambda>w. case m w of (Inl e, v) \<Rightarrow> (Inl (g e), v) | (Inr x, v) \<Rightarrow> (Inr x, v))"

lemma returnM_apply [simp]: "returnM x w = (Inr x, w)"
  by (simp add: returnM_def)

lemma failM_apply [simp]: "failM e w = (Inl e, w)"
  by (simp add: failM_def)

lemma tryM_Inr_iff:
  "tryM m f w = (Inr y, w') \<longleftrightarrow> (\<exists>x v. m w = (Inr x, v) \<and> f x v = (Inr y, w'))"
  by (auto simp: tryM_def split: prod.splits sum.splits)

lemma tryM_assoc: "tryM (tryM m f) g = tryM m (\<lambda>x. tryM (f x) g)"
  by (rule ext) (auto simp: tryM_def split: prod.splits sum.splits)

lemma tryM_returnM [simp]: "tryM (returnM x) f = f x"
  by (rule ext) (simp add: tryM_def)

lemma tryM_failM [simp]: "tryM (failM e) f = failM e"
  by (rule ext) (simp add: tryM_def)

section \<open>Weakest preconditions\<close>

definition wpM :: "('w, 'e, 'a) io \<Rightarrow> ('a \<Rightarrow> 'w \<Rightarrow> bool) \<Rightarrow> ('e \<Rightarrow> 'w \<Rightarrow> bool) \<Rightarrow> 'w \<Rightarrow> bool" where
  "wpM m Q E w = (case m w of (Inr x, v) \<Rightarrow> Q x v | (Inl e, v) \<Rightarrow> E e v)"

lemma wpM_returnM [wp_simps]: "wpM (returnM x) Q E w = Q x w"
  by (simp add: wpM_def)

lemma wpM_returnM_fun: "wpM (returnM x) Q E = Q x"
  by (rule ext) (simp add: wpM_returnM)

lemma wpM_failM [wp_simps]: "wpM (failM e) Q E w = E e w"
  by (simp add: wpM_def)

text \<open>The simplifier may have applied \<open>returnM\<close> and \<open>failM\<close> already.\<close>

lemma wpM_Pair [wp_simps]: "wpM (Pair (Inr x)) Q E w = Q x w" "wpM (Pair (Inl e)) Q E w = E e w"
  by (simp_all add: wpM_def)

lemma wpM_tryM [wp_simps]: "wpM (tryM m f) Q E w = wpM m (\<lambda>x. wpM (f x) Q E) E w"
  by (auto simp: wpM_def tryM_def split: prod.splits sum.splits)

lemma wpM_attemptM [wp_simps]:
  "wpM (attemptM m) Q E w = wpM m (\<lambda>x. Q (Inr x)) (\<lambda>e. Q (Inl e)) w"
  by (auto simp: wpM_def attemptM_def split: prod.splits sum.splits)

lemma wpM_wrapM [wp_simps]: "wpM (wrapM g m) Q E w = wpM m Q (\<lambda>e. E (g e)) w"
  by (auto simp: wpM_def wrapM_def split: prod.splits sum.splits)

lemma wpM_if [wp_simps]:
  "wpM (if b then m else n) Q E w = (if b then wpM m Q E w else wpM n Q E w)"
  by simp

lemma wpM_conseq:
  assumes "wpM m Q' E' w"
    and "\<And>x v. Q' x v \<Longrightarrow> Q x v"
    and "\<And>e v. E' e v \<Longrightarrow> E e v"
  shows "wpM m Q E w"
  using assms by (auto simp: wpM_def split: prod.splits sum.splits)

lemma wpM_conj:
  assumes "wpM m Q1 E1 w" and "wpM m Q2 E2 w"
  shows "wpM m (\<lambda>x v. Q1 x v \<and> Q2 x v) (\<lambda>e v. E1 e v \<and> E2 e v) w"
  using assms by (auto simp: wpM_def split: prod.splits sum.splits)

lemma wpM_Inr: "wpM m Q E w \<Longrightarrow> m w = (Inr x, v) \<Longrightarrow> Q x v"
  by (simp add: wpM_def)

lemma wpM_Inl: "wpM m Q E w \<Longrightarrow> m w = (Inl e, v) \<Longrightarrow> E e v"
  by (simp add: wpM_def)

lemma wpM_fst_Inr: "wpM m Q E w \<Longrightarrow> fst (m w) = Inr x \<Longrightarrow> Q x (snd (m w))"
  by (cases "m w") (simp add: wpM_def)

lemma wpM_fst_Inl: "wpM m Q E w \<Longrightarrow> fst (m w) = Inl e \<Longrightarrow> E e (snd (m w))"
  by (cases "m w") (simp add: wpM_def)

lemma wpM_never_errorD: "wpM m Q (\<lambda>_ _. False) w \<Longrightarrow> \<exists>x v. m w = (Inr x, v) \<and> Q x v"
  by (auto simp: wpM_def split: prod.splits sum.splits)

section \<open>Lists and maps\<close>

lemma distinct_map_filter_snoc:
  "distinct (map f xs) \<Longrightarrow> f x \<notin> f ` set xs \<Longrightarrow> distinct (map f (xs @ [x]))"
  by simp

lemma length_filter_snoc:
  "length (filter P (xs @ [x])) = length (filter P xs) + (if P x then 1 else 0)"
  by simp

lemma map_of_filter_distinct:
  "distinct (map fst xs) \<Longrightarrow> (k, v) \<in> set xs \<longleftrightarrow> map_of xs k = Some v"
  by simp

end
