(* ===== verification/Metrics.thy ===== *)
theory Metrics
  imports Prelude
begin

text \<open>
  The metrics a service keeps (\<open>internal/infrastructure/metrics/metrics.go\<close>) and the functions that
  record them.

  The metric types belong to the Prometheus client; what its documentation says of them is all that
  is used: a counter starts at zero and \<open>Inc\<close> adds one, a gauge holds the number it was set to, a
  vector has one of them per tuple of labels, made on first use, and \<open>Reset\<close> forgets all of them.
  Numbers are integers: the conversion to \<open>float64\<close>, exact up to 2^53, is left out. Durations and
  ages are in nanoseconds. A histogram is the list of what it has observed; the buckets only say how
  the client sums it up.
\<close>

record registry =
  eventsReceived :: "string \<times> string \<Rightarrow> nat"
  eventsProcessed :: "string \<times> string \<Rightarrow> nat"
  eventsFailed :: "string \<times> string \<Rightarrow> nat"
  eventsDLQ :: "string \<Rightarrow> nat"
  processDuration :: "string \<Rightarrow> int list"
  eventsPublished :: "string \<times> string \<Rightarrow> nat"
  outboxPending :: int
  outboxPublished :: nat
  ordersPending :: "string \<Rightarrow> int option"
  ordersByStatus :: "string \<Rightarrow> int option"
  ordersCompleted :: int
  ordersFailed :: int
  outboxMaxAge :: int
  consumerLag :: "string \<times> string \<Rightarrow> int option"
  ordersTerminal :: "string \<Rightarrow> nat"
  sagaMaxAge :: "string \<Rightarrow> int option"
  dlqDepth :: "string \<Rightarrow> int option"
  consumerLastProgress :: "string \<Rightarrow> int option"
  consumerReconnects :: "string \<Rightarrow> nat"
  outboxGenerated :: nat

definition new_registry :: registry where
  "new_registry = \<lparr>eventsReceived = \<lambda>_. 0, eventsProcessed = \<lambda>_. 0, eventsFailed = \<lambda>_. 0,
     eventsDLQ = \<lambda>_. 0, processDuration = \<lambda>_. [], eventsPublished = \<lambda>_. 0, outboxPending = 0,
     outboxPublished = 0, ordersPending = \<lambda>_. None, ordersByStatus = \<lambda>_. None, ordersCompleted = 0,
     ordersFailed = 0, outboxMaxAge = 0, consumerLag = \<lambda>_. None, ordersTerminal = \<lambda>_. 0,
     sagaMaxAge = \<lambda>_. None, dlqDepth = \<lambda>_. None, consumerLastProgress = \<lambda>_. None,
     consumerReconnects = \<lambda>_. 0, outboxGenerated = 0\<rparr>"

section \<open>Counters and the histogram\<close>

definition Incr :: "'k \<Rightarrow> ('k \<Rightarrow> nat) \<Rightarrow> 'k \<Rightarrow> nat" where
  "Incr k f = f(k := Suc (f k))"

lemma Incr_apply: "Incr k f j = f j + (if j = k then 1 else 0)"
  by (simp add: Incr_def)

definition RecordReceived :: "string \<Rightarrow> string \<Rightarrow> registry \<Rightarrow> registry" where
  "RecordReceived name t m = m\<lparr>eventsReceived := Incr (name, t) (eventsReceived m)\<rparr>"

definition RecordProcessed :: "string \<Rightarrow> string \<Rightarrow> int \<Rightarrow> registry \<Rightarrow> registry" where
  "RecordProcessed name t duration m =
     m\<lparr>eventsProcessed := Incr (name, t) (eventsProcessed m),
       processDuration := (processDuration m)(name := processDuration m name @ [duration])\<rparr>"

definition RecordError :: "string \<Rightarrow> string \<Rightarrow> registry \<Rightarrow> registry" where
  "RecordError name t m = m\<lparr>eventsFailed := Incr (name, t) (eventsFailed m)\<rparr>"

definition RecordDLQ :: "string \<Rightarrow> registry \<Rightarrow> registry" where
  "RecordDLQ topic m = m\<lparr>eventsDLQ := Incr topic (eventsDLQ m)\<rparr>"

definition RecordPublished :: "string \<Rightarrow> string \<Rightarrow> registry \<Rightarrow> registry" where
  "RecordPublished name topic m = m\<lparr>eventsPublished := Incr (name, topic) (eventsPublished m)\<rparr>"

definition RecordOutboxPublished :: "registry \<Rightarrow> registry" where
  "RecordOutboxPublished m = m\<lparr>outboxPublished := Suc (outboxPublished m)\<rparr>"

definition RecordTerminal :: "string \<Rightarrow> registry \<Rightarrow> registry" where
  "RecordTerminal outcome m = m\<lparr>ordersTerminal := Incr outcome (ordersTerminal m)\<rparr>"

definition RecordConsumerReconnect :: "string \<Rightarrow> registry \<Rightarrow> registry" where
  "RecordConsumerReconnect name m = m\<lparr>consumerReconnects := Incr name (consumerReconnects m)\<rparr>"

definition RecordOutboxGenerated :: "registry \<Rightarrow> registry" where
  "RecordOutboxGenerated m = m\<lparr>outboxGenerated := Suc (outboxGenerated m)\<rparr>"

lemmas counter_defs = RecordReceived_def RecordProcessed_def RecordError_def RecordDLQ_def
  RecordPublished_def RecordOutboxPublished_def RecordTerminal_def RecordConsumerReconnect_def
  RecordOutboxGenerated_def

section \<open>Gauges\<close>

definition SetOutboxPending :: "int \<Rightarrow> registry \<Rightarrow> registry" where
  "SetOutboxPending n m = m\<lparr>outboxPending := n\<rparr>"

definition SetConsumerLastProgress :: "string \<Rightarrow> int \<Rightarrow> registry \<Rightarrow> registry" where
  "SetConsumerLastProgress name age m =
     m\<lparr>consumerLastProgress := (consumerLastProgress m)(name \<mapsto> age)\<rparr>"

definition SetOrdersPending :: "string \<Rightarrow> int \<Rightarrow> registry \<Rightarrow> registry" where
  "SetOrdersPending status n m = m\<lparr>ordersPending := (ordersPending m)(status \<mapsto> n)\<rparr>"

definition ResetOrdersPending :: "registry \<Rightarrow> registry" where
  "ResetOrdersPending m = m\<lparr>ordersPending := \<lambda>_. None\<rparr>"

definition SetOrdersByStatus :: "string \<Rightarrow> int \<Rightarrow> registry \<Rightarrow> registry" where
  "SetOrdersByStatus status n m = m\<lparr>ordersByStatus := (ordersByStatus m)(status \<mapsto> n)\<rparr>"

definition ResetOrdersByStatus :: "registry \<Rightarrow> registry" where
  "ResetOrdersByStatus m = m\<lparr>ordersByStatus := \<lambda>_. None\<rparr>"

definition SetOrdersCompleted :: "int \<Rightarrow> registry \<Rightarrow> registry" where
  "SetOrdersCompleted n m = m\<lparr>ordersCompleted := n\<rparr>"

definition SetOrdersFailed :: "int \<Rightarrow> registry \<Rightarrow> registry" where
  "SetOrdersFailed n m = m\<lparr>ordersFailed := n\<rparr>"

definition SetOutboxMaxAge :: "int \<Rightarrow> registry \<Rightarrow> registry" where
  "SetOutboxMaxAge age m = m\<lparr>outboxMaxAge := age\<rparr>"

definition SetConsumerLag :: "string \<Rightarrow> string \<Rightarrow> int \<Rightarrow> registry \<Rightarrow> registry" where
  "SetConsumerLag grp topic n m = m\<lparr>consumerLag := (consumerLag m)((grp, topic) \<mapsto> n)\<rparr>"

definition ResetSagaMaxAge :: "registry \<Rightarrow> registry" where
  "ResetSagaMaxAge m = m\<lparr>sagaMaxAge := \<lambda>_. None\<rparr>"

definition SetSagaMaxAge :: "string \<Rightarrow> int \<Rightarrow> registry \<Rightarrow> registry" where
  "SetSagaMaxAge status age m = m\<lparr>sagaMaxAge := (sagaMaxAge m)(status \<mapsto> age)\<rparr>"

definition SetDLQDepth :: "string \<Rightarrow> int \<Rightarrow> registry \<Rightarrow> registry" where
  "SetDLQDepth topic n m = m\<lparr>dlqDepth := (dlqDepth m)(topic \<mapsto> n)\<rparr>"

lemmas gauge_defs = SetOutboxPending_def SetConsumerLastProgress_def SetOrdersPending_def ResetOrdersPending_def SetOrdersByStatus_def
  ResetOrdersByStatus_def SetOrdersCompleted_def SetOrdersFailed_def SetOutboxMaxAge_def
  SetConsumerLag_def ResetSagaMaxAge_def SetSagaMaxAge_def SetDLQDepth_def

end
