(* ===== verification/GoStd.thy ===== *)
theory GoStd
  imports Metrics
begin

text \<open>
  What the code uses of the Go language and its standard library: error values with
  \<open>errors.Is\<close>, \<open>strings.Contains\<close>, decimal formatting (\<open>%d\<close>, \<open>%06d\<close>), the
  hexadecimal format \<open>%x\<close> of a byte slice, and the two sources of values outside the
  program's control, the random generator and the clock (record \<open>env\<close>).
\<close>

section \<open>Errors\<close>

text \<open>
  The sentinel errors of the repository (\<open>application.ErrNonRetryable\<close>,
  \<open>application.ErrSagaNotFound\<close>, \<open>domain.ErrInvalidTransition\<close>), an error that is
  only a text (\<open>errors.New\<close>, \<open>fmt.Errorf\<close> without \<open>%w\<close>, an error of a driver), and
  \<open>fmt.Errorf\<close> with \<open>%w\<close>, which keeps the wrapped error reachable for \<open>errors.Is\<close>.
  An error value of the Kafka client (\<open>kafkago.Error\<close>) is its code.
  The texts of the messages only reach the logs, so a wrapping carries a short ASCII label
  in place of the Portuguese sentence; the texts of gateway errors, which reach the journal
  and the metadata, are kept in full.
\<close>

datatype kafka_code =
    UnknownTopicOrPartition
  | LeaderNotAvailable
  | NotLeaderForPartition
  | BrokerNotAvailable
  | GroupCoordinatorNotAvailable
  | NotCoordinatorForGroup
  | GroupLoadInProgress
  | RebalanceInProgress
  | UnknownMemberId
  | OtherKafkaCode int

datatype go_error =
    ErrNonRetryable
  | ErrSagaNotFound
  | ErrInvalidTransition
  | ErrKafka kafka_code
  | ErrText string
  | Wrapf string go_error

fun errors_is :: "go_error \<Rightarrow> go_error \<Rightarrow> bool" where
  "errors_is (Wrapf c e) t = (Wrapf c e = t \<or> errors_is e t)"
| "errors_is e t = (e = t)"

fun error_text :: "go_error \<Rightarrow> string" where
  "error_text (ErrText s) = s"
| "error_text (Wrapf c e) = c @ '': '' @ error_text e"
| "error_text ErrNonRetryable = ''erro definitivo: mensagem para DLQ''"
| "error_text ErrSagaNotFound = ''saga not found''"
| "error_text ErrInvalidTransition = ''transicao de estado invalida''"
| "error_text (ErrKafka c) = ''kafka error''"

text \<open>An error the consumer may see again: anything that is not marked as definitive.\<close>

definition transient :: "go_error \<Rightarrow> bool" where
  "transient e \<longleftrightarrow> \<not> errors_is e ErrNonRetryable \<and> \<not> errors_is e ErrInvalidTransition"

lemma transient_Wrapf [simp]: "transient (Wrapf c e) = transient e"
  by (simp add: transient_def)

lemma transient_ErrText [simp]: "transient (ErrText s)"
  by (simp add: transient_def)

lemma transient_ErrSagaNotFound [simp]: "transient ErrSagaNotFound"
  by (simp add: transient_def)

lemma transient_ErrKafka [simp]: "transient (ErrKafka c)"
  by (simp add: transient_def)

lemma not_transient_sentinels [simp]:
  "\<not> transient ErrNonRetryable" "\<not> transient ErrInvalidTransition"
  by (simp_all add: transient_def)

section \<open>Strings\<close>

fun has_prefix :: "string \<Rightarrow> string \<Rightarrow> bool" where
  "has_prefix s [] = True"
| "has_prefix [] (p # ps) = False"
| "has_prefix (c # s) (p # ps) = (c = p \<and> has_prefix s ps)"

fun contains :: "string \<Rightarrow> string \<Rightarrow> bool" where
  "contains [] p = has_prefix [] p"
| "contains (c # s) p = (has_prefix (c # s) p \<or> contains s p)"

lemma has_prefix_iff: "has_prefix s p \<longleftrightarrow> (\<exists>t. s = p @ t)"
  by (induction s p rule: has_prefix.induct) auto

lemma contains_iff: "contains s p \<longleftrightarrow> (\<exists>a b. s = a @ p @ b)"
proof (induction s)
  case Nil
  then show ?case by (cases p) auto
next
  case (Cons c s)
  have "contains (c # s) p \<longleftrightarrow> (\<exists>t. c # s = p @ t) \<or> (\<exists>a b. s = a @ p @ b)"
    by (simp add: has_prefix_iff Cons.IH)
  also have "\<dots> \<longleftrightarrow> (\<exists>a b. c # s = a @ p @ b)"
  proof
    assume "(\<exists>t. c # s = p @ t) \<or> (\<exists>a b. s = a @ p @ b)"
    then show "\<exists>a b. c # s = a @ p @ b"
      by (metis append_Cons append_Nil)
  next
    assume "\<exists>a b. c # s = a @ p @ b"
    then obtain a b where "c # s = a @ p @ b" by blast
    then show "(\<exists>t. c # s = p @ t) \<or> (\<exists>a b. s = a @ p @ b)"
      by (cases a) auto
  qed
  finally show ?case .
qed

lemma contains_prefix_longer: "contains s (p @ q) \<Longrightarrow> contains s p"
  by (auto simp: contains_iff)

section \<open>Decimal and hexadecimal formatting\<close>

definition digit_char :: "nat \<Rightarrow> char" where
  "digit_char d = char_of (d + 48)"

fun nat_to_dec :: "nat \<Rightarrow> string" where
  "nat_to_dec n = (if n < 10 then [digit_char n] else nat_to_dec (n div 10) @ [digit_char (n mod 10)])"

declare nat_to_dec.simps [simp del]

definition itoa :: "int \<Rightarrow> string" where
  "itoa i = (if i < 0 then ''-'' @ nat_to_dec (nat (- i)) else nat_to_dec (nat i))"

text \<open>\<open>%0<w>d\<close> for a number that is not negative: left-padded with zeros to width \<open>w\<close>.\<close>

definition zero_pad :: "nat \<Rightarrow> nat \<Rightarrow> string" where
  "zero_pad w n = replicate (w - length (nat_to_dec n)) (CHR ''0'') @ nat_to_dec n"

definition hex_char :: "nat \<Rightarrow> char" where
  "hex_char d = (if d < 10 then char_of (d + 48) else char_of (d + 87))"

definition hex_byte :: "8 word \<Rightarrow> string" where
  "hex_byte b = [hex_char (unat b div 16), hex_char (unat b mod 16)]"

definition hex_bytes :: "8 word list \<Rightarrow> string" where
  "hex_bytes bs = concat (map hex_byte bs)"

lemma hex_char_inj: "d < 16 \<Longrightarrow> d' < 16 \<Longrightarrow> hex_char d = hex_char d' \<Longrightarrow> d = d'"
proof -
  assume d: "d < 16" and d': "d' < 16" and eq: "hex_char d = hex_char d'"
  let ?n = "\<lambda>d. if d < 10 then d + 48 else d + (87::nat)"
  have hc: "hex_char x = char_of (?n x)" for x
    by (simp add: hex_char_def)
  have "?n d mod 256 = ?n d' mod 256"
    using eq unfolding hc by (metis of_char_of)
  then show "d = d'"
    using d d' by (auto split: if_splits)
qed

lemma hex_byte_inj: "hex_byte a = hex_byte b \<Longrightarrow> a = b"
proof -
  assume eq: "hex_byte a = hex_byte b"
  have bound: "unat c < 256" for c :: "8 word"
    using unsigned_less [of c, where 'a = nat] by simp
  have "unat a div 16 = unat b div 16"
    using eq bound [of a] bound [of b] by (intro hex_char_inj) (auto simp: hex_byte_def)
  moreover have "unat a mod 16 = unat b mod 16"
    using eq by (intro hex_char_inj) (auto simp: hex_byte_def)
  ultimately have "unat a = unat b"
    by (metis div_mult_mod_eq)
  then show "a = b"
    by (simp add: word_unat_eq_iff)
qed

lemma length_hex_bytes: "length (hex_bytes bs) = 2 * length bs"
  by (induction bs) (auto simp: hex_bytes_def hex_byte_def)

lemma hex_bytes_inj: "hex_bytes as = hex_bytes bs \<Longrightarrow> as = bs"
proof (induction as arbitrary: bs)
  case Nil
  then show ?case
    by (cases bs) (auto simp: hex_bytes_def hex_byte_def)
next
  case (Cons a as)
  from Cons.prems obtain b bs' where bs: "bs = b # bs'"
    by (cases bs) (auto simp: hex_bytes_def hex_byte_def)
  with Cons.prems have "hex_byte a = hex_byte b" and "hex_bytes as = hex_bytes bs'"
    by (auto simp: hex_bytes_def hex_byte_def)
  with bs Cons.IH show ?case
    by (simp add: hex_byte_inj)
qed

section \<open>Randomness and time\<close>

text \<open>
  The random generator and the clock are inputs of the program: \<open>entropy k i\<close> is byte
  \<open>i\<close> of the \<open>k\<close>-th block read from \<open>crypto/rand\<close> and \<open>clock k\<close> the \<open>k\<close>-th reading
  of \<open>time.Now().UTC()\<close> in nanoseconds; \<open>drawn\<close> and \<open>ticks\<close> count the reads so far.
  \<open>attempts stage orderID\<close> counts the calls the external gateway of a stage has received for
  an order (the counters of the simulators in \<open>internal/infrastructure/external\<close>).
  \<open>metrics\<close> are the metrics of the process.
  The record is extended by the state of each process (the database of theory Postgres, the
  gateway simulators of theory Gateways).
\<close>

record env =
  entropy :: "nat \<Rightarrow> nat \<Rightarrow> 8 word"
  drawn :: nat
  clock :: "nat \<Rightarrow> int"
  ticks :: nat
  attempts :: "string \<Rightarrow> string \<Rightarrow> int"
  metrics :: registry

definition time_Now :: "('a env_scheme, 'e, int) io" where
  "time_Now w = (Inr (clock w (ticks w)), w\<lparr>ticks := Suc (ticks w)\<rparr>)"

definition record_metric :: "(registry \<Rightarrow> registry) \<Rightarrow> ('a env_scheme, 'e, unit) io" where
  "record_metric f w = (Inr (), w\<lparr>metrics := f (metrics w)\<rparr>)"

lemma wpM_record_metric [wp_simps]:
  "wpM (record_metric f) Q E w = Q () (w\<lparr>metrics := f (metrics w)\<rparr>)"
  by (simp add: wpM_def record_metric_def)

text \<open>\<open>rand.Read(b)\<close> fills the slice; the code ignores its error.\<close>

definition rand_read :: "nat \<Rightarrow> ('a env_scheme, go_error, 8 word list) io" where
  "rand_read n w = (Inr (map (entropy w (drawn w)) [0..<n]), w\<lparr>drawn := Suc (drawn w)\<rparr>)"

end
