(* ===== verification/Json.thy ===== *)
theory Json
  imports GoStd "HOL-Library.Finite_Map" "HOL-Library.List_Lexorder" "HOL-Library.Char_ord"
begin

text \<open>
  JSON values as \<open>encoding/json\<close> reads and writes them, up to the byte syntax: an object is
  the list of its members in the order they appear, duplicates included. \<open>JNum\<close> is an
  integer literal, \<open>JFrac\<close> any other number literal, and \<open>JTime\<close> a string that is an
  RFC 3339 time, kept as the instant it denotes (nanoseconds). \<open>map[string]string\<close> is a
  finite map; \<open>nil\<close> and the empty map are not told apart by the code, nor here.
  Where a string is asked for, a \<open>JTime\<close> is read as its RFC 3339 text (\<open>rfc3339\<close>).
\<close>

datatype json =
    JNull
  | JBool bool
  | JNum int
  | JFrac string
  | JStr string
  | JTime int
  | JArr "json list"
  | JObj "(string \<times> json) list"

type_synonym metadata = "(string, string) fmap"

text \<open>\<open>m["k"]\<close> of a Go map: the zero value when the key is absent.\<close>

definition meta_get :: "metadata \<Rightarrow> string \<Rightarrow> string" where
  "meta_get m k = (case fmlookup m k of None \<Rightarrow> '''' | Some v \<Rightarrow> v)"

text \<open>\<open>json.Marshal\<close> writes the members of a map in the order of their keys.\<close>

definition marshal_map :: "metadata \<Rightarrow> json" where
  "marshal_map m = JObj (map (\<lambda>(k, v). (k, JStr v)) (sorted_list_of_fmap m))"

text \<open>
  \<open>time.RFC3339Nano\<close> in UTC: the civil date of a day number counted from 1970-01-01, the time
  of day, and the nanoseconds without their trailing zeros.
\<close>

definition civil_from_days :: "int \<Rightarrow> int \<times> int \<times> int" where
  "civil_from_days z0 =
     (let z = z0 + 719468;
          era = z div 146097;
          doe = z mod 146097;
          yoe = (doe - doe div 1460 + doe div 36524 - doe div 146096) div 365;
          doy = doe - (365 * yoe + yoe div 4 - yoe div 100);
          mp = (5 * doy + 2) div 153;
          d = doy - (153 * mp + 2) div 5 + 1;
          m = (if mp < 10 then mp + 3 else mp - 9)
      in (yoe + era * 400 + (if m \<le> 2 then 1 else 0), m, d))"

definition fraction_text :: "int \<Rightarrow> string" where
  "fraction_text ns = (if ns = 0 then '''' else
     ''.'' @ rev (dropWhile (\<lambda>c. c = CHR ''0'') (rev (zero_pad 9 (nat ns)))))"

definition rfc3339 :: "int \<Rightarrow> string" where
  "rfc3339 t =
     (let secs = t div 1000000000; (y, m, d) = civil_from_days (secs div 86400); s = secs mod 86400
      in zero_pad 4 (nat y) @ ''-'' @ zero_pad 2 (nat m) @ ''-'' @ zero_pad 2 (nat d) @ ''T'' @
         zero_pad 2 (nat (s div 3600)) @ '':'' @ zero_pad 2 (nat (s div 60 mod 60)) @ '':'' @
         zero_pad 2 (nat (s mod 60)) @ fraction_text (t mod 1000000000) @ ''Z'')"

text \<open>
  Decoding into a \<open>map[string]string\<close>: members are added to the map already there, a \<open>null\<close>
  member is the empty string, and any other value that is no string is an error.
\<close>

fun unmarshal_members :: "(string \<times> json) list \<Rightarrow> metadata \<Rightarrow> go_error + metadata" where
  "unmarshal_members [] m = Inr m"
| "unmarshal_members ((k, JStr v) # kvs) m = unmarshal_members kvs (fmupd k v m)"
| "unmarshal_members ((k, JNull) # kvs) m = unmarshal_members kvs (fmupd k '''' m)"
| "unmarshal_members ((k, JTime t) # kvs) m =
     unmarshal_members kvs (fmupd k (rfc3339 t) m)"
| "unmarshal_members ((k, j) # kvs) m = Inl (ErrText ''json: cannot unmarshal into string'')"

lemma unmarshal_members_strings:
  "unmarshal_members (map (\<lambda>(k, v). (k, JStr v)) kvs) m =
     Inr (fold (\<lambda>(k, v). fmupd k v) kvs m)"
  by (induction kvs arbitrary: m) auto

lemma fmlookup_fold_fmupd:
  "distinct (map fst kvs) \<Longrightarrow>
     fmlookup (fold (\<lambda>(k, v). fmupd k v) kvs m) x =
       (case map_of kvs x of None \<Rightarrow> fmlookup m x | Some v \<Rightarrow> Some v)"
proof (induction kvs arbitrary: m)
  case Nil
  then show ?case by simp
next
  case (Cons kv kvs)
  obtain k v where kv: "kv = (k, v)" by (cases kv)
  with Cons.prems have fresh: "map_of kvs k = None"
    by (simp add: map_of_eq_None_iff)
  from Cons kv fresh show ?case
    by (auto split: option.splits)
qed

lemma distinct_sorted_list_of_fmap: "distinct (map fst (sorted_list_of_fmap m))"
  by (simp add: sorted_list_of_fmap_def comp_def sorted_list_of_fset.rep_eq)

lemma unmarshal_marshal_map:
  "unmarshal_members (map (\<lambda>(k, v). (k, JStr v)) (sorted_list_of_fmap m)) fmempty = Inr m"
proof -
  have "fmlookup (fold (\<lambda>(k, v). fmupd k v) (sorted_list_of_fmap m) fmempty) = fmlookup m"
    by (rule ext)
      (simp add: fmlookup_fold_fmupd [OF distinct_sorted_list_of_fmap]
        split: option.splits)
  then show ?thesis
    by (simp add: unmarshal_members_strings fmlookup_inject)
qed

text \<open>
  A member name matches a struct field exactly or up to the case of its letters; the tags of
  the structs of this program are lower case.
\<close>

definition lower_char :: "char \<Rightarrow> char" where
  "lower_char c = (let n = of_char c :: nat in
     if 65 \<le> n \<and> n \<le> 90 then char_of (n + 32) else c)"

definition fold_name :: "string \<Rightarrow> string" where
  "fold_name = map lower_char"

text \<open>Decoding a string field: \<open>null\<close> leaves it as it is.\<close>

definition decode_string :: "json \<Rightarrow> string \<Rightarrow> go_error + string" where
  "decode_string j old = (case j of JStr s \<Rightarrow> Inr s | JTime t \<Rightarrow> Inr (rfc3339 t) | JNull \<Rightarrow> Inr old
     | _ \<Rightarrow> Inl (ErrText ''json: cannot unmarshal into string''))"

text \<open>Decoding an \<open>int\<close> (64 bits): a literal out of range or not an integer is an error.\<close>

definition decode_int :: "json \<Rightarrow> int \<Rightarrow> go_error + int" where
  "decode_int j old = (case j of
       JNum i \<Rightarrow> (if - (2 ^ 63) \<le> i \<and> i < 2 ^ 63 then Inr i
                 else Inl (ErrText ''json: number out of range''))
     | JNull \<Rightarrow> Inr old
     | _ \<Rightarrow> Inl (ErrText ''json: cannot unmarshal into int''))"

definition decode_time :: "json \<Rightarrow> int \<Rightarrow> go_error + int" where
  "decode_time j old = (case j of JTime t \<Rightarrow> Inr t | JNull \<Rightarrow> Inr old
     | _ \<Rightarrow> Inl (ErrText ''json: cannot parse time''))"

definition decode_map :: "json \<Rightarrow> metadata \<Rightarrow> go_error + metadata" where
  "decode_map j old = (case j of JObj kvs \<Rightarrow> unmarshal_members kvs old | JNull \<Rightarrow> Inr fmempty
     | _ \<Rightarrow> Inl (ErrText ''json: cannot unmarshal into map''))"

end
