(* ===== verification/SagaDomain.thy ===== *)
theory SagaDomain
  imports Json
begin

text \<open>
  The package \<open>internal/domain\<close>: event types, order statuses, the event exchanged over Kafka
  with its JSON form, the saga, and the generator of event identifiers.

  \<open>EventType\<close> and \<open>OrderStatus\<close> are Go strings with named constants; a message may carry any
  string. Each is a datatype with one constructor per constant and one for every other text; the
  empty string, Go's zero value, is such a text.
\<close>

section \<open>Event types and order statuses\<close>

datatype event_type =
    EventOrderCreated
  | EventOrderCompleted
  | EventOrderFailed
  | EventPaymentCompensate
  | EventPaymentCompensateResult
  | EventPaymentCommand
  | EventPaymentResult
  | EventInventoryCommand
  | EventInventoryResult
  | EventNotificationCommand
  | EventNotificationResult
  | OtherEvent string

fun event_type_text :: "event_type \<Rightarrow> string" where
  "event_type_text EventOrderCreated = ''ORDER_CREATED''"
| "event_type_text EventOrderCompleted = ''ORDER_COMPLETED''"
| "event_type_text EventOrderFailed = ''ORDER_FAILED''"
| "event_type_text EventPaymentCompensate = ''PAYMENT_COMPENSATE''"
| "event_type_text EventPaymentCompensateResult = ''PAYMENT_COMPENSATE_RESULT''"
| "event_type_text EventPaymentCommand = ''PAYMENT_COMMAND''"
| "event_type_text EventPaymentResult = ''PAYMENT_RESULT''"
| "event_type_text EventInventoryCommand = ''INVENTORY_COMMAND''"
| "event_type_text EventInventoryResult = ''INVENTORY_RESULT''"
| "event_type_text EventNotificationCommand = ''NOTIFICATION_COMMAND''"
| "event_type_text EventNotificationResult = ''NOTIFICATION_RESULT''"
| "event_type_text (OtherEvent s) = s"

definition known_event_types :: "event_type list" where
  "known_event_types =
     [EventOrderCreated, EventOrderCompleted, EventOrderFailed, EventPaymentCompensate,
      EventPaymentCompensateResult, EventPaymentCommand, EventPaymentResult,
      EventInventoryCommand, EventInventoryResult, EventNotificationCommand,
      EventNotificationResult]"

definition event_type_of :: "string \<Rightarrow> event_type" where
  "event_type_of s =
     (case find (\<lambda>t. event_type_text t = s) known_event_types of
        Some t \<Rightarrow> t | None \<Rightarrow> OtherEvent s)"

datatype order_status =
    StatusPending
  | StatusPaymentPending
  | StatusPaymentApproved
  | StatusPaymentRefundPending
  | StatusInventoryReserved
  | StatusNotified
  | StatusCompleted
  | StatusPaymentRefunded
  | StatusRetrying
  | StatusFailed
  | OtherStatus string

fun status_text :: "order_status \<Rightarrow> string" where
  "status_text StatusPending = ''PENDING''"
| "status_text StatusPaymentPending = ''PAYMENT_PENDING''"
| "status_text StatusPaymentApproved = ''PAYMENT_APPROVED''"
| "status_text StatusPaymentRefundPending = ''PAYMENT_REFUND_PENDING''"
| "status_text StatusInventoryReserved = ''INVENTORY_RESERVED''"
| "status_text StatusNotified = ''NOTIFIED''"
| "status_text StatusCompleted = ''COMPLETED''"
| "status_text StatusPaymentRefunded = ''PAYMENT_REFUNDED''"
| "status_text StatusRetrying = ''RETRYING''"
| "status_text StatusFailed = ''FAILED''"
| "status_text (OtherStatus s) = s"

definition known_statuses :: "order_status list" where
  "known_statuses =
     [StatusPending, StatusPaymentPending, StatusPaymentApproved, StatusPaymentRefundPending,
      StatusInventoryReserved, StatusNotified, StatusCompleted, StatusPaymentRefunded,
      StatusRetrying, StatusFailed]"

definition status_of :: "string \<Rightarrow> order_status" where
  "status_of s =
     (case find (\<lambda>t. status_text t = s) known_statuses of
        Some t \<Rightarrow> t | None \<Rightarrow> OtherStatus s)"

abbreviation NoStatus :: order_status where
  "NoStatus \<equiv> OtherStatus ''''"

text \<open>
  A value is canonical when its text reads back as itself, that is unless it is one of the
  constants in the disguise of \<open>OtherEvent\<close> or \<open>OtherStatus\<close>. Everything decoded is.
\<close>

definition canonical_type :: "event_type \<Rightarrow> bool" where
  "canonical_type t \<longleftrightarrow> event_type_of (event_type_text t) = t"

definition canonical_status :: "order_status \<Rightarrow> bool" where
  "canonical_status s \<longleftrightarrow> status_of (status_text s) = s"

lemma find_SomeD: "find P xs = Some x \<Longrightarrow> P x \<and> x \<in> set xs"
  by (auto simp: find_Some_iff)

lemma event_type_text_of [simp]: "event_type_text (event_type_of s) = s"
  by (auto simp: event_type_of_def dest: find_SomeD split: option.splits)

lemma status_text_of [simp]: "status_text (status_of s) = s"
  by (auto simp: status_of_def dest: find_SomeD split: option.splits)

lemma canonical_type_of [simp]: "canonical_type (event_type_of s)"
  by (simp add: canonical_type_def)

lemma canonical_status_of [simp]: "canonical_status (status_of s)"
  by (simp add: canonical_status_def)

lemma all_canonical:
  "list_all canonical_type known_event_types" "list_all canonical_status known_statuses"
  by code_simp+

lemma canonical_constants [simp]:
  "t \<in> set known_event_types \<Longrightarrow> canonical_type t"
  "s \<in> set known_statuses \<Longrightarrow> canonical_status s"
  using all_canonical by (auto simp: list_all_iff)

lemma canonical_typeD: "canonical_type t \<Longrightarrow> event_type_of (event_type_text t) = t"
  by (simp add: canonical_type_def)

lemma canonical_statusD: "canonical_status s \<Longrightarrow> status_of (status_text s) = s"
  by (simp add: canonical_status_def)

lemma canonical_NoStatus [simp]: "canonical_status NoStatus"
  by (simp add: canonical_status_def status_of_def known_statuses_def)

lemma status_text_empty: "canonical_status s \<Longrightarrow> status_text s = [] \<Longrightarrow> s = NoStatus"
  by (drule canonical_statusD) (simp add: status_of_def known_statuses_def)

section \<open>Identifiers\<close>

text \<open>\<open>NewEventID\<close>: sixteen random bytes, in hexadecimal.\<close>

definition NewEventID :: "('a env_scheme, go_error, string) io" where
  "NewEventID = tryM (rand_read 16) (\<lambda>b. returnM (hex_bytes b))"

definition event_id_at :: "(nat \<Rightarrow> nat \<Rightarrow> 8 word) \<Rightarrow> nat \<Rightarrow> string" where
  "event_id_at ent k = hex_bytes (map (ent k) [0..<16])"

lemma NewEventID_run:
  "NewEventID w = (Inr (event_id_at (entropy w) (drawn w)), w\<lparr>drawn := Suc (drawn w)\<rparr>)"
  by (simp add: NewEventID_def tryM_def rand_read_def event_id_at_def)

lemma wpM_NewEventID [wp_simps]:
  "wpM NewEventID Q E w = Q (event_id_at (entropy w) (drawn w)) (w\<lparr>drawn := Suc (drawn w)\<rparr>)"
  by (simp add: wpM_def NewEventID_run)

lemma wpM_time_Now [wp_simps]:
  "wpM time_Now Q E w = Q (clock w (ticks w)) (w\<lparr>ticks := Suc (ticks w)\<rparr>)"
  by (simp add: wpM_def time_Now_def)

text \<open>Every outgoing event is stamped with an identifier and a time.\<close>

lemma wpM_stamp:
  "wpM (tryM NewEventID (\<lambda>eid. tryM time_Now (f eid))) Q E w =
     wpM (f (event_id_at (entropy w) (drawn w)) (clock w (ticks w))) Q E
       (w\<lparr>drawn := Suc (drawn w), ticks := Suc (ticks w)\<rparr>)"
  by (simp add: wp_simps)

lemma length_event_id_at: "length (event_id_at ent k) = 32"
  by (simp add: event_id_at_def length_hex_bytes)

lemma event_id_at_eq_iff:
  "event_id_at f j = event_id_at g k \<longleftrightarrow> (\<forall>i < 16. f j i = g k i)"
proof -
  have "event_id_at f j = event_id_at g k \<longleftrightarrow> map (f j) [0..<16] = map (g k) [0..<16]"
    unfolding event_id_at_def using hex_bytes_inj by metis
  also have "\<dots> \<longleftrightarrow> (\<forall>i < 16. f j i = g k i)"
    by (simp add: Ball_def)
  finally show ?thesis .
qed

section \<open>Events and sagas\<close>

record event =
  EventID :: string
  OrderID :: string
  SagaID :: string
  TransactionID :: string
  StatusAtual :: order_status
  StatusAnterior :: order_status
  EventType :: event_type
  SchemaVersion :: int
  CreatedAt :: int
  Metadata :: metadata

definition CurrentSchemaVersion :: int where
  "CurrentSchemaVersion = 1"

record order =
  order_ID :: string
  order_Status :: order_status

record saga =
  saga_OrderID :: string
  Previous :: order_status
  Current :: order_status
  RetryCount :: int
  saga_TransactionID :: string

text \<open>Go's zero event; the zero \<open>time.Time\<close> is 0001-01-01, in nanoseconds from 1970.\<close>

definition zero_event :: event where
  "zero_event = \<lparr>EventID = '''', OrderID = '''', SagaID = '''', TransactionID = '''',
     StatusAtual = NoStatus, StatusAnterior = NoStatus, EventType = OtherEvent '''',
     SchemaVersion = 0, CreatedAt = - 62135596800000000000, Metadata = fmempty\<rparr>"

section \<open>The JSON form of an event\<close>

text \<open>\<open>omitempty\<close> leaves a member out when its value is empty.\<close>

definition omit_empty :: "string \<Rightarrow> string \<Rightarrow> (string \<times> json) list" where
  "omit_empty k s = (if s = '''' then [] else [(k, JStr s)])"

definition marshal_event :: "event \<Rightarrow> json" where
  "marshal_event e = JObj (
     [(''event_id'', JStr (EventID e)), (''order_id'', JStr (OrderID e))] @
     omit_empty ''saga_id'' (SagaID e) @
     omit_empty ''transaction_id'' (TransactionID e) @
     [(''status_atual'', JStr (status_text (StatusAtual e)))] @
     omit_empty ''status_anterior'' (status_text (StatusAnterior e)) @
     [(''event_type'', JStr (event_type_text (EventType e))),
      (''schema_version'', JNum (SchemaVersion e)),
      (''created_at'', JTime (CreatedAt e))] @
     (if Metadata e = fmempty then [] else [(''metadata'', marshal_map (Metadata e))]))"

text \<open>Setting the struct field a member names; a member that names none is skipped.\<close>

definition set_string :: "((string \<Rightarrow> string) \<Rightarrow> event \<Rightarrow> event) \<Rightarrow> string \<Rightarrow> json \<Rightarrow> event \<Rightarrow> go_error + event" where
  "set_string upd old j e =
     (case decode_string j old of Inl err \<Rightarrow> Inl err | Inr s \<Rightarrow> Inr (upd (\<lambda>_. s) e))"

definition set_member :: "string \<Rightarrow> json \<Rightarrow> event \<Rightarrow> go_error + event" where
  "set_member name j e =
     (let k = fold_name name in
      if k = ''event_id'' then set_string EventID_update (EventID e) j e
      else if k = ''order_id'' then set_string OrderID_update (OrderID e) j e
      else if k = ''saga_id'' then set_string SagaID_update (SagaID e) j e
      else if k = ''transaction_id'' then set_string TransactionID_update (TransactionID e) j e
      else if k = ''status_atual'' then
        set_string (\<lambda>f. StatusAtual_update (\<lambda>_. status_of (f '''')))
          (status_text (StatusAtual e)) j e
      else if k = ''status_anterior'' then
        set_string (\<lambda>f. StatusAnterior_update (\<lambda>_. status_of (f '''')))
          (status_text (StatusAnterior e)) j e
      else if k = ''event_type'' then
        set_string (\<lambda>f. EventType_update (\<lambda>_. event_type_of (f '''')))
          (event_type_text (EventType e)) j e
      else if k = ''schema_version'' then
        (case decode_int j (SchemaVersion e) of Inl err \<Rightarrow> Inl err
           | Inr i \<Rightarrow> Inr (e\<lparr>SchemaVersion := i\<rparr>))
      else if k = ''created_at'' then
        (case decode_time j (CreatedAt e) of Inl err \<Rightarrow> Inl err
           | Inr t \<Rightarrow> Inr (e\<lparr>CreatedAt := t\<rparr>))
      else if k = ''metadata'' then
        (case decode_map j (Metadata e) of Inl err \<Rightarrow> Inl err
           | Inr m \<Rightarrow> Inr (e\<lparr>Metadata := m\<rparr>))
      else Inr e)"

fun set_members :: "(string \<times> json) list \<Rightarrow> event \<Rightarrow> go_error + event" where
  "set_members [] e = Inr e"
| "set_members ((k, j) # kvs) e =
     (case set_member k j e of Inl err \<Rightarrow> Inl err | Inr e' \<Rightarrow> set_members kvs e')"

text \<open>\<open>json.Unmarshal\<close> into a zero event: \<open>null\<close> is no error and changes nothing.\<close>

definition unmarshal_event :: "json \<Rightarrow> go_error + event" where
  "unmarshal_event j = (case j of
       JObj kvs \<Rightarrow> set_members kvs zero_event
     | JNull \<Rightarrow> Inr zero_event
     | _ \<Rightarrow> Inl (ErrText ''json: cannot unmarshal into Event''))"

section \<open>Round trip\<close>

text \<open>The events a Go program can hold: a 64-bit version and statuses and type as decoded.\<close>

definition wf_event :: "event \<Rightarrow> bool" where
  "wf_event e \<longleftrightarrow> canonical_status (StatusAtual e) \<and> canonical_status (StatusAnterior e) \<and>
     canonical_type (EventType e) \<and> - (2 ^ 63) \<le> SchemaVersion e \<and> SchemaVersion e < 2 ^ 63"

lemma set_members_append:
  "set_members (xs @ ys) e =
     (case set_members xs e of Inl err \<Rightarrow> Inl err | Inr e' \<Rightarrow> set_members ys e')"
  by (induction xs e rule: set_members.induct) (auto split: sum.splits)

lemma fold_name_tags [simp]:
  "fold_name ''event_id'' = ''event_id''" "fold_name ''order_id'' = ''order_id''"
  "fold_name ''saga_id'' = ''saga_id''" "fold_name ''transaction_id'' = ''transaction_id''"
  "fold_name ''status_atual'' = ''status_atual''"
  "fold_name ''status_anterior'' = ''status_anterior''"
  "fold_name ''event_type'' = ''event_type''" "fold_name ''schema_version'' = ''schema_version''"
  "fold_name ''created_at'' = ''created_at''" "fold_name ''metadata'' = ''metadata''"
  by (simp_all add: fold_name_def lower_char_def)

lemma set_member_strings:
  "set_member ''event_id'' (JStr s) e = Inr (e\<lparr>EventID := s\<rparr>)"
  "set_member ''order_id'' (JStr s) e = Inr (e\<lparr>OrderID := s\<rparr>)"
  "set_member ''saga_id'' (JStr s) e = Inr (e\<lparr>SagaID := s\<rparr>)"
  "set_member ''transaction_id'' (JStr s) e = Inr (e\<lparr>TransactionID := s\<rparr>)"
  "set_member ''status_atual'' (JStr s) e = Inr (e\<lparr>StatusAtual := status_of s\<rparr>)"
  "set_member ''status_anterior'' (JStr s) e = Inr (e\<lparr>StatusAnterior := status_of s\<rparr>)"
  "set_member ''event_type'' (JStr s) e = Inr (e\<lparr>EventType := event_type_of s\<rparr>)"
  by (simp_all add: set_member_def set_string_def decode_string_def)

lemma set_member_others:
  "- (2 ^ 63) \<le> i \<Longrightarrow> i < 2 ^ 63 \<Longrightarrow>
     set_member ''schema_version'' (JNum i) e = Inr (e\<lparr>SchemaVersion := i\<rparr>)"
  "set_member ''created_at'' (JTime t) e = Inr (e\<lparr>CreatedAt := t\<rparr>)"
  "Metadata e = fmempty \<Longrightarrow>
     set_member ''metadata'' (marshal_map m) e = Inr (e\<lparr>Metadata := m\<rparr>)"
  by (simp_all add: set_member_def decode_int_def decode_time_def decode_map_def marshal_map_def
      unmarshal_marshal_map)

lemma unmarshal_marshal:
  assumes "wf_event e"
  shows "unmarshal_event (marshal_event e) = Inr e"
  using assms
  by (cases e)
    (auto simp: unmarshal_event_def marshal_event_def omit_empty_def set_members_append
      set_member_strings set_member_others wf_event_def zero_event_def
      canonical_statusD canonical_typeD dest: status_text_empty)



end
