(* ===== verification/StateMachine.thy ===== *)
theory StateMachine
  imports SagaDomain
begin

text \<open>
  The explicit transition table of the saga
  (\<open>internal/application/orchestrator/state_machine.go\<close>) and its two guards. A status with no
  entry in the Go map reads as the empty list.
\<close>

definition validTransitions :: "order_status \<Rightarrow> order_status list" where
  "validTransitions from =
     (case from of
        StatusPending \<Rightarrow> [StatusPaymentPending]
      | StatusPaymentPending \<Rightarrow> [StatusPaymentApproved, StatusFailed]
      | StatusPaymentApproved \<Rightarrow>
          [StatusInventoryReserved, StatusPaymentRefundPending, StatusFailed]
      | StatusPaymentRefundPending \<Rightarrow> [StatusFailed]
      | StatusInventoryReserved \<Rightarrow> [StatusNotified, StatusCompleted, StatusFailed]
      | StatusNotified \<Rightarrow> [StatusCompleted]
      | _ \<Rightarrow> [])"

definition canTransitionTo :: "order_status \<Rightarrow> order_status \<Rightarrow> bool" where
  "canTransitionTo from to = list_ex (\<lambda>next. next = to) (validTransitions from)"

definition assertTransition :: "order_status \<Rightarrow> order_status \<Rightarrow> ('w, go_error, unit) io" where
  "assertTransition from to =
     (if \<not> canTransitionTo from to
      then failM (Wrapf ''transicao invalida da saga'' ErrInvalidTransition)
      else returnM ())"

section \<open>Shape of the table\<close>

definition terminal_status :: "order_status \<Rightarrow> bool" where
  "terminal_status s \<longleftrightarrow> s = StatusCompleted \<or> s = StatusFailed"

lemma canTransitionTo_simps [simp]:
  "canTransitionTo StatusPending t = (t = StatusPaymentPending)"
  "canTransitionTo StatusPaymentPending t = (t = StatusPaymentApproved \<or> t = StatusFailed)"
  "canTransitionTo StatusPaymentApproved t =
     (t = StatusInventoryReserved \<or> t = StatusPaymentRefundPending \<or> t = StatusFailed)"
  "canTransitionTo StatusPaymentRefundPending t = (t = StatusFailed)"
  "canTransitionTo StatusInventoryReserved t =
     (t = StatusNotified \<or> t = StatusCompleted \<or> t = StatusFailed)"
  "canTransitionTo StatusNotified t = (t = StatusCompleted)"
  "\<not> canTransitionTo StatusCompleted t" "\<not> canTransitionTo StatusFailed t"
  "\<not> canTransitionTo StatusPaymentRefunded t" "\<not> canTransitionTo StatusRetrying t"
  "\<not> canTransitionTo (OtherStatus s) t"
  by (auto simp: canTransitionTo_def validTransitions_def)

lemma assertTransition_ok [simp]:
  "canTransitionTo a b \<Longrightarrow> assertTransition a b = returnM ()"
  by (simp add: assertTransition_def)

text \<open>The stage of a status: every allowed transition lowers it, so the table has no cycle.\<close>

fun stage :: "order_status \<Rightarrow> nat" where
  "stage StatusPending = 5"
| "stage StatusPaymentPending = 4"
| "stage StatusPaymentApproved = 3"
| "stage StatusInventoryReserved = 2"
| "stage StatusPaymentRefundPending = 2"
| "stage StatusNotified = 1"
| "stage _ = 0"

lemma canTransitionTo_stage: "canTransitionTo a b \<Longrightarrow> stage b < stage a"
  by (cases a) auto

end
