(* ===== verification/Topics.thy ===== *)
theory Topics
  imports SagaDomain
begin

text \<open>
  The topics of the bus (\<open>internal/infrastructure/kafka/topics.go\<close>): the routing of every event
  type to a topic, the dead-letter topics, and the topics each service consumes
  (\<open>cmd/*/main.go\<close>).
\<close>

definition TopicOrderCreated :: string where
  "TopicOrderCreated = ''orders.created''"

definition TopicOrderStatus :: string where
  "TopicOrderStatus = ''orders.status''"

definition TopicPaymentCommand :: string where
  "TopicPaymentCommand = ''orders.payment.cmd''"

definition TopicPaymentResult :: string where
  "TopicPaymentResult = ''orders.payment.result''"

definition TopicInventoryCommand :: string where
  "TopicInventoryCommand = ''orders.inventory.cmd''"

definition TopicInventoryResult :: string where
  "TopicInventoryResult = ''orders.inventory.result''"

definition TopicNotificationCommand :: string where
  "TopicNotificationCommand = ''orders.notification.cmd''"

definition TopicNotificationResult :: string where
  "TopicNotificationResult = ''orders.notification.result''"

lemmas topic_defs =
  TopicOrderCreated_def TopicOrderStatus_def TopicPaymentCommand_def TopicPaymentResult_def
  TopicInventoryCommand_def TopicInventoryResult_def TopicNotificationCommand_def
  TopicNotificationResult_def

text \<open>The routing table and its look-up; an unknown type has no topic.\<close>

definition topicForEventType :: "(event_type \<times> string) list" where
  "topicForEventType =
     [(EventOrderCreated, TopicOrderCreated),
      (EventOrderCompleted, TopicOrderStatus),
      (EventOrderFailed, TopicOrderStatus),
      (EventPaymentCommand, TopicPaymentCommand),
      (EventPaymentCompensate, TopicPaymentCommand),
      (EventPaymentResult, TopicPaymentResult),
      (EventPaymentCompensateResult, TopicPaymentResult),
      (EventInventoryCommand, TopicInventoryCommand),
      (EventInventoryResult, TopicInventoryResult),
      (EventNotificationCommand, TopicNotificationCommand),
      (EventNotificationResult, TopicNotificationResult)]"

definition TopicForEventType :: "event_type \<Rightarrow> string option" where
  "TopicForEventType t = map_of topicForEventType t"

definition FlowTopics :: "string list" where
  "FlowTopics =
     [TopicOrderCreated, TopicOrderStatus, TopicPaymentCommand, TopicPaymentResult,
      TopicInventoryCommand, TopicInventoryResult, TopicNotificationCommand,
      TopicNotificationResult]"

definition DLQTopicFor :: "string \<Rightarrow> string" where
  "DLQTopicFor topic = topic @ ''.dlq''"

section \<open>What each service consumes\<close>

definition orchestrator_topics :: "string list" where
  "orchestrator_topics =
     [TopicOrderCreated, TopicPaymentResult, TopicInventoryResult, TopicNotificationResult]"

definition worker_payment_topics :: "string list" where
  "worker_payment_topics = [TopicPaymentCommand]"

definition worker_inventory_topics :: "string list" where
  "worker_inventory_topics = [TopicInventoryCommand]"

definition worker_notification_topics :: "string list" where
  "worker_notification_topics = [TopicNotificationCommand]"

definition projector_topics :: "string list" where
  "projector_topics = FlowTopics"

definition order_status_topics :: "string list" where
  "order_status_topics = [TopicOrderStatus]"

section \<open>Routing facts\<close>

lemma TopicForEventType_simps [simp]:
  "TopicForEventType EventOrderCreated = Some TopicOrderCreated"
  "TopicForEventType EventOrderCompleted = Some TopicOrderStatus"
  "TopicForEventType EventOrderFailed = Some TopicOrderStatus"
  "TopicForEventType EventPaymentCommand = Some TopicPaymentCommand"
  "TopicForEventType EventPaymentCompensate = Some TopicPaymentCommand"
  "TopicForEventType EventPaymentResult = Some TopicPaymentResult"
  "TopicForEventType EventPaymentCompensateResult = Some TopicPaymentResult"
  "TopicForEventType EventInventoryCommand = Some TopicInventoryCommand"
  "TopicForEventType EventInventoryResult = Some TopicInventoryResult"
  "TopicForEventType EventNotificationCommand = Some TopicNotificationCommand"
  "TopicForEventType EventNotificationResult = Some TopicNotificationResult"
  "TopicForEventType (OtherEvent s) = None"
  by (simp_all add: TopicForEventType_def topicForEventType_def)

lemma FlowTopics_distinct: "distinct FlowTopics"
  by (simp add: FlowTopics_def topic_defs)

lemma TopicForEventType_flow: "TopicForEventType t = Some topic \<Longrightarrow> topic \<in> set FlowTopics"
  by (cases t) (auto simp: FlowTopics_def)

lemma DLQTopicFor_inj: "DLQTopicFor a = DLQTopicFor b \<longleftrightarrow> a = b"
  by (simp add: DLQTopicFor_def)

lemma FlowTopics_no_dlq: "topic \<in> set FlowTopics \<Longrightarrow> DLQTopicFor topic \<notin> set FlowTopics"
  by (auto simp: FlowTopics_def topic_defs DLQTopicFor_def)

end
