(* ===== verification/Ports.thy ===== *)
theory Ports
  imports StateMachine Topics
begin

text \<open>
  The ports of \<open>internal/application\<close>: the journal entry, the interfaces the use cases call
  (\<open>SagaRepository\<close>, \<open>EventLogRepository\<close>, \<open>EventPublisher\<close>, bundled in \<open>SagaTx\<close>, and
  \<open>SagaUnitOfWork\<close>) as records of actions, and the promises behind them as the locales
  \<open>saga_tx_contract\<close> and \<open>saga_uow_contract\<close>. The use cases are proved once against the
  contracts; the Postgres repositories and unit of work provide them (theories Postgres and
  UnitOfWork).
\<close>

section \<open>Journal entries\<close>

datatype direction =
    DirectionIn
  | DirectionOut
  | DirectionGatewayRequest
  | DirectionGatewayResponse

fun direction_text :: "direction \<Rightarrow> string" where
  "direction_text DirectionIn = ''IN''"
| "direction_text DirectionOut = ''OUT''"
| "direction_text DirectionGatewayRequest = ''GATEWAY_REQUEST''"
| "direction_text DirectionGatewayResponse = ''GATEWAY_RESPONSE''"

text \<open>The values the code puts in a field of type \<open>any\<close>: nothing, an event, or a map.\<close>

datatype any_value =
    AnyNil
  | AnyEvent event
  | AnyMap "(string \<times> json) list"

record event_log_entry =
  le_OrderID :: string
  le_SagaID :: string
  le_EventID :: string
  le_EventType :: event_type
  le_Component :: string
  le_Direction :: direction
  le_StatusAnterior :: order_status
  le_StatusAtual :: order_status
  le_Payload :: any_value
  le_RequestPayload :: any_value
  le_ResponsePayload :: any_value

section \<open>Interfaces\<close>

record 'w event_log =
  Append :: "event_log_entry \<Rightarrow> ('w, go_error, unit) io"
  Has :: "string \<Rightarrow> string \<Rightarrow> ('w, go_error, bool) io"

text \<open>\<open>EventLog\<close> may be a nil interface, which the use cases test for.\<close>

record 'w saga_tx =
  Sagas_Save :: "saga \<Rightarrow> ('w, go_error, unit) io"
  Sagas_Load :: "string \<Rightarrow> ('w, go_error, saga) io"
  EventLog :: "'w event_log option"
  Publish :: "event \<Rightarrow> ('w, go_error, unit) io"

type_synonym 'w unit_of_work =
  "('w saga_tx \<Rightarrow> ('w, go_error, unit) io) \<Rightarrow> ('w, go_error, unit) io"

section \<open>What a store promises: the abstract state behind the ports\<close>

text \<open>
  An abstract store holds the current saga of each order, the rows of the journal and the
  messages accepted for publication. The journal keeps one row per event, component and
  direction; the outbox keeps one message per event id.
\<close>

record journal_row =
  jr_OrderID :: string
  jr_SagaID :: string
  jr_EventID :: string
  jr_EventType :: event_type
  jr_Component :: string
  jr_Direction :: direction
  jr_StatusAnterior :: order_status
  jr_StatusAtual :: order_status
  jr_Payload :: "json option"
  jr_RequestPayload :: "json option"
  jr_ResponsePayload :: "json option"

record message =
  msg_EventID :: string
  msg_Topic :: string
  msg_Key :: string
  msg_Payload :: json

record abs_db =
  a_sagas :: "string \<Rightarrow> saga option"
  a_log :: "journal_row list"
  a_out :: "message list"

text \<open>
  \<open>marshalJSON\<close> of event_log_repository.go: a nil value is SQL NULL; the members of a map are
  written in the order of their keys.
\<close>

definition marshalJSON :: "any_value \<Rightarrow> json option" where
  "marshalJSON v = (case v of
       AnyNil \<Rightarrow> None
     | AnyEvent e \<Rightarrow> Some (marshal_event e)
     | AnyMap kvs \<Rightarrow> Some (JObj (sort_key fst kvs)))"

definition journal_row_of :: "event_log_entry \<Rightarrow> journal_row" where
  "journal_row_of e =
     \<lparr>jr_OrderID = le_OrderID e, jr_SagaID = le_SagaID e, jr_EventID = le_EventID e,
      jr_EventType = le_EventType e, jr_Component = le_Component e,
      jr_Direction = le_Direction e, jr_StatusAnterior = le_StatusAnterior e,
      jr_StatusAtual = le_StatusAtual e, jr_Payload = marshalJSON (le_Payload e),
      jr_RequestPayload = marshalJSON (le_RequestPayload e),
      jr_ResponsePayload = marshalJSON (le_ResponsePayload e)\<rparr>"

definition journal_key :: "journal_row \<Rightarrow> string \<times> string \<times> direction" where
  "journal_key r = (jr_EventID r, jr_Component r, jr_Direction r)"

definition abs_append :: "event_log_entry \<Rightarrow> abs_db \<Rightarrow> abs_db" where
  "abs_append e d =
     (if journal_key (journal_row_of e) \<in> journal_key ` set (a_log d) then d
      else d\<lparr>a_log := a_log d @ [journal_row_of e]\<rparr>)"

definition abs_has :: "string \<Rightarrow> string \<Rightarrow> abs_db \<Rightarrow> bool" where
  "abs_has eid who d = list_ex (\<lambda>r. jr_EventID r = eid \<and> jr_Component r = who) (a_log d)"

definition abs_save :: "saga \<Rightarrow> abs_db \<Rightarrow> abs_db" where
  "abs_save s d = d\<lparr>a_sagas := (a_sagas d)(saga_OrderID s \<mapsto> s)\<rparr>"

definition message_of :: "event \<Rightarrow> message" where
  "message_of e =
     \<lparr>msg_EventID = EventID e,
      msg_Topic = (case TopicForEventType (EventType e) of Some t \<Rightarrow> t | None \<Rightarrow> ''''),
      msg_Key = OrderID e, msg_Payload = marshal_event e\<rparr>"

definition abs_publish :: "event \<Rightarrow> abs_db \<Rightarrow> abs_db" where
  "abs_publish e d =
     (if EventID e \<in> msg_EventID ` set (a_out d) then d
      else d\<lparr>a_out := a_out d @ [message_of e]\<rparr>)"

lemma abs_sagas_simps [simp]:
  "a_sagas (abs_append e d) = a_sagas d"
  "a_sagas (abs_publish ev d) = a_sagas d"
  "a_sagas (abs_save s d) = (a_sagas d)(saga_OrderID s \<mapsto> s)"
  by (simp_all add: abs_append_def abs_publish_def abs_save_def)

lemma abs_log_simps [simp]:
  "a_log (abs_publish ev d) = a_log d"
  "a_log (abs_save s d) = a_log d"
  by (simp_all add: abs_publish_def abs_save_def)

lemma abs_out_simps [simp]:
  "a_out (abs_append e d) = a_out d"
  "a_out (abs_save s d) = a_out d"
  by (simp_all add: abs_append_def abs_save_def)

lemma abs_log_append_mono: "set (a_log d) \<subseteq> set (a_log (abs_append e d))"
  by (auto simp: abs_append_def)

lemma abs_has_append:
  "abs_has eid who (abs_append e d) \<longleftrightarrow>
     abs_has eid who d \<or> (le_EventID e = eid \<and> le_Component e = who)"
  by (auto simp: abs_append_def abs_has_def journal_row_of_def journal_key_def list_ex_iff)

lemma abs_has_simps [simp]:
  "abs_has eid who (abs_publish ev d) = abs_has eid who d"
  "abs_has eid who (abs_save s d) = abs_has eid who d"
  by (simp_all add: abs_has_def)

lemma abs_commute:
  "abs_save s (abs_append e d) = abs_append e (abs_save s d)"
  "abs_save s (abs_publish ev d) = abs_publish ev (abs_save s d)"
  "abs_publish ev (abs_append e d) = abs_append e (abs_publish ev d)"
  by (simp_all add: abs_append_def abs_publish_def abs_save_def)

lemma abs_save_save [simp]:
  "saga_OrderID s = saga_OrderID t \<Longrightarrow> abs_save s (abs_save t d) = abs_save s d"
  by (simp add: abs_save_def)

section \<open>The contract of a transaction\<close>

text \<open>
  The inputs of the program are as before: no random block and no clock reading was used, and no
  gateway was called.
\<close>

definition same_env :: "'a env_scheme \<Rightarrow> 'a env_scheme \<Rightarrow> bool" where
  "same_env w v \<longleftrightarrow> entropy v = entropy w \<and> drawn v = drawn w \<and>
     clock v = clock w \<and> ticks v = ticks w \<and> attempts v = attempts w"

lemma same_env_refl [simp]: "same_env w w"
  by (simp add: same_env_def)

lemma same_env_trans: "same_env w v \<Longrightarrow> same_env v u \<Longrightarrow> same_env w u"
  by (simp add: same_env_def)

text \<open>The inputs are the same and their use only advances: no random block is used twice.\<close>

definition env_advances :: "'a env_scheme \<Rightarrow> 'a env_scheme \<Rightarrow> bool" where
  "env_advances w v \<longleftrightarrow>
     entropy v = entropy w \<and> clock v = clock w \<and> drawn w \<le> drawn v \<and> ticks w \<le> ticks v"

lemma env_advances_refl [simp]: "env_advances w w"
  by (simp add: env_advances_def)

lemma env_advances_trans: "env_advances w v \<Longrightarrow> env_advances v u \<Longrightarrow> env_advances w u"
  by (auto simp: env_advances_def)

lemma same_env_advances: "same_env w v \<Longrightarrow> env_advances w v"
  by (simp add: same_env_def env_advances_def)

text \<open>
  \<open>view\<close> is the abstract store as the transaction sees it, and \<open>healthy\<close> says that the
  infrastructure fails no more. Every operation either does its abstract effect or fails with a
  transient error, which it does only when the infrastructure is not healthy; a publication
  also fails when the event's type has no topic.
\<close>

locale saga_tx_contract =
  fixes tx :: "'a env_scheme saga_tx"
    and log :: "'a env_scheme event_log"
    and view :: "'a env_scheme \<Rightarrow> abs_db"
    and healthy :: "'a env_scheme \<Rightarrow> bool"
  assumes log_present: "EventLog tx = Some log"
    and view_env: "view (w\<lparr>drawn := n\<rparr>) = view w" "view (w\<lparr>ticks := n\<rparr>) = view w"
    and healthy_env: "healthy (w\<lparr>drawn := n\<rparr>) = healthy w" "healthy (w\<lparr>ticks := n\<rparr>) = healthy w"
    and load_contract:
      "wpM (Sagas_Load tx oid)
         (\<lambda>s v. a_sagas (view w) oid = Some s \<and> saga_OrderID s = oid \<and> view v = view w \<and>
            same_env w v \<and> (healthy w \<longrightarrow> healthy v))
         (\<lambda>e v. same_env w v \<and>
            (if e = ErrSagaNotFound
             then a_sagas (view w) oid = None \<and> view v = view w \<and> (healthy w \<longrightarrow> healthy v)
             else transient e \<and> \<not> healthy w)) w"
    and save_contract:
      "wpM (Sagas_Save tx s)
         (\<lambda>_ v. view v = abs_save s (view w) \<and> same_env w v \<and> (healthy w \<longrightarrow> healthy v))
         (\<lambda>e v. same_env w v \<and> transient e \<and> \<not> healthy w) w"
    and has_contract:
      "wpM (Has log eid who)
         (\<lambda>b v. b = abs_has eid who (view w) \<and> view v = view w \<and>
            same_env w v \<and> (healthy w \<longrightarrow> healthy v))
         (\<lambda>e v. same_env w v \<and> transient e \<and> \<not> healthy w) w"
    and append_contract:
      "wpM (Append log entry)
         (\<lambda>_ v. view v = abs_append entry (view w) \<and> same_env w v \<and> (healthy w \<longrightarrow> healthy v))
         (\<lambda>e v. same_env w v \<and> transient e \<and> \<not> healthy w) w"
    and publish_contract:
      "TopicForEventType (EventType ev) = Some topic \<Longrightarrow>
       wpM (Publish tx ev)
         (\<lambda>_ v. view v = abs_publish ev (view w) \<and> same_env w v \<and> (healthy w \<longrightarrow> healthy v))
         (\<lambda>e v. same_env w v \<and> transient e \<and> \<not> healthy w) w"
begin

lemmas env_simps = view_env healthy_env

text \<open>The contracts as rules for symbolic execution: one premise per way an operation ends.\<close>

lemma load_rule:
  assumes "\<And>s v. a_sagas (view w) oid = Some s \<Longrightarrow> saga_OrderID s = oid \<Longrightarrow> view v = view w \<Longrightarrow>
      same_env w v \<Longrightarrow> (healthy w \<longrightarrow> healthy v) \<Longrightarrow> Q s v"
    and "\<And>v. a_sagas (view w) oid = None \<Longrightarrow> view v = view w \<Longrightarrow> same_env w v \<Longrightarrow>
      (healthy w \<longrightarrow> healthy v) \<Longrightarrow> E ErrSagaNotFound v"
    and "\<And>e v. e \<noteq> ErrSagaNotFound \<Longrightarrow> same_env w v \<Longrightarrow> transient e \<Longrightarrow> \<not> healthy w \<Longrightarrow> E e v"
  shows "wpM (Sagas_Load tx oid) Q E w"
  using load_contract by (rule wpM_conseq) (auto intro: assms split: if_splits)

lemma save_rule:
  assumes "\<And>v. view v = abs_save s (view w) \<Longrightarrow> same_env w v \<Longrightarrow> (healthy w \<longrightarrow> healthy v) \<Longrightarrow> Q () v"
    and "\<And>e v. same_env w v \<Longrightarrow> transient e \<Longrightarrow> \<not> healthy w \<Longrightarrow> E e v"
  shows "wpM (Sagas_Save tx s) Q E w"
  using save_contract by (rule wpM_conseq) (auto intro: assms)

lemma has_rule:
  assumes "\<And>v. view v = view w \<Longrightarrow> same_env w v \<Longrightarrow> (healthy w \<longrightarrow> healthy v) \<Longrightarrow>
      Q (abs_has eid who (view w)) v"
    and "\<And>e v. same_env w v \<Longrightarrow> transient e \<Longrightarrow> \<not> healthy w \<Longrightarrow> E e v"
  shows "wpM (Has log eid who) Q E w"
  using has_contract by (rule wpM_conseq) (auto intro: assms)

lemma append_rule:
  assumes "\<And>v. view v = abs_append entry (view w) \<Longrightarrow> same_env w v \<Longrightarrow>
      (healthy w \<longrightarrow> healthy v) \<Longrightarrow> Q () v"
    and "\<And>e v. same_env w v \<Longrightarrow> transient e \<Longrightarrow> \<not> healthy w \<Longrightarrow> E e v"
  shows "wpM (Append log entry) Q E w"
  using append_contract by (rule wpM_conseq) (auto intro: assms)

lemma publish_rule:
  assumes "TopicForEventType (EventType ev) = Some topic"
    and "\<And>v. view v = abs_publish ev (view w) \<Longrightarrow> same_env w v \<Longrightarrow>
      (healthy w \<longrightarrow> healthy v) \<Longrightarrow> Q () v"
    and "\<And>e v. same_env w v \<Longrightarrow> transient e \<Longrightarrow> \<not> healthy w \<Longrightarrow> E e v"
  shows "wpM (Publish tx ev) Q E w"
  using publish_contract [OF assms(1)] by (rule wpM_conseq) (auto intro: assms)

end

section \<open>The contract of the unit of work\<close>

text \<open>
  \<open>WithTx\<close> runs the function inside one transaction. It may fail to begin, and then nothing
  happened; an error of the function undoes every write and is returned as it is; after a
  success the commit makes all writes visible, fails and undoes them, or is carried out while
  its acknowledgement is lost, which the caller sees as a failure. Only an unhealthy
  infrastructure fails.
\<close>

locale saga_uow_contract = saga_tx_contract tx log view healthy
  for tx :: "'a env_scheme saga_tx"
    and log :: "'a env_scheme event_log"
    and view :: "'a env_scheme \<Rightarrow> abs_db"
    and healthy :: "'a env_scheme \<Rightarrow> bool" +
  fixes with_tx :: "'a env_scheme unit_of_work"
  assumes with_tx_contract:
    "(\<And>u. view u = view w \<Longrightarrow> same_env w u \<Longrightarrow> (healthy w \<longrightarrow> healthy u) \<Longrightarrow>
        wpM (body tx) (R u) (S u) u) \<Longrightarrow>
     wpM (with_tx body)
       (\<lambda>x v. \<exists>u v0. view u = view w \<and> same_env w u \<and> (healthy w \<longrightarrow> healthy u) \<and> R u x v0 \<and>
          view v = view v0 \<and> same_env v0 v \<and> (healthy v0 \<longrightarrow> healthy v))
       (\<lambda>e v.
          (view v = view w \<and> same_env w v \<and> transient e \<and> \<not> healthy w) \<or>
          (\<exists>u v0. view u = view w \<and> same_env w u \<and> (healthy w \<longrightarrow> healthy u) \<and> S u e v0 \<and>
             view v = view w \<and> same_env v0 v \<and> (healthy v0 \<longrightarrow> healthy v)) \<or>
          (\<exists>u v0. view u = view w \<and> same_env w u \<and> (healthy w \<longrightarrow> healthy u) \<and> R u () v0 \<and>
             transient e \<and> \<not> healthy v0 \<and> (view v = view w \<or> view v = view v0) \<and> same_env v0 v))
       w"

end
