(* ===== verification/Orchestrator.thy ===== *)
theory Orchestrator
  imports Ports
begin

text \<open>
  The saga orchestrator (\<open>internal/application/orchestrator/orchestrator.go\<close>), one definition
  per Go function, in the order the calls need. Each handler runs inside one transaction of the
  unit of work. The \<open>*domain.Saga\<close> the functions share is passed by value: no caller reads it
  after the callee has changed it. Log output is left out.
\<close>

record 'w orchestrator =
  uow :: "'w unit_of_work"
  maxRetries :: int

abbreviation orchestrator_component :: string where
  "orchestrator_component \<equiv> ''orchestrator''"

section \<open>Decision tables\<close>

definition nextCommand :: "order_status \<Rightarrow> go_error + (order_status \<times> event_type)" where
  "nextCommand current =
     (case current of
        StatusPending \<Rightarrow> Inr (StatusPaymentPending, EventPaymentCommand)
      | StatusPaymentPending \<Rightarrow> Inr (StatusPaymentPending, EventPaymentCommand)
      | StatusPaymentApproved \<Rightarrow> Inr (StatusPaymentApproved, EventInventoryCommand)
      | StatusPaymentRefundPending \<Rightarrow> Inr (StatusPaymentRefundPending, EventPaymentCompensate)
      | StatusInventoryReserved \<Rightarrow> Inr (StatusInventoryReserved, EventNotificationCommand)
      | _ \<Rightarrow> Inl (ErrText ''nao ha proxima etapa definida para o status''))"

definition expectedStatusForResult :: "event_type \<Rightarrow> go_error + order_status" where
  "expectedStatusForResult t =
     (case t of
        EventPaymentResult \<Rightarrow> Inr StatusPaymentPending
      | EventPaymentCompensateResult \<Rightarrow> Inr StatusPaymentRefundPending
      | EventInventoryResult \<Rightarrow> Inr StatusPaymentApproved
      | EventNotificationResult \<Rightarrow> Inr StatusInventoryReserved
      | _ \<Rightarrow> Inl (ErrText ''tipo de evento nao suportado pelo orquestrador''))"

definition validateResultStatus :: "event_type \<Rightarrow> order_status \<Rightarrow> go_error + unit" where
  "validateResultStatus t status =
     (let valid =
        (case t of
           EventPaymentResult \<Rightarrow>
             status = StatusPaymentApproved \<or> status = StatusRetrying \<or> status = StatusFailed
         | EventPaymentCompensateResult \<Rightarrow>
             status = StatusPaymentRefunded \<or> status = StatusRetrying \<or> status = StatusFailed
         | EventInventoryResult \<Rightarrow>
             status = StatusInventoryReserved \<or> status = StatusRetrying \<or> status = StatusFailed
         | EventNotificationResult \<Rightarrow>
             status = StatusNotified \<or> status = StatusRetrying \<or> status = StatusFailed
         | _ \<Rightarrow> False)
      in if valid then Inr () else Inl (ErrText ''status incompativel com o resultado''))"

text \<open>A copy of a map value is the value.\<close>

definition cloneMetadata :: "metadata \<Rightarrow> metadata" where
  "cloneMetadata m = m"

definition terminalEvent ::
  "string \<Rightarrow> order_status \<Rightarrow> order_status \<Rightarrow> event_type \<Rightarrow> metadata \<Rightarrow>
     ('a env_scheme, go_error, event) io" where
  "terminalEvent orderID previousStatus currentStatus eventType metadata =
     tryM NewEventID (\<lambda>eid.
     tryM time_Now (\<lambda>now.
     returnM \<lparr>EventID = eid, OrderID = orderID, SagaID = orderID, TransactionID = '''',
       StatusAtual = currentStatus, StatusAnterior = previousStatus, EventType = eventType,
       SchemaVersion = CurrentSchemaVersion, CreatedAt = now, Metadata = metadata\<rparr>))"

section \<open>Journal\<close>

definition logEvent ::
  "'w saga_tx \<Rightarrow> saga \<Rightarrow> string \<Rightarrow> event_type \<Rightarrow> direction \<Rightarrow> order_status \<Rightarrow>
     any_value \<Rightarrow> any_value \<Rightarrow> any_value \<Rightarrow> ('w, go_error, unit) io" where
  "logEvent tx saga eventID eventType dir status payload requestPayload responsePayload =
     (case EventLog tx of
        None \<Rightarrow> returnM ()
      | Some eventLog \<Rightarrow> Append eventLog
          \<lparr>le_OrderID = saga_OrderID saga, le_SagaID = saga_OrderID saga, le_EventID = eventID,
           le_EventType = eventType, le_Component = orchestrator_component,
           le_Direction = dir, le_StatusAnterior = Previous saga, le_StatusAtual = status,
           le_Payload = payload, le_RequestPayload = requestPayload,
           le_ResponsePayload = responsePayload\<rparr>)"

definition alreadyProcessed :: "'w saga_tx \<Rightarrow> string \<Rightarrow> ('w, go_error, bool) io" where
  "alreadyProcessed tx eventID =
     (case EventLog tx of
        None \<Rightarrow> returnM False
      | Some eventLog \<Rightarrow>
          wrapM (Wrapf ''erro ao verificar duplicidade do evento'')
            (Has eventLog eventID orchestrator_component))"

section \<open>Steps that save the saga and publish\<close>

definition dispatchNext ::
  "'a env_scheme saga_tx \<Rightarrow> saga \<Rightarrow> ('a env_scheme, go_error, unit) io" where
  "dispatchNext tx saga =
     (case nextCommand (Current saga) of
        Inl err \<Rightarrow> failM err
      | Inr (targetStatus, eventType) \<Rightarrow>
          tryM NewEventID (\<lambda>eid.
          tryM time_Now (\<lambda>now.
          let command = \<lparr>EventID = eid, OrderID = saga_OrderID saga, SagaID = saga_OrderID saga,
                TransactionID = saga_TransactionID saga, StatusAtual = targetStatus,
                StatusAnterior = Previous saga, EventType = eventType,
                SchemaVersion = CurrentSchemaVersion, CreatedAt = now, Metadata = fmempty\<rparr>;
              saga = (if targetStatus \<noteq> Current saga
                then saga\<lparr>Previous := Current saga, Current := targetStatus\<rparr> else saga)
          in
          tryM (Sagas_Save tx saga) (\<lambda>_.
          tryM (logEvent tx saga (EventID command) eventType DirectionOut targetStatus
                  (AnyEvent command) AnyNil AnyNil) (\<lambda>_.
          Publish tx command)))))"

definition fail_saga ::
  "'a env_scheme saga_tx \<Rightarrow> saga \<Rightarrow> metadata \<Rightarrow> ('a env_scheme, go_error, unit) io" where
  "fail_saga tx saga metadata =
     tryM (assertTransition (Current saga) StatusFailed) (\<lambda>_.
     let previousStatus = Current saga;
         saga = saga\<lparr>Previous := previousStatus, Current := StatusFailed, RetryCount := 0\<rparr> in
     tryM (Sagas_Save tx saga) (\<lambda>_.
     tryM (terminalEvent (saga_OrderID saga) previousStatus StatusFailed EventOrderFailed metadata)
       (\<lambda>terminal.
     tryM (logEvent tx saga (EventID terminal) EventOrderFailed DirectionOut StatusFailed
             (AnyEvent terminal) AnyNil AnyNil) (\<lambda>_.
     Publish tx terminal))))"

definition complete ::
  "'a env_scheme saga_tx \<Rightarrow> saga \<Rightarrow> metadata \<Rightarrow> ('a env_scheme, go_error, unit) io" where
  "complete tx saga metadata =
     tryM (assertTransition (Current saga) StatusNotified) (\<lambda>_.
     let saga = saga\<lparr>Previous := Current saga, Current := StatusNotified, RetryCount := 0\<rparr> in
     tryM (Sagas_Save tx saga) (\<lambda>_.
     tryM (terminalEvent (saga_OrderID saga) StatusNotified StatusCompleted EventOrderCompleted
             metadata) (\<lambda>terminal.
     tryM (logEvent tx saga (EventID terminal) EventOrderCompleted DirectionOut StatusCompleted
             (AnyEvent terminal) AnyNil AnyNil) (\<lambda>_.
     tryM (Publish tx terminal) (\<lambda>_.
     let saga = saga\<lparr>Previous := StatusNotified, Current := StatusCompleted\<rparr> in
     tryM (Sagas_Save tx saga) (\<lambda>_.
     returnM ()))))))"

definition startCompensation ::
  "'a env_scheme saga_tx \<Rightarrow> saga \<Rightarrow> ('a env_scheme, go_error, unit) io" where
  "startCompensation tx saga =
     tryM (assertTransition (Current saga) StatusPaymentRefundPending) (\<lambda>_.
     let saga = saga\<lparr>Previous := Current saga, Current := StatusPaymentRefundPending,
           RetryCount := 0\<rparr> in
     tryM (Sagas_Save tx saga) (\<lambda>_.
     dispatchNext tx saga))"

definition retry ::
  "int \<Rightarrow> 'a env_scheme saga_tx \<Rightarrow> saga \<Rightarrow> ('a env_scheme, go_error, unit) io" where
  "retry maxR tx saga =
     (let saga = saga\<lparr>RetryCount := RetryCount saga + 1\<rparr> in
     tryM (Sagas_Save tx saga) (\<lambda>_.
     if RetryCount saga > maxR then
       (let metadata = fmupd ''motivo'' ''retry_limit_exceeded'' fmempty in
        if Current saga = StatusInventoryReserved then
          complete tx saga
            (fmupd ''motivo'' ''retry_limit_exceeded'' (fmupd ''notification_error'' ''true'' fmempty))
        else
          (let metadata = (if Current saga = StatusPaymentRefundPending
             then fmupd ''transaction_id'' (saga_TransactionID saga)
                    (fmupd ''payment_refund_failed'' ''true'' metadata)
             else metadata) in
           fail_saga tx saga metadata))
     else dispatchNext tx saga))"

section \<open>Handlers\<close>

definition startOrder ::
  "'a env_scheme saga_tx \<Rightarrow> event \<Rightarrow> ('a env_scheme, go_error, unit) io" where
  "startOrder tx event =
     tryM (alreadyProcessed tx (EventID event)) (\<lambda>seen.
     if seen then returnM ()
     else
       tryM (attemptM (Sagas_Load tx (OrderID event))) (\<lambda>loaded.
       case loaded of
         Inr _ \<Rightarrow> failM (Wrapf ''saga ja iniciada para o pedido'' ErrNonRetryable)
       | Inl err \<Rightarrow>
           if err \<noteq> ErrSagaNotFound
           then failM (Wrapf ''erro ao verificar saga para o pedido'' err)
           else
             (let saga = \<lparr>saga_OrderID = OrderID event, Previous = NoStatus,
                Current = StatusPending, RetryCount = 0, saga_TransactionID = ''''\<rparr> in
             tryM (logEvent tx saga (EventID event) EventOrderCreated DirectionIn StatusPending
                     (AnyEvent event) AnyNil AnyNil) (\<lambda>_.
             tryM (Sagas_Save tx saga) (\<lambda>_.
             dispatchNext tx saga)))))"

text \<open>The branch of \<open>handleResult\<close> for an approved payment or a reserved stock.\<close>

definition advance ::
  "'a env_scheme saga_tx \<Rightarrow> saga \<Rightarrow> event \<Rightarrow> ('a env_scheme, go_error, unit) io" where
  "advance tx saga event =
     tryM (assertTransition (Current saga) (StatusAtual event)) (\<lambda>_.
     let saga = saga\<lparr>Previous := Current saga, Current := StatusAtual event, RetryCount := 0\<rparr>;
         saga = (if EventType event = EventPaymentResult
           then saga\<lparr>saga_TransactionID := TransactionID event\<rparr> else saga) in
     tryM (Sagas_Save tx saga) (\<lambda>_.
     dispatchNext tx saga))"

text \<open>The second half of \<open>handleResult\<close>: guards on the saga and the result, then the decision.\<close>

definition decide ::
  "int \<Rightarrow> 'a env_scheme saga_tx \<Rightarrow> saga \<Rightarrow> event \<Rightarrow> ('a env_scheme, go_error, unit) io" where
  "decide maxR tx saga event =
     (case expectedStatusForResult (EventType event) of
       Inl err \<Rightarrow> failM err
     | Inr expectedStatus \<Rightarrow>
     if Current saga \<noteq> expectedStatus
     then failM (Wrapf ''evento fora de ordem para o pedido'' ErrNonRetryable)
     else
     case validateResultStatus (EventType event) (StatusAtual event) of
       Inl err \<Rightarrow> failM (Wrapf ''resultado invalido para o pedido'' ErrNonRetryable)
     | Inr _ \<Rightarrow>
     (case StatusAtual event of
        StatusRetrying \<Rightarrow> retry maxR tx saga
      | StatusFailed \<Rightarrow>
          if EventType event = EventNotificationResult
          then complete tx saga (fmupd ''notification_error'' ''true'' fmempty)
          else if EventType event = EventInventoryResult \<and> Current saga = StatusPaymentApproved \<and>
             saga_TransactionID saga \<noteq> ''''
          then startCompensation tx saga
          else if EventType event = EventPaymentCompensateResult
          then fail_saga tx saga
            (fmupd ''transaction_id'' (TransactionID event)
              (fmupd ''payment_refund_failed'' ''true'' (cloneMetadata (Metadata event))))
          else fail_saga tx saga (Metadata event)
      | StatusPaymentApproved \<Rightarrow> advance tx saga event
      | StatusInventoryReserved \<Rightarrow> advance tx saga event
      | StatusPaymentRefunded \<Rightarrow>
          fail_saga tx saga
            (fmupd ''transaction_id'' (TransactionID event)
              (fmupd ''payment_refunded'' ''true'' (cloneMetadata (Metadata event))))
      | StatusNotified \<Rightarrow> complete tx saga fmempty
      | _ \<Rightarrow> failM (Wrapf ''status inesperado recebido pelo orquestrador'' ErrNonRetryable)))"

definition handleResult ::
  "int \<Rightarrow> 'a env_scheme saga_tx \<Rightarrow> event \<Rightarrow> ('a env_scheme, go_error, unit) io" where
  "handleResult maxR tx event =
     (if EventType event \<notin> {EventPaymentResult, EventPaymentCompensateResult,
           EventInventoryResult, EventNotificationResult}
      then returnM ()
      else
     tryM (attemptM (Sagas_Load tx (OrderID event))) (\<lambda>loaded.
     case loaded of
       Inl err \<Rightarrow>
         if err = ErrSagaNotFound
         then failM (Wrapf ''saga desconhecida para o pedido'' ErrNonRetryable)
         else failM (Wrapf ''erro ao carregar saga para o pedido'' err)
     | Inr saga \<Rightarrow>
     tryM (alreadyProcessed tx (EventID event)) (\<lambda>seen.
     if seen then returnM ()
     else
     tryM (logEvent tx saga (EventID event) (EventType event) DirectionIn (StatusAtual event)
             (AnyEvent event) AnyNil AnyNil) (\<lambda>_.
     decide maxR tx saga event))))"

definition StartOrder ::
  "'a env_scheme orchestrator \<Rightarrow> event \<Rightarrow> ('a env_scheme, go_error, unit) io" where
  "StartOrder orch event = uow orch (\<lambda>tx. startOrder tx event)"

definition HandleResult ::
  "'a env_scheme orchestrator \<Rightarrow> event \<Rightarrow> ('a env_scheme, go_error, unit) io" where
  "HandleResult orch event = uow orch (\<lambda>tx. handleResult (maxRetries orch) tx event)"

definition HandleEvent ::
  "'a env_scheme orchestrator \<Rightarrow> event \<Rightarrow> ('a env_scheme, go_error, unit) io" where
  "HandleEvent orch event =
     (if EventType event = EventOrderCreated then StartOrder orch event
      else HandleResult orch event)"

end
