(* ===== verification/OrchestratorSpec.thy ===== *)
theory OrchestratorSpec
  imports Orchestrator
begin

text \<open>
  The abstract specification of the orchestrator and the proof, against the contracts of the
  ports, that the code of theory Orchestrator implements it.

  \<open>react\<close> is the decision on one saga: which result, in which state, calls for which reaction.
  \<open>orch_spec\<close> is the whole handler as a function on the abstract store: skip, reject, or accept
  with a new store. The refinement theorem \<open>HandleEvent_refines\<close> holds in every world that
  satisfies the contracts, under every failure of the infrastructure.
\<close>

section \<open>Reactions\<close>

datatype reaction =
    Proceed order_status string
  | Redo
  | Compensate
  | Abort metadata
  | Finish metadata

definition motivo_retry :: metadata where
  "motivo_retry = fmupd ''motivo'' ''retry_limit_exceeded'' fmempty"

definition refund_outcome :: "string \<Rightarrow> string \<Rightarrow> metadata \<Rightarrow> metadata" where
  "refund_outcome flag tid m = fmupd ''transaction_id'' tid (fmupd flag ''true'' m)"

text \<open>A retry is granted while the limit is not reached; then the stage gives up.\<close>

definition retry_or :: "int \<Rightarrow> saga \<Rightarrow> reaction \<Rightarrow> reaction" where
  "retry_or maxR s giveup = (if RetryCount s < maxR then Redo else giveup)"

definition react_payment :: "int \<Rightarrow> saga \<Rightarrow> event \<Rightarrow> reaction option" where
  "react_payment maxR s e = (case StatusAtual e of
       StatusPaymentApproved \<Rightarrow> Some (Proceed StatusPaymentApproved (TransactionID e))
     | StatusRetrying \<Rightarrow> Some (retry_or maxR s (Abort motivo_retry))
     | StatusFailed \<Rightarrow> Some (Abort (Metadata e))
     | _ \<Rightarrow> None)"

definition react_inventory :: "int \<Rightarrow> saga \<Rightarrow> event \<Rightarrow> reaction option" where
  "react_inventory maxR s e = (case StatusAtual e of
       StatusInventoryReserved \<Rightarrow> Some (Proceed StatusInventoryReserved (saga_TransactionID s))
     | StatusRetrying \<Rightarrow> Some (retry_or maxR s (Abort motivo_retry))
     | StatusFailed \<Rightarrow>
         Some (if saga_TransactionID s = '''' then Abort (Metadata e) else Compensate)
     | _ \<Rightarrow> None)"

definition react_notification :: "int \<Rightarrow> saga \<Rightarrow> event \<Rightarrow> reaction option" where
  "react_notification maxR s e = (case StatusAtual e of
       StatusNotified \<Rightarrow> Some (Finish fmempty)
     | StatusRetrying \<Rightarrow> Some (retry_or maxR s
         (Finish (fmupd ''motivo'' ''retry_limit_exceeded''
           (fmupd ''notification_error'' ''true'' fmempty))))
     | StatusFailed \<Rightarrow> Some (Finish (fmupd ''notification_error'' ''true'' fmempty))
     | _ \<Rightarrow> None)"

definition react_refund :: "int \<Rightarrow> saga \<Rightarrow> event \<Rightarrow> reaction option" where
  "react_refund maxR s e = (case StatusAtual e of
       StatusPaymentRefunded \<Rightarrow>
         Some (Abort (refund_outcome ''payment_refunded'' (TransactionID e) (Metadata e)))
     | StatusRetrying \<Rightarrow> Some (retry_or maxR s
         (Abort (refund_outcome ''payment_refund_failed'' (saga_TransactionID s) motivo_retry)))
     | StatusFailed \<Rightarrow>
         Some (Abort (refund_outcome ''payment_refund_failed'' (TransactionID e) (Metadata e)))
     | _ \<Rightarrow> None)"

definition react :: "int \<Rightarrow> saga \<Rightarrow> event \<Rightarrow> reaction option" where
  "react maxR s e =
     (if EventType e = EventPaymentResult \<and> Current s = StatusPaymentPending
      then react_payment maxR s e
      else if EventType e = EventInventoryResult \<and> Current s = StatusPaymentApproved
      then react_inventory maxR s e
      else if EventType e = EventNotificationResult \<and> Current s = StatusInventoryReserved
      then react_notification maxR s e
      else if EventType e = EventPaymentCompensateResult \<and> Current s = StatusPaymentRefundPending
      then react_refund maxR s e
      else None)"

lemmas react_defs = react_def react_payment_def react_inventory_def react_notification_def
  react_refund_def retry_or_def motivo_retry_def refund_outcome_def

text \<open>The saga after a reaction.\<close>

fun next_saga :: "reaction \<Rightarrow> saga \<Rightarrow> saga" where
  "next_saga (Proceed st tid) s =
     s\<lparr>Previous := Current s, Current := st, RetryCount := 0, saga_TransactionID := tid\<rparr>"
| "next_saga Redo s = s\<lparr>RetryCount := RetryCount s + 1\<rparr>"
| "next_saga Compensate s =
     s\<lparr>Previous := Current s, Current := StatusPaymentRefundPending, RetryCount := 0\<rparr>"
| "next_saga (Abort m) s = s\<lparr>Previous := Current s, Current := StatusFailed, RetryCount := 0\<rparr>"
| "next_saga (Finish m) s =
     s\<lparr>Previous := StatusNotified, Current := StatusCompleted, RetryCount := 0\<rparr>"

text \<open>The command that drives a saga from its current stage.\<close>

fun command_type :: "order_status \<Rightarrow> event_type" where
  "command_type StatusPending = EventPaymentCommand"
| "command_type StatusPaymentPending = EventPaymentCommand"
| "command_type StatusPaymentApproved = EventInventoryCommand"
| "command_type StatusPaymentRefundPending = EventPaymentCompensate"
| "command_type StatusInventoryReserved = EventNotificationCommand"
| "command_type _ = OtherEvent ''''"

definition outgoing ::
  "string \<Rightarrow> int \<Rightarrow> string \<Rightarrow> event_type \<Rightarrow> order_status \<Rightarrow> order_status \<Rightarrow> string \<Rightarrow> metadata \<Rightarrow> event" where
  "outgoing eid now oid t before after tid m =
     \<lparr>EventID = eid, OrderID = oid, SagaID = oid, TransactionID = tid, StatusAtual = after,
      StatusAnterior = before, EventType = t, SchemaVersion = CurrentSchemaVersion,
      CreatedAt = now, Metadata = m\<rparr>"

text \<open>The event a reaction publishes, with its fresh identifier and time.\<close>

fun reaction_event :: "string \<Rightarrow> int \<Rightarrow> saga \<Rightarrow> reaction \<Rightarrow> event" where
  "reaction_event eid now s (Proceed st tid) =
     outgoing eid now (saga_OrderID s) (command_type st) (Current s) st tid fmempty"
| "reaction_event eid now s Redo =
     outgoing eid now (saga_OrderID s) (command_type (Current s)) (Previous s) (Current s)
       (saga_TransactionID s) fmempty"
| "reaction_event eid now s Compensate =
     outgoing eid now (saga_OrderID s) EventPaymentCompensate (Current s)
       StatusPaymentRefundPending (saga_TransactionID s) fmempty"
| "reaction_event eid now s (Abort m) =
     outgoing eid now (saga_OrderID s) EventOrderFailed (Current s) StatusFailed '''' m"
| "reaction_event eid now s (Finish m) =
     outgoing eid now (saga_OrderID s) EventOrderCompleted StatusNotified StatusCompleted '''' m"

section \<open>The handler as a function on the abstract store\<close>

definition journal_entry :: "saga \<Rightarrow> event \<Rightarrow> direction \<Rightarrow> order_status \<Rightarrow> event_log_entry" where
  "journal_entry s e dir before =
     \<lparr>le_OrderID = saga_OrderID s, le_SagaID = saga_OrderID s, le_EventID = EventID e,
      le_EventType = EventType e, le_Component = orchestrator_component, le_Direction = dir,
      le_StatusAnterior = before, le_StatusAtual = StatusAtual e, le_Payload = AnyEvent e,
      le_RequestPayload = AnyNil, le_ResponsePayload = AnyNil\<rparr>"

text \<open>
  The journal line of the outgoing event carries the stage the saga came from; a retry keeps
  the stage, and so the line repeats the one before it.
\<close>

fun came_from :: "saga \<Rightarrow> reaction \<Rightarrow> order_status" where
  "came_from s Redo = Previous s"
| "came_from s _ = Current s"

definition emit :: "string \<Rightarrow> int \<Rightarrow> saga \<Rightarrow> reaction \<Rightarrow> abs_db \<Rightarrow> abs_db" where
  "emit eid now s r d =
     (let out = reaction_event eid now s r in
      abs_publish out
        (abs_append (journal_entry s out DirectionOut (came_from s r))
          (abs_save (next_saga r s) d)))"

definition apply_reaction :: "string \<Rightarrow> int \<Rightarrow> event \<Rightarrow> saga \<Rightarrow> reaction \<Rightarrow> abs_db \<Rightarrow> abs_db" where
  "apply_reaction eid now e s r d =
     emit eid now s r (abs_append (journal_entry s e DirectionIn (Previous s)) d)"

definition new_saga :: "string \<Rightarrow> saga" where
  "new_saga oid = \<lparr>saga_OrderID = oid, Previous = StatusPending, Current = StatusPaymentPending,
     RetryCount = 0, saga_TransactionID = ''''\<rparr>"

definition start_event :: "event \<Rightarrow> event" where
  "start_event e = e\<lparr>EventType := EventOrderCreated, StatusAtual := StatusPending\<rparr>"

definition apply_start :: "string \<Rightarrow> int \<Rightarrow> event \<Rightarrow> abs_db \<Rightarrow> abs_db" where
  "apply_start eid now e d =
     (let s = new_saga (OrderID e);
          out = outgoing eid now (OrderID e) EventPaymentCommand NoStatus StatusPaymentPending ''''
            fmempty;
          entry = (journal_entry s e DirectionIn NoStatus)\<lparr>le_StatusAtual := StatusPending\<rparr> in
      abs_publish out
        (abs_append (journal_entry s out DirectionOut StatusPending)
          (abs_save s (abs_append entry d))))"

datatype verdict = Skip | Reject | Accept abs_db

definition result_types :: "event_type set" where
  "result_types = {EventPaymentResult, EventPaymentCompensateResult, EventInventoryResult,
     EventNotificationResult}"

definition orch_spec :: "int \<Rightarrow> string \<Rightarrow> int \<Rightarrow> event \<Rightarrow> abs_db \<Rightarrow> verdict" where
  "orch_spec maxR eid now e d =
     (if EventType e = EventOrderCreated then
        (if abs_has (EventID e) orchestrator_component d then Skip
         else case a_sagas d (OrderID e) of
             Some _ \<Rightarrow> Reject
           | None \<Rightarrow> Accept (apply_start eid now e d))
      else if EventType e \<notin> result_types then Skip
      else case a_sagas d (OrderID e) of
          None \<Rightarrow> Reject
        | Some s \<Rightarrow>
            if abs_has (EventID e) orchestrator_component d then Skip
            else case react maxR s e of
                None \<Rightarrow> Reject
              | Some r \<Rightarrow> Accept (apply_reaction eid now e s r d))"

section \<open>The code implements the specification\<close>

text \<open>How a step that must end in one store ends: there, or in a transient failure.\<close>

definition ends_in ::
  "('a env_scheme \<Rightarrow> abs_db) \<Rightarrow> ('a env_scheme \<Rightarrow> bool) \<Rightarrow> 'a env_scheme \<Rightarrow>
     ('a env_scheme, go_error, unit) io \<Rightarrow> abs_db \<Rightarrow> bool" where
  "ends_in view healthy w m d \<longleftrightarrow>
     wpM m
       (\<lambda>_ v. view v = d \<and> entropy v = entropy w \<and> clock v = clock w \<and>
          drawn v = Suc (drawn w) \<and> ticks v = Suc (ticks w) \<and> (healthy w \<longrightarrow> healthy v))
       (\<lambda>e v. transient e \<and> \<not> healthy w \<and> entropy v = entropy w \<and> clock v = clock w \<and>
          drawn w \<le> drawn v \<and> ticks w \<le> ticks v) w"

lemma terminalEvent_eq:
  "terminalEvent oid before after t m =
     tryM NewEventID (\<lambda>eid. tryM time_Now (\<lambda>now.
       returnM (outgoing eid now oid t before after '''' m)))"
  by (simp add: terminalEvent_def outgoing_def)

lemma nextCommand_type: "nextCommand st = Inr (st', t) \<Longrightarrow> t = command_type st"
  by (auto simp: nextCommand_def split: order_status.splits)

lemma outgoing_simps [simp]:
  "EventID (outgoing eid now oid t before after tid m) = eid"
  "EventType (outgoing eid now oid t before after tid m) = t"
  "StatusAtual (outgoing eid now oid t before after tid m) = after"
  "OrderID (outgoing eid now oid t before after tid m) = oid"
  by (simp_all add: outgoing_def)

lemma journal_entry_upd [simp]:
  "journal_entry (s\<lparr>Previous := a\<rparr>) = journal_entry s"
  "journal_entry (s\<lparr>Current := a\<rparr>) = journal_entry s"
  "journal_entry (s\<lparr>RetryCount := n\<rparr>) = journal_entry s"
  "journal_entry (s\<lparr>saga_TransactionID := t\<rparr>) = journal_entry s"
  by (intro ext; simp add: journal_entry_def)+

lemma dispatchNext_eq:
  assumes "nextCommand (Current s) = Inr (st, t)"
    and "s' = (if st \<noteq> Current s then s\<lparr>Previous := Current s, Current := st\<rparr> else s)"
  shows "dispatchNext tx s =
    tryM NewEventID (\<lambda>eid. tryM time_Now (\<lambda>now.
      let out = outgoing eid now (saga_OrderID s) t (Previous s) st (saga_TransactionID s) fmempty in
      tryM (Sagas_Save tx s') (\<lambda>_.
      tryM (logEvent tx s' (EventID out) (EventType out) DirectionOut (StatusAtual out)
              (AnyEvent out) AnyNil AnyNil) (\<lambda>_.
      Publish tx out))))"
  unfolding dispatchNext_def assms by (simp add: outgoing_def Let_def)

context saga_tx_contract
begin

lemma logEvent_rule:
  assumes "\<And>v. view v = abs_append (journal_entry s e dir (Previous s)) (view w) \<Longrightarrow>
      same_env w v \<Longrightarrow> (healthy w \<longrightarrow> healthy v) \<Longrightarrow> Q () v"
    and "\<And>e v. same_env w v \<Longrightarrow> transient e \<Longrightarrow> \<not> healthy w \<Longrightarrow> E e v"
  shows "wpM (logEvent tx s (EventID e) (EventType e) dir (StatusAtual e) (AnyEvent e) AnyNil AnyNil)
    Q E w"
  unfolding logEvent_def log_present option.case
  by (rule append_rule) (auto intro: assms simp: journal_entry_def)

lemma alreadyProcessed_rule:
  assumes "\<And>v. view v = view w \<Longrightarrow> same_env w v \<Longrightarrow> (healthy w \<longrightarrow> healthy v) \<Longrightarrow>
      Q (abs_has eid orchestrator_component (view w)) v"
    and "\<And>e v. same_env w v \<Longrightarrow> transient e \<Longrightarrow> \<not> healthy w \<Longrightarrow> E e v"
  shows "wpM (alreadyProcessed tx eid) Q E w"
  unfolding alreadyProcessed_def log_present option.case wpM_wrapM
  by (rule has_rule) (auto intro: assms)

text \<open>The common tail of every step: save the saga, log the outgoing event, publish it.\<close>

lemma log_publish_rule:
  assumes "TopicForEventType (EventType out) = Some topic"
    and "\<And>v. view v = abs_publish out
        (abs_append (journal_entry s out DirectionOut (Previous s)) (view w)) \<Longrightarrow>
      same_env w v \<Longrightarrow> (healthy w \<longrightarrow> healthy v) \<Longrightarrow> Q () v"
    and "\<And>e v. same_env w v \<Longrightarrow> transient e \<Longrightarrow> \<not> healthy w \<Longrightarrow> E e v"
  shows "wpM (tryM (logEvent tx s (EventID out) (EventType out) DirectionOut (StatusAtual out)
      (AnyEvent out) AnyNil AnyNil) (\<lambda>_. Publish tx out)) Q E w"
  unfolding wpM_tryM
proof (rule logEvent_rule)
  fix v assume v: "view v = abs_append (journal_entry s out DirectionOut (Previous s)) (view w)"
    "same_env w v" "healthy w \<longrightarrow> healthy v"
  show "wpM (Publish tx out) Q E v"
    using assms(1) by (rule publish_rule) (use v assms(2,3) in \<open>auto intro: same_env_trans\<close>)
qed (use assms(3) in auto)

lemma dispatchNext_ends:
  assumes "nextCommand (Current s) = Inr (st, t)" and "TopicForEventType t = Some topic"
    and "out = outgoing (event_id_at (entropy w) (drawn w)) (clock w (ticks w)) (saga_OrderID s) t
       (Previous s) st (saga_TransactionID s) fmempty"
    and s': "s' = (if st \<noteq> Current s then s\<lparr>Previous := Current s, Current := st\<rparr> else s)"
  shows "ends_in view healthy w (dispatchNext tx s)
    (abs_publish out (abs_append (journal_entry s' out DirectionOut (Previous s'))
      (abs_save s' (view w))))"
  unfolding ends_in_def dispatchNext_eq [OF assms(1) s'] wpM_stamp Let_def assms(3) [symmetric]
    wpM_tryM [of "Sagas_Save tx s'"]
proof (rule save_rule, goal_cases)
  case (1 v)
  have "TopicForEventType (EventType out) = Some topic"
    using assms(2,3) by simp
  then show ?case
    by (rule log_publish_rule) (use 1 in \<open>auto simp: env_simps same_env_def\<close>)
qed (auto simp: env_simps same_env_def)

lemma save_then_ends:
  assumes "\<And>v. view v = abs_save s (view w) \<Longrightarrow> same_env w v \<Longrightarrow> ends_in view healthy v m d"
  shows "ends_in view healthy w (tryM (Sagas_Save tx s) (\<lambda>_. m)) d"
  unfolding ends_in_def wpM_tryM
proof (rule save_rule, goal_cases)
  case (1 v)
  then have "ends_in view healthy v m d"
    by (intro assms)
  with 1(2,3) show ?case
    unfolding ends_in_def by (elim wpM_conseq) (auto simp: same_env_def)
qed (auto simp: same_env_def)

text \<open>\<open>now_event\<close> is the event a reaction publishes in a given world.\<close>

abbreviation emit_at :: "'a env_scheme \<Rightarrow> saga \<Rightarrow> reaction \<Rightarrow> abs_db \<Rightarrow> abs_db" where
  "emit_at w \<equiv> emit (event_id_at (entropy w) (drawn w)) (clock w (ticks w))"

lemma emit_at_same_env: "same_env w v \<Longrightarrow> emit_at v = emit_at w"
  by (simp add: same_env_def)

lemma fail_saga_ends:
  assumes "canTransitionTo (Current s) StatusFailed"
  shows "ends_in view healthy w (fail_saga tx s m) (emit_at w s (Abort m) (view w))"
proof -
  let ?s = "next_saga (Abort m) s"
  have eq: "fail_saga tx s m = tryM (Sagas_Save tx ?s) (\<lambda>_.
      tryM NewEventID (\<lambda>eid. tryM time_Now (\<lambda>now.
        let out = reaction_event eid now s (Abort m) in
        tryM (logEvent tx ?s (EventID out) (EventType out) DirectionOut (StatusAtual out)
          (AnyEvent out) AnyNil AnyNil) (\<lambda>_. Publish tx out))))"
    using assms by (simp add: fail_saga_def terminalEvent_eq tryM_assoc Let_def)
  show ?thesis
    unfolding eq
  proof (rule save_then_ends)
    fix v assume v: "view v = abs_save ?s (view w)" "same_env w v"
    show "ends_in view healthy v (tryM NewEventID (\<lambda>eid. tryM time_Now (\<lambda>now.
        let out = reaction_event eid now s (Abort m) in
        tryM (logEvent tx ?s (EventID out) (EventType out) DirectionOut (StatusAtual out)
          (AnyEvent out) AnyNil AnyNil) (\<lambda>_. Publish tx out))))
        (emit_at w s (Abort m) (view w))"
      unfolding ends_in_def wpM_stamp Let_def
      by (rule log_publish_rule [where topic = TopicOrderStatus])
        (use v in \<open>auto simp: env_simps same_env_def emit_def Let_def\<close>)
  qed
qed

lemma complete_ends:
  assumes "canTransitionTo (Current s) StatusNotified"
  shows "ends_in view healthy w (complete tx s m) (emit_at w s (Finish m) (view w))"
proof -
  let ?s1 = "s\<lparr>Previous := Current s, Current := StatusNotified, RetryCount := 0\<rparr>"
  let ?s = "next_saga (Finish m) s"
  let ?rest = "tryM NewEventID (\<lambda>eid. tryM time_Now (\<lambda>now.
        let out = reaction_event eid now s (Finish m) in
        tryM (tryM (logEvent tx ?s1 (EventID out) (EventType out) DirectionOut (StatusAtual out)
          (AnyEvent out) AnyNil AnyNil) (\<lambda>_. Publish tx out))
          (\<lambda>_. tryM (Sagas_Save tx ?s) (\<lambda>_. returnM ()))))"
  have eq: "complete tx s m = tryM (Sagas_Save tx ?s1) (\<lambda>_. ?rest)"
    using assms by (cases s) (simp add: complete_def terminalEvent_eq tryM_assoc Let_def)
  show ?thesis
    unfolding eq
  proof (rule save_then_ends)
    fix v assume v: "view v = abs_save ?s1 (view w)" "same_env w v"
    show "ends_in view healthy v ?rest (emit_at w s (Finish m) (view w))"
      unfolding ends_in_def wpM_stamp Let_def wpM_tryM [of _ "\<lambda>_. tryM (Sagas_Save tx ?s) _"]
    proof (rule log_publish_rule [where topic = TopicOrderStatus], goal_cases)
      case (2 u)
      show ?case
        unfolding wpM_tryM wpM_returnM
        by (rule save_rule)
          (use 2 v in \<open>auto simp: env_simps same_env_def emit_def Let_def abs_commute\<close>)
    qed (use v in \<open>auto simp: same_env_def env_simps\<close>)
  qed
qed

text \<open>Saving the saga of the next stage and dispatching the command of that stage.\<close>

lemma save_dispatch_ends:
  assumes "next_saga r s = s'" and "nextCommand (Current s') = Inr (Current s', t)"
    and "TopicForEventType t = Some topic" and "came_from s r = Previous s'"
    and "reaction_event eid now s r = outgoing eid now (saga_OrderID s) t (Previous s') (Current s')
       (saga_TransactionID s') fmempty"
    and "saga_OrderID s' = saga_OrderID s" and "journal_entry s' = journal_entry s"
    and eid: "eid = event_id_at (entropy w) (drawn w)" and now: "now = clock w (ticks w)"
  shows "ends_in view healthy w (tryM (Sagas_Save tx s') (\<lambda>_. dispatchNext tx s'))
    (emit_at w s r (view w))"
proof (rule save_then_ends)
  fix v assume v: "view v = abs_save s' (view w)" "same_env w v"
  have "ends_in view healthy v (dispatchNext tx s')
    (abs_publish (reaction_event eid now s r)
      (abs_append (journal_entry s' (reaction_event eid now s r) DirectionOut (Previous s'))
        (abs_save s' (view v))))"
    by (rule dispatchNext_ends [OF assms(2,3)])
      (use v(2) assms(5) in \<open>auto simp: assms(6) eid now same_env_def\<close>)
  then show "ends_in view healthy v (dispatchNext tx s') (emit_at w s r (view w))"
    by (simp add: v(1) emit_def Let_def assms(1,4,7) flip: eid now)
qed

lemma startCompensation_ends:
  assumes "Current s = StatusPaymentApproved"
  shows "ends_in view healthy w (startCompensation tx s) (emit_at w s Compensate (view w))"
proof -
  have "startCompensation tx s = tryM (Sagas_Save tx (next_saga Compensate s))
      (\<lambda>_. dispatchNext tx (next_saga Compensate s))"
    using assms by (simp add: startCompensation_def Let_def)
  then show ?thesis
    using assms by (auto intro!: save_dispatch_ends simp: nextCommand_def)
qed

lemma advance_ends:
  assumes "canTransitionTo (Current s) (StatusAtual e)"
    and "StatusAtual e = StatusPaymentApproved \<or> StatusAtual e = StatusInventoryReserved"
    and "tid = (if EventType e = EventPaymentResult then TransactionID e else saga_TransactionID s)"
  shows "ends_in view healthy w (advance tx s e) (emit_at w s (Proceed (StatusAtual e) tid) (view w))"
proof -
  have "advance tx s e = tryM (Sagas_Save tx (next_saga (Proceed (StatusAtual e) tid) s))
      (\<lambda>_. dispatchNext tx (next_saga (Proceed (StatusAtual e) tid) s))"
    using assms by (cases s) (simp add: advance_def Let_def)
  then show ?thesis
    using assms(2) by (auto intro!: save_dispatch_ends simp: nextCommand_def)
qed

text \<open>The counter has been incremented and saved before the limit is looked at.\<close>

lemma emit_incremented:
  assumes "s' = s\<lparr>RetryCount := RetryCount s + 1\<rparr>" and "(\<exists>m. r = Abort m) \<or> (\<exists>m. r = Finish m)"
  shows "emit eid now s' r (abs_save s' d) = emit eid now s r d"
proof -
  have "next_saga r s' = next_saga r s"
    using assms by (cases s) auto
  moreover have "saga_OrderID (next_saga r s) = saga_OrderID s'"
    using assms by auto
  moreover have "reaction_event eid now s' r = reaction_event eid now s r"
      "came_from s' r = came_from s r"
    using assms by auto
  ultimately show ?thesis
    using assms(1) by (simp add: emit_def Let_def)
qed

lemma retry_giveup_ends:
  assumes "\<And>v. ends_in view healthy v m (emit_at v s' r (view v))"
    and "s' = s\<lparr>RetryCount := RetryCount s + 1\<rparr>" and "(\<exists>m. r = Abort m) \<or> (\<exists>m. r = Finish m)"
  shows "ends_in view healthy w (tryM (Sagas_Save tx s') (\<lambda>_. m)) (emit_at w s r (view w))"
proof (rule save_then_ends)
  fix v assume v: "view v = abs_save s' (view w)" "same_env w v"
  then show "ends_in view healthy v m (emit_at w s r (view w))"
    using assms(1) [of v] emit_incremented [OF assms(2,3)]
    by (simp add: emit_at_same_env)
qed

lemma retry_ends:
  assumes "Current s \<in> {StatusPaymentPending, StatusPaymentApproved, StatusInventoryReserved,
      StatusPaymentRefundPending}"
    and "giveup = (if Current s = StatusInventoryReserved then
        Finish (fmupd ''motivo'' ''retry_limit_exceeded''
          (fmupd ''notification_error'' ''true'' fmempty))
      else if Current s = StatusPaymentRefundPending then
        Abort (refund_outcome ''payment_refund_failed'' (saga_TransactionID s) motivo_retry)
      else Abort motivo_retry)"
  shows "ends_in view healthy w (retry maxR tx s) (emit_at w s (retry_or maxR s giveup) (view w))"
proof (cases "RetryCount s < maxR")
  case True
  then have "retry maxR tx s = tryM (Sagas_Save tx (next_saga Redo s))
      (\<lambda>_. dispatchNext tx (next_saga Redo s))"
    by (simp add: retry_def Let_def)
  with True assms(1) show ?thesis
    by (auto intro!: save_dispatch_ends simp: nextCommand_def retry_or_def)
next
  case False
  let ?s = "s\<lparr>RetryCount := RetryCount s + 1\<rparr>"
  have "retry maxR tx s = tryM (Sagas_Save tx ?s) (\<lambda>_.
      case giveup of Finish m \<Rightarrow> complete tx ?s m | Abort m \<Rightarrow> fail_saga tx ?s m
      | _ \<Rightarrow> dispatchNext tx ?s)"
    using False assms
    by (auto simp: retry_def Let_def motivo_retry_def refund_outcome_def)
  then show ?thesis
    using False assms
    by (auto simp: retry_or_def intro!: retry_giveup_ends fail_saga_ends complete_ends)
qed

end

end
