(* ===== verification/SagaLife.thy ===== *)
theory SagaLife
  imports OrchestratorSpec
begin

text \<open>
  The life of the sagas under any sequence of events: the states the specification
  \<open>orch_spec\<close> reaches from an empty store, with the identifiers that have been used, and the
  invariants of those states. Events are arbitrary: duplicated, late, out of order, forged; and
  between two of them other processes may write to the same store (\<open>foreign\<close>).
\<close>

section \<open>Reachable stores\<close>

definition empty_db :: abs_db where
  "empty_db = \<lparr>a_sagas = (\<lambda>_. None), a_log = [], a_out = []\<rparr>"

text \<open>The topics the orchestrator publishes to: the commands and the outcomes.\<close>

definition orchestrator_out_topics :: "string set" where
  "orchestrator_out_topics = {TopicPaymentCommand, TopicInventoryCommand, TopicNotificationCommand,
     TopicOrderStatus}"

text \<open>
  What the other processes on the database may do: journal lines of their own and messages on
  other topics, under identifiers of their own. The workers are such processes (theory System).
\<close>

definition foreign :: "string set \<Rightarrow> abs_db \<Rightarrow> abs_db \<Rightarrow> bool" where
  "foreign ids d d' \<longleftrightarrow> a_sagas d' = a_sagas d \<and>
     (\<exists>rows. a_log d' = a_log d @ rows \<and> (\<forall>r \<in> set rows. jr_Component r \<noteq> orchestrator_component)) \<and>
     (\<exists>ms. a_out d' = a_out d @ ms \<and> msg_EventID ` set ms \<subseteq> ids \<and> distinct (map msg_EventID ms) \<and>
        (\<forall>m \<in> set ms. msg_Topic m \<notin> orchestrator_out_topics))"

lemma foreign_refl [simp]: "foreign ids d d"
  by (simp add: foreign_def)

inductive spec_run :: "int \<Rightarrow> string set \<Rightarrow> abs_db \<Rightarrow> bool" for maxR where
  spec_init: "spec_run maxR {} empty_db"
| spec_step: "spec_run maxR used d \<Longrightarrow> eid \<notin> used \<Longrightarrow>
    orch_spec maxR eid now e d = Accept d' \<Longrightarrow> spec_run maxR (insert eid used) d'"
| spec_other: "spec_run maxR used d \<Longrightarrow> ids \<inter> used = {} \<Longrightarrow> foreign ids d d' \<Longrightarrow>
    spec_run maxR (ids \<union> used) d'"

section \<open>What an accepted event does to one store\<close>

definition in_row :: "string \<Rightarrow> journal_row \<Rightarrow> bool" where
  "in_row oid r \<longleftrightarrow> jr_OrderID r = oid \<and> jr_Component r = orchestrator_component \<and>
     jr_Direction r = DirectionIn"

text \<open>The events of an order the orchestrator has taken in, and the messages it has sent.\<close>


definition accepted :: "string \<Rightarrow> abs_db \<Rightarrow> journal_row list" where
  "accepted oid d = filter (in_row oid) (a_log d)"

definition sent :: "string \<Rightarrow> abs_db \<Rightarrow> message list" where
  "sent oid d = filter (\<lambda>m. msg_Key m = oid \<and> msg_Topic m \<in> orchestrator_out_topics) (a_out d)"

definition outcomes :: "string \<Rightarrow> abs_db \<Rightarrow> message list" where
  "outcomes oid d = filter (\<lambda>m. msg_Topic m = TopicOrderStatus) (sent oid d)"

text \<open>A change of the store by one event of order \<open>oid\<close>: one saga, one line in, one message.\<close>

definition one_step :: "string \<Rightarrow> string \<Rightarrow> saga \<Rightarrow> event \<Rightarrow> abs_db \<Rightarrow> abs_db \<Rightarrow> bool" where
  "one_step eid oid s out d d' \<longleftrightarrow>
     a_sagas d' = (a_sagas d)(oid \<mapsto> s) \<and> saga_OrderID s = oid \<and>
     OrderID out = oid \<and> EventID out = eid \<and> a_out d' = a_out d @ [message_of out] \<and>
     (\<forall>p. length (accepted p d') = length (accepted p d) + (if p = oid then 1 else 0))"

lemma accepted_simps [simp]:
  "accepted p (abs_publish ev d) = accepted p d"
  "accepted p (abs_save s d) = accepted p d"
  by (simp_all add: accepted_def)

lemma accepted_out [simp]:
  "le_Direction entry \<noteq> DirectionIn \<Longrightarrow> accepted p (abs_append entry d) = accepted p d"
  by (simp add: accepted_def abs_append_def in_row_def journal_row_of_def)

lemma accepted_in:
  assumes "\<not> abs_has (le_EventID entry) orchestrator_component d"
    and "le_Component entry = orchestrator_component" and "le_Direction entry = DirectionIn"
  shows "length (accepted p (abs_append entry d)) =
    length (accepted p d) + (if p = le_OrderID entry then 1 else 0)"
proof -
  have "journal_key (journal_row_of entry) \<notin> journal_key ` set (a_log d)"
    using assms by (auto simp: abs_has_def list_ex_iff journal_key_def journal_row_of_def)
  then show ?thesis
    using assms by (auto simp: accepted_def abs_append_def in_row_def journal_row_of_def)
qed

lemma abs_publish_fresh:
  "EventID ev \<notin> msg_EventID ` set (a_out d) \<Longrightarrow> a_out (abs_publish ev d) = a_out d @ [message_of ev]"
  by (simp add: abs_publish_def)

lemma reaction_event_id [simp]: "EventID (reaction_event eid now s r) = eid"
  by (cases r) auto

lemma reaction_event_order [simp]: "OrderID (reaction_event eid now s r) = saga_OrderID s"
  by (cases r) auto

lemma next_saga_order [simp]: "saga_OrderID (next_saga r s) = saga_OrderID s"
  by (cases r) auto

lemma reaction_one_step:
  assumes "eid \<notin> msg_EventID ` set (a_out d)" and "\<not> abs_has (EventID e) orchestrator_component d"
  shows "one_step eid (saga_OrderID s) (next_saga r s) (reaction_event eid now s r) d
    (apply_reaction eid now e s r d)"
  unfolding one_step_def apply_reaction_def emit_def Let_def
  using assms by (auto simp: abs_publish_fresh accepted_in journal_entry_def)

lemma start_one_step:
  assumes "eid \<notin> msg_EventID ` set (a_out d)" and "\<not> abs_has (EventID e) orchestrator_component d"
  shows "one_step eid (OrderID e) (new_saga (OrderID e))
    (outgoing eid now (OrderID e) EventPaymentCommand NoStatus StatusPaymentPending '''' fmempty) d
    (apply_start eid now e d)"
  unfolding one_step_def apply_start_def Let_def
  using assms by (auto simp: abs_publish_fresh accepted_in journal_entry_def new_saga_def)

text \<open>Every saga is stored under its own order.\<close>

definition keyed :: "abs_db \<Rightarrow> bool" where
  "keyed d \<longleftrightarrow> (\<forall>oid s. a_sagas d oid = Some s \<longrightarrow> saga_OrderID s = oid)"

definition start_command :: "string \<Rightarrow> int \<Rightarrow> string \<Rightarrow> event" where
  "start_command eid now oid =
     outgoing eid now oid EventPaymentCommand NoStatus StatusPaymentPending '''' fmempty"

text \<open>The accepted events, in one rule: a new order, or a reaction of the saga of the order.\<close>

lemma accept_cases:
  assumes "orch_spec maxR eid now e d = Accept d'" and "keyed d"
    and "eid \<notin> msg_EventID ` set (a_out d)"
  obtains (start) "EventType e = EventOrderCreated" "a_sagas d (OrderID e) = None"
      "one_step eid (OrderID e) (new_saga (OrderID e)) (start_command eid now (OrderID e)) d d'"
    | (react) s r where "a_sagas d (OrderID e) = Some s" "react maxR s e = Some r"
      "one_step eid (OrderID e) (next_saga r s) (reaction_event eid now s r) d d'"
proof -
  have fresh: "\<not> abs_has (EventID e) orchestrator_component d"
    using assms(1) by (auto simp: orch_spec_def split: if_splits option.splits)
  consider "EventType e = EventOrderCreated" "a_sagas d (OrderID e) = None"
      "d' = apply_start eid now e d"
    | s r where "a_sagas d (OrderID e) = Some s" "react maxR s e = Some r"
      "d' = apply_reaction eid now e s r d"
    using assms(1) by (auto simp: orch_spec_def split: if_splits option.splits)
  then show thesis
  proof cases
    case 1
    then show thesis
      using start start_one_step [OF assms(3) fresh] by (simp add: start_command_def)
  next
    case 2
    then have "saga_OrderID s = OrderID e"
      using assms(2) by (simp add: keyed_def)
    with 2 show thesis
      using react reaction_one_step [OF assms(3) fresh, where now = now and s = s and r = r] by simp
  qed
qed

section \<open>The invariant of a saga\<close>

definition live_status :: "order_status \<Rightarrow> bool" where
  "live_status st \<longleftrightarrow> st \<in> {StatusPaymentPending, StatusPaymentApproved, StatusInventoryReserved,
     StatusPaymentRefundPending}"

text \<open>
  A saga at rest is in one of the four waiting stages or finished, which it entered by a
  transition of the table from its previous state; its retry counter is within
  the limit; a refund is pending only for a payment that has a transaction; and a payment that
  is still pending has none.
\<close>

definition saga_ok :: "int \<Rightarrow> saga \<Rightarrow> bool" where
  "saga_ok maxR s \<longleftrightarrow>
     (live_status (Current s) \<or> terminal_status (Current s)) \<and>
     canTransitionTo (Previous s) (Current s) \<and>
     0 \<le> RetryCount s \<and> RetryCount s \<le> max 0 maxR \<and>
     (Current s = StatusPaymentRefundPending \<longrightarrow> saga_TransactionID s \<noteq> '''') \<and>
     (Current s = StatusPaymentPending \<longrightarrow> saga_TransactionID s = '''') \<and>
     (terminal_status (Current s) \<longrightarrow> RetryCount s = 0)"

lemma new_saga_ok: "saga_ok maxR (new_saga oid)"
  by (simp add: saga_ok_def new_saga_def live_status_def)

lemma react_live: "react maxR s e = Some r \<Longrightarrow> live_status (Current s)"
  by (auto simp: react_def live_status_def split: if_splits)

text \<open>The reactions one by one: the stage they leave, and what they need.\<close>

lemma react_Some_cases:
  assumes "react maxR s e = Some r"
  obtains
    (approve) tid where "Current s = StatusPaymentPending" "r = Proceed StatusPaymentApproved tid"
  | (reserve) "Current s = StatusPaymentApproved"
      "r = Proceed StatusInventoryReserved (saga_TransactionID s)"
  | (redo) "RetryCount s < maxR" "r = Redo"
  | (compensate) "Current s = StatusPaymentApproved" "saga_TransactionID s \<noteq> ''''" "r = Compensate"
  | (abort) m where "Current s \<noteq> StatusInventoryReserved" "r = Abort m"
  | (finish) m where "Current s = StatusInventoryReserved" "r = Finish m"
proof -
  from assms consider
      "Current s = StatusPaymentPending" "react_payment maxR s e = Some r"
    | "Current s = StatusPaymentApproved" "react_inventory maxR s e = Some r"
    | "Current s = StatusInventoryReserved" "react_notification maxR s e = Some r"
    | "Current s = StatusPaymentRefundPending" "react_refund maxR s e = Some r"
    by (auto simp: react_def split: if_splits)
  then show thesis
  proof cases
    case 1
    then show thesis
      using approve redo abort
      by (auto simp: react_payment_def retry_or_def split: order_status.splits if_splits)
  next
    case 2
    then show thesis
      using reserve redo abort compensate
      by (auto simp: react_inventory_def retry_or_def split: order_status.splits if_splits)
  next
    case 3
    then show thesis
      using redo finish
      by (auto simp: react_notification_def retry_or_def split: order_status.splits if_splits)
  next
    case 4
    then show thesis
      using redo abort
      by (auto simp: react_refund_def retry_or_def split: order_status.splits if_splits)
  qed
qed

lemma next_saga_ok:
  assumes "saga_ok maxR s" and "react maxR s e = Some r"
  shows "saga_ok maxR (next_saga r s)"
  using assms(2)
proof (cases rule: react_Some_cases)
  case redo
  with assms show ?thesis
    using react_live [OF assms(2)] by (auto simp: saga_ok_def live_status_def terminal_status_def)
next
  case (abort m)
  then show ?thesis
    using react_live [OF assms(2)] by (auto simp: saga_ok_def live_status_def terminal_status_def)
qed (use assms(1) in \<open>auto simp: saga_ok_def live_status_def terminal_status_def\<close>)

section \<open>Progress\<close>

text \<open>The results a saga can still take: one per stage ahead, and the retries of each.\<close>

fun stages_ahead :: "order_status \<Rightarrow> int" where
  "stages_ahead StatusPaymentPending = 3"
| "stages_ahead StatusPaymentApproved = 2"
| "stages_ahead StatusInventoryReserved = 1"
| "stages_ahead StatusPaymentRefundPending = 1"
| "stages_ahead _ = 0"

definition budget :: "int \<Rightarrow> saga \<Rightarrow> int" where
  "budget maxR s = stages_ahead (Current s) * (max 0 maxR + 1) - RetryCount s"

lemma stages_ahead_terminal: "terminal_status st \<Longrightarrow> stages_ahead st = 0"
  by (auto simp: terminal_status_def)

lemma budget_nonneg: "saga_ok maxR s \<Longrightarrow> 0 \<le> budget maxR s"
  by (auto simp: saga_ok_def budget_def live_status_def terminal_status_def)

lemma budget_decreases:
  assumes "saga_ok maxR s" and "react maxR s e = Some r"
  shows "budget maxR (next_saga r s) < budget maxR s"
proof -
  have live: "live_status (Current s)"
    using assms(2) by (rule react_live)
  from assms(2) show ?thesis
  proof (cases rule: react_Some_cases)
    case redo
    then show ?thesis
      by (simp add: budget_def)
  next
    case (abort m)
    with assms(1) live show ?thesis
      by (auto simp: budget_def saga_ok_def live_status_def)
  qed (use assms(1) in \<open>auto simp: budget_def saga_ok_def\<close>)
qed

section \<open>The invariant of the run\<close>

text \<open>The message that tells the world of the saga's stage: its command, or the outcome.\<close>

definition announced_by :: "saga \<Rightarrow> event \<Rightarrow> bool" where
  "announced_by s ev \<longleftrightarrow> OrderID ev = saga_OrderID s \<and> StatusAtual ev = Current s \<and>
     (if Current s = StatusCompleted then EventType ev = EventOrderCompleted
      else if Current s = StatusFailed then EventType ev = EventOrderFailed
      else EventType ev = command_type (Current s) \<and> TransactionID ev = saga_TransactionID s)"

definition result_limit :: "int \<Rightarrow> int" where
  "result_limit maxR = 3 * (max 0 maxR + 1)"

definition order_inv :: "int \<Rightarrow> string \<Rightarrow> abs_db \<Rightarrow> bool" where
  "order_inv maxR oid d \<longleftrightarrow>
     (case a_sagas d oid of
        None \<Rightarrow> accepted oid d = [] \<and> sent oid d = []
      | Some s \<Rightarrow> saga_ok maxR s \<and>
          length (sent oid d) = length (accepted oid d) \<and>
          int (length (accepted oid d)) + budget maxR s \<le> 1 + result_limit maxR \<and>
          length (outcomes oid d) = (if terminal_status (Current s) then 1 else 0) \<and>
          (\<exists>ms ev. sent oid d = ms @ [message_of ev] \<and> announced_by s ev))"

definition run_inv :: "int \<Rightarrow> string set \<Rightarrow> abs_db \<Rightarrow> bool" where
  "run_inv maxR used d \<longleftrightarrow> keyed d \<and> msg_EventID ` set (a_out d) \<subseteq> used \<and>
     distinct (map msg_EventID (a_out d)) \<and> (\<forall>oid. order_inv maxR oid d)"

lemma message_of_simps [simp]:
  "msg_EventID (message_of ev) = EventID ev" "msg_Key (message_of ev) = OrderID ev"
  by (simp_all add: message_of_def)

lemma msg_Topic_message_of:
  "TopicForEventType (EventType ev) = Some topic \<Longrightarrow> msg_Topic (message_of ev) = topic"
  by (simp add: message_of_def)

lemma one_step_sent:
  "one_step eid oid s out d d' \<Longrightarrow> msg_Topic (message_of out) \<in> orchestrator_out_topics \<Longrightarrow>
     sent p d' = (if p = oid then sent p d @ [message_of out] else sent p d)"
  by (simp add: one_step_def sent_def)

lemma one_step_other:
  assumes "one_step eid oid s out d d'" and "p \<noteq> oid"
    and "msg_Topic (message_of out) \<in> orchestrator_out_topics"
  shows "order_inv maxR p d' \<longleftrightarrow> order_inv maxR p d"
proof -
  have "length (accepted p d') = length (accepted p d)"
    using assms by (simp add: one_step_def)
  moreover have "sent p d' = sent p d" "a_sagas d' p = a_sagas d p"
    using assms one_step_sent [OF assms(1,3), of p] by (simp_all add: one_step_def)
  moreover have "outcomes p d' = outcomes p d"
    unfolding outcomes_def \<open>sent p d' = sent p d\<close> ..
  moreover have "accepted p d' = [] \<longleftrightarrow> accepted p d = []"
    unfolding length_0_conv [symmetric] \<open>length (accepted p d') = length (accepted p d)\<close> ..
  ultimately show ?thesis
    unfolding order_inv_def by (simp only:)
qed

text \<open>The outgoing event announces the new stage, and is an outcome exactly when it is final.\<close>

definition fits :: "saga \<Rightarrow> event \<Rightarrow> bool" where
  "fits s out \<longleftrightarrow> announced_by s out \<and> msg_Topic (message_of out) \<in> orchestrator_out_topics \<and>
     (msg_Topic (message_of out) = TopicOrderStatus \<longleftrightarrow> terminal_status (Current s))"

lemma reaction_fits:
  assumes "react maxR s e = Some r"
  shows "fits (next_saga r s) (reaction_event eid now s r)"
proof -
  have live: "live_status (Current s)"
    using assms by (rule react_live)
  from assms show ?thesis
    by (cases rule: react_Some_cases)
      (use live in \<open>auto simp: fits_def announced_by_def msg_Topic_message_of topic_defs
        live_status_def terminal_status_def outgoing_def orchestrator_out_topics_def\<close>)
qed

lemma start_fits: "fits (new_saga oid) (start_command eid now oid)"
  by (simp add: fits_def announced_by_def start_command_def new_saga_def outgoing_def
      msg_Topic_message_of topic_defs terminal_status_def orchestrator_out_topics_def)

lemma one_step_inv:
  assumes step: "one_step eid oid s' out d d'" and fits: "fits s' out"
    and old: "order_inv maxR oid d" "\<And>s. a_sagas d oid = Some s \<Longrightarrow> \<not> terminal_status (Current s)"
    and ok: "saga_ok maxR s'"
    and b: "case a_sagas d oid of None \<Rightarrow> budget maxR s' \<le> result_limit maxR
      | Some s \<Rightarrow> budget maxR s' < budget maxR s"
  shows "order_inv maxR oid d'"
proof -
  have saga: "a_sagas d' oid = Some s'" and sent: "sent oid d' = sent oid d @ [message_of out]"
    and acc: "length (accepted oid d') = Suc (length (accepted oid d))"
    using step fits one_step_sent [OF step, of oid] by (simp_all add: one_step_def fits_def)
  have "length (outcomes oid d) = 0"
    using old by (auto simp: order_inv_def outcomes_def split: option.splits)
  then have "length (outcomes oid d') = (if terminal_status (Current s') then 1 else 0)"
    using fits sent by (simp add: outcomes_def fits_def)
  moreover have "length (sent oid d') = length (accepted oid d')"
    using old(1) acc sent by (auto simp: order_inv_def split: option.splits)
  moreover have "int (length (accepted oid d')) + budget maxR s' \<le> 1 + result_limit maxR"
    using old(1) acc b by (auto simp: order_inv_def split: option.splits)
  ultimately show ?thesis
    unfolding order_inv_def saga option.case using ok fits sent by (auto simp: fits_def)
qed

lemma run_inv_step:
  assumes inv: "run_inv maxR used d" and "eid \<notin> used"
    and acc: "orch_spec maxR eid now e d = Accept d'"
  shows "run_inv maxR (insert eid used) d'"
proof -
  have fresh: "eid \<notin> msg_EventID ` set (a_out d)" and "keyed d"
    using inv assms(2) by (auto simp: run_inv_def)
  have "\<exists>s' out. one_step eid (OrderID e) s' out d d' \<and> fits s' out \<and> order_inv maxR (OrderID e) d'"
    using acc \<open>keyed d\<close> fresh
  proof (cases rule: accept_cases)
    case start
    have "order_inv maxR (OrderID e) d'"
      by (rule one_step_inv [OF start(3) start_fits _ _ new_saga_ok])
        (use inv start(2) in \<open>auto simp: run_inv_def budget_def new_saga_def result_limit_def\<close>)
    with start show ?thesis using start_fits by blast
  next
    case (react s r)
    have ok: "saga_ok maxR s"
      using inv react(1) by (auto simp: run_inv_def order_inv_def dest!: spec [of _ "OrderID e"])
    have "order_inv maxR (OrderID e) d'"
      by (rule one_step_inv [OF react(3) reaction_fits [OF react(2)] _ _ next_saga_ok [OF ok react(2)]])
        (use inv react react_live [OF react(2)] budget_decreases [OF ok react(2)] in
          \<open>auto simp: run_inv_def live_status_def terminal_status_def\<close>)
    with react show ?thesis using reaction_fits by blast
  qed
  then obtain s' out where step: "one_step eid (OrderID e) s' out d d'" and fits: "fits s' out"
    and new: "order_inv maxR (OrderID e) d'"
    by blast
  have "order_inv maxR p d'" for p
    using new inv fits one_step_other [OF step]
    by (cases "p = OrderID e") (auto simp: run_inv_def fits_def)
  then show ?thesis
    using step inv fresh by (auto simp: run_inv_def one_step_def keyed_def)
qed

lemma run_inv_init: "run_inv maxR {} empty_db"
  by (simp add: run_inv_def keyed_def empty_db_def order_inv_def accepted_def sent_def)

lemma foreign_inv: "foreign ids d d' \<Longrightarrow> order_inv maxR oid d' \<longleftrightarrow> order_inv maxR oid d"
proof -
  assume "foreign ids d d'"
  then have "accepted oid d' = accepted oid d" "sent oid d' = sent oid d" "a_sagas d' = a_sagas d"
    by (auto simp: foreign_def accepted_def sent_def in_row_def)
  then show ?thesis
    unfolding order_inv_def outcomes_def by (simp only:)
qed

lemma run_inv_other:
  assumes "run_inv maxR used d" and "ids \<inter> used = {}" and "foreign ids d d'"
  shows "run_inv maxR (ids \<union> used) d'"
proof -
  from assms(3) obtain ms where ms: "a_out d' = a_out d @ ms" "msg_EventID ` set ms \<subseteq> ids"
      "distinct (map msg_EventID ms)" and sagas: "a_sagas d' = a_sagas d"
    unfolding foreign_def by blast
  from assms(1) have old: "msg_EventID ` set (a_out d) \<subseteq> used" "distinct (map msg_EventID (a_out d))"
    by (simp_all add: run_inv_def)
  then have "msg_EventID ` set (a_out d) \<inter> msg_EventID ` set ms = {}"
    using ms(2) assms(2) by blast
  then have "distinct (map msg_EventID (a_out d'))" "msg_EventID ` set (a_out d') \<subseteq> ids \<union> used"
    using ms old by (auto simp: image_Un)
  then show ?thesis
    using assms(1) foreign_inv [OF assms(3)] sagas by (simp add: run_inv_def keyed_def)
qed

lemma spec_run_inv: "spec_run maxR used d \<Longrightarrow> run_inv maxR used d"
  by (induction rule: spec_run.induct) (auto intro: run_inv_init run_inv_step run_inv_other)

section \<open>Finished sagas\<close>

lemma react_terminal: "terminal_status (Current s) \<Longrightarrow> react maxR s e = None"
  by (auto simp: react_def terminal_status_def)

lemma spec_terminal_kept:
  assumes "orch_spec maxR eid now e d = Accept d'" and "keyed d"
    and "a_sagas d oid = Some s" and "terminal_status (Current s)"
  shows "a_sagas d' oid = Some s"
  using assms react_terminal [OF assms(4), of maxR e]
  by (auto simp: orch_spec_def apply_start_def apply_reaction_def emit_def Let_def new_saga_def keyed_def
      split: if_splits option.splits)

end
