(* ===== verification/Postgres.thy ===== *)
theory Postgres
  imports Ports
begin

text \<open>
  The write database: the three tables of \<open>migrations/\<close> and the SQL statements of
  \<open>internal/infrastructure/persistence/postgres\<close>, each as a function on the tables.

  Every statement is one call to the server. What the server and the network do with the
  \<open>n\<close>-th call is an input of the program: \<open>plan n\<close> carries it out, fails it, or carries it
  out and loses the answer, which the caller sees as a failure. \<open>db_clock n\<close> is the server's
  \<open>now()\<close> in that call (nanoseconds), \<open>row_locks n\<close> the outbox rows other sessions hold
  locked, and \<open>scan_rank n\<close> the order in which an \<open>UPDATE ... RETURNING\<close> yields its rows,
  which SQL leaves open. Column widths and the columns \<open>created_at\<close> and \<open>updated_at\<close> that only
  dashboards read are left out; transactions are serialised.
\<close>

section \<open>Tables\<close>

datatype fault = NoFault | Fails | LostAck

text \<open>Table \<open>sagas\<close>, keyed by \<open>order_id\<close>; \<open>transaction_id\<close> may be NULL.\<close>

record saga_row =
  sr_saga_id :: string
  sr_current_status :: order_status
  sr_previous_status :: order_status
  sr_retry_count :: int
  sr_transaction_id :: "string option"

record outbox_entry =
  oe_ID :: nat
  oe_EventID :: string
  oe_Topic :: string
  oe_Key :: string
  oe_Payload :: json
  oe_Traceparent :: string

text \<open>Table \<open>outbox\<close>: an entry (whose \<open>traceparent\<close> is never NULL) with its two times.\<close>

record outbox_row = outbox_entry +
  or_claimed_at :: "int option"
  or_published_at :: "int option"

text \<open>
  \<open>outbox_seq\<close> is the sequence behind the serial column \<open>id\<close>: an insertion takes a number even
  when it is then skipped or rolled back. \<open>traceparent\<close> is the trace header of the current
  context (\<open>extractTraceparent\<close>).
\<close>

record pgenv = env +
  sagas_table :: "string \<Rightarrow> saga_row option"
  saga_events_table :: "journal_row list"
  outbox_table :: "outbox_row list"
  outbox_seq :: nat
  traceparent :: string
  plan :: "nat \<Rightarrow> fault"
  calls :: nat
  db_clock :: "nat \<Rightarrow> int"
  row_locks :: "nat \<Rightarrow> nat list"
  scan_rank :: "nat \<Rightarrow> nat \<Rightarrow> nat"

text \<open>One statement: its number is taken, and the plan says what becomes of it.\<close>

definition statement ::
  "string \<Rightarrow> ('a pgenv_scheme \<Rightarrow> 'b \<times> 'a pgenv_scheme) \<Rightarrow> ('a pgenv_scheme, go_error, 'b) io" where
  "statement label f w =
     (let w1 = w\<lparr>calls := Suc (calls w)\<rparr>; err = Wrapf label (ErrText ''postgres'') in
      case plan w (calls w) of
        NoFault \<Rightarrow> (case f w1 of (x, v) \<Rightarrow> (Inr x, v))
      | Fails \<Rightarrow> (Inl err, w1)
      | LostAck \<Rightarrow> (Inl err, snd (f w1)))"

text \<open>The number of the call being carried out.\<close>

definition this_call :: "'a pgenv_scheme \<Rightarrow> nat" where
  "this_call w = calls w - 1"

definition db_now :: "'a pgenv_scheme \<Rightarrow> int" where
  "db_now w = db_clock w (this_call w)"

section \<open>SagaRepository\<close>

definition Save :: "saga \<Rightarrow> ('a pgenv_scheme, go_error, unit) io" where
  "Save s = statement ''erro ao salvar saga'' (\<lambda>w.
     ((), w\<lparr>sagas_table := (sagas_table w)(saga_OrderID s \<mapsto>
        (case sagas_table w (saga_OrderID s) of
           None \<Rightarrow> \<lparr>sr_saga_id = saga_OrderID s, sr_current_status = Current s,
             sr_previous_status = Previous s, sr_retry_count = RetryCount s,
             sr_transaction_id = Some (saga_TransactionID s)\<rparr>
         | Some r \<Rightarrow> r\<lparr>sr_current_status := Current s, sr_previous_status := Previous s,
             sr_retry_count := RetryCount s,
             sr_transaction_id := Some (saga_TransactionID s)\<rparr>))\<rparr>))"

definition coalesce :: "string option \<Rightarrow> string" where
  "coalesce v = (case v of None \<Rightarrow> '''' | Some s \<Rightarrow> s)"

definition saga_of_row :: "string \<Rightarrow> saga_row \<Rightarrow> saga" where
  "saga_of_row oid r =
     \<lparr>saga_OrderID = oid, Previous = sr_previous_status r, Current = sr_current_status r,
      RetryCount = sr_retry_count r, saga_TransactionID = coalesce (sr_transaction_id r)\<rparr>"

definition Load :: "string \<Rightarrow> ('a pgenv_scheme, go_error, saga) io" where
  "Load orderID =
     tryM (statement ''erro ao carregar saga'' (\<lambda>w. (sagas_table w orderID, w))) (\<lambda>row.
       case row of
         None \<Rightarrow> failM ErrSagaNotFound
       | Some r \<Rightarrow> returnM (saga_of_row orderID r))"

section \<open>EventLogRepository\<close>

definition journal_Append :: "event_log_entry \<Rightarrow> ('a pgenv_scheme, go_error, unit) io" where
  "journal_Append entry = statement ''erro ao gravar evento no journal'' (\<lambda>w.
     let row = journal_row_of entry in
     ((), if list_ex (\<lambda>r. jr_EventID r = jr_EventID row \<and> jr_Component r = jr_Component row \<and>
               jr_Direction r = jr_Direction row) (saga_events_table w)
          then w
          else w\<lparr>saga_events_table := saga_events_table w @ [row]\<rparr>))"

definition journal_Has :: "string \<Rightarrow> string \<Rightarrow> ('a pgenv_scheme, go_error, bool) io" where
  "journal_Has eventID who = statement ''erro ao verificar evento no journal'' (\<lambda>w.
     (list_ex (\<lambda>r. jr_EventID r = eventID \<and> jr_Component r = who) (saga_events_table w), w))"

section \<open>OutboxRepository\<close>

definition outbox_Append ::
  "string \<Rightarrow> string \<Rightarrow> string \<Rightarrow> json \<Rightarrow> string \<Rightarrow> ('a pgenv_scheme, go_error, unit) io" where
  "outbox_Append eventID topic key payload trace = statement ''erro ao gravar evento na outbox'' (\<lambda>w.
     let n = outbox_seq w; v = w\<lparr>outbox_seq := Suc n\<rparr> in
     ((), if list_ex (\<lambda>r. oe_EventID r = eventID) (outbox_table w) then v
          else v\<lparr>outbox_table := outbox_table w @
            [\<lparr>oe_ID = n, oe_EventID = eventID, oe_Topic = topic, oe_Key = key,
              oe_Payload = payload, oe_Traceparent = trace,
              or_claimed_at = None, or_published_at = None\<rparr>]\<rparr>))"

definition pending :: "outbox_row \<Rightarrow> bool" where
  "pending r \<longleftrightarrow> or_published_at r = None"

definition entry_of :: "outbox_row \<Rightarrow> outbox_entry" where
  "entry_of r = \<lparr>oe_ID = oe_ID r, oe_EventID = oe_EventID r, oe_Topic = oe_Topic r,
     oe_Key = oe_Key r, oe_Payload = oe_Payload r, oe_Traceparent = oe_Traceparent r\<rparr>"

definition FetchPending :: "nat \<Rightarrow> ('a pgenv_scheme, go_error, outbox_entry list) io" where
  "FetchPending limit = statement ''erro ao consultar outbox pendente'' (\<lambda>w.
     (map entry_of (take limit (sort_key oe_ID (filter pending (outbox_table w)))), w))"

text \<open>
  The row may be claimed: not published, and never claimed or claimed longer than
  \<open>claimTimeout\<close> ago; rows locked by another session are skipped.
\<close>

definition claimable :: "int \<Rightarrow> int \<Rightarrow> outbox_row \<Rightarrow> bool" where
  "claimable now timeout r \<longleftrightarrow> pending r \<and>
     (case or_claimed_at r of None \<Rightarrow> True | Some t \<Rightarrow> t < now - timeout)"

definition ClaimPending ::
  "nat \<Rightarrow> int \<Rightarrow> ('a pgenv_scheme, go_error, outbox_entry list) io" where
  "ClaimPending limit claimTimeout = statement ''erro ao reivindicar outbox pendente'' (\<lambda>w.
     let ids = map oe_ID (take limit (sort_key oe_ID (filter
           (\<lambda>r. claimable (db_now w) claimTimeout r \<and> oe_ID r \<notin> set (row_locks w (this_call w)))
           (outbox_table w))));
         table = map (\<lambda>r. if oe_ID r \<in> set ids then r\<lparr>or_claimed_at := Some (db_now w)\<rparr> else r)
           (outbox_table w);
         claimed = filter (\<lambda>r. oe_ID r \<in> set ids) table
     in (map entry_of (sort_key (\<lambda>r. scan_rank w (this_call w) (oe_ID r)) claimed),
         w\<lparr>outbox_table := table\<rparr>))"

definition CountPending :: "('a pgenv_scheme, go_error, nat) io" where
  "CountPending = statement ''erro ao contar outbox pendente'' (\<lambda>w.
     (length (filter pending (outbox_table w)), w))"

definition mark_published :: "nat list \<Rightarrow> int \<Rightarrow> outbox_row list \<Rightarrow> outbox_row list" where
  "mark_published ids now =
     map (\<lambda>r. if oe_ID r \<in> set ids then r\<lparr>or_published_at := Some now\<rparr> else r)"

definition MarkPublished :: "nat \<Rightarrow> ('a pgenv_scheme, go_error, unit) io" where
  "MarkPublished rid = statement ''erro ao marcar outbox como publicado'' (\<lambda>w.
     ((), w\<lparr>outbox_table := mark_published [rid] (db_now w) (outbox_table w)\<rparr>))"

definition MarkPublishedBatch :: "nat list \<Rightarrow> ('a pgenv_scheme, go_error, unit) io" where
  "MarkPublishedBatch ids =
     (if ids = [] then returnM ()
      else statement ''erro ao marcar lote da outbox como publicado'' (\<lambda>w.
        ((), w\<lparr>outbox_table := mark_published ids (db_now w) (outbox_table w)\<rparr>)))"

definition purgeable :: "int \<Rightarrow> int \<Rightarrow> outbox_row \<Rightarrow> bool" where
  "purgeable now olderThan r \<longleftrightarrow>
     (case or_published_at r of None \<Rightarrow> False | Some t \<Rightarrow> t < now - olderThan)"

definition PurgePublished :: "int \<Rightarrow> ('a pgenv_scheme, go_error, nat) io" where
  "PurgePublished olderThan = statement ''erro ao purgar outbox publicada'' (\<lambda>w.
     (length (filter (purgeable (db_now w) olderThan) (outbox_table w)),
      w\<lparr>outbox_table := filter (\<lambda>r. \<not> purgeable (db_now w) olderThan r) (outbox_table w)\<rparr>))"

end
