(* ===== verification/OrchestratorRefines.thy ===== *)
theory OrchestratorRefines
  imports OrchestratorSpec
begin

text \<open>
  The handlers of the orchestrator implement \<open>orch_spec\<close>, first inside a transaction
  (locale \<open>saga_tx_contract\<close>), then through the unit of work (locale \<open>saga_uow_contract\<close>).
\<close>

section \<open>How a handler ends\<close>

text \<open>
  Inside a transaction: a handler skips, accepts with the store of the specification, rejects
  definitively, or fails because the infrastructure does.
\<close>

definition implements ::
  "('a env_scheme \<Rightarrow> abs_db) \<Rightarrow> ('a env_scheme \<Rightarrow> bool) \<Rightarrow> 'a env_scheme \<Rightarrow>
     ('a env_scheme, go_error, unit) io \<Rightarrow> verdict \<Rightarrow> bool" where
  "implements view healthy w m vd \<longleftrightarrow>
     wpM m
       (\<lambda>_ v. (case vd of
            Skip \<Rightarrow> view v = view w \<and> same_env w v
          | Reject \<Rightarrow> False
          | Accept d \<Rightarrow> view v = d \<and> entropy v = entropy w \<and> clock v = clock w \<and>
              drawn v = Suc (drawn w) \<and> ticks v = Suc (ticks w)) \<and>
          (healthy w \<longrightarrow> healthy v))
       (\<lambda>e v. entropy v = entropy w \<and> clock v = clock w \<and> drawn w \<le> drawn v \<and> ticks w \<le> ticks v \<and>
          (errors_is e ErrNonRetryable \<and> vd = Reject \<and> (healthy w \<longrightarrow> healthy v) \<or>
           transient e \<and> \<not> healthy w)) w"

lemma ends_in_implements: "ends_in view healthy w m d \<Longrightarrow> implements view healthy w m (Accept d)"
  unfolding ends_in_def implements_def by (elim wpM_conseq) auto

lemma implements_mono:
  assumes "implements view healthy v m vd" and "same_env w v" and "healthy w \<longrightarrow> healthy v"
    and "vd \<noteq> Skip"
  shows "wpM m
       (\<lambda>_ u. (case vd of
            Skip \<Rightarrow> view u = view w \<and> same_env w u
          | Reject \<Rightarrow> False
          | Accept d \<Rightarrow> view u = d \<and> entropy u = entropy w \<and> clock u = clock w \<and>
              drawn u = Suc (drawn w) \<and> ticks u = Suc (ticks w)) \<and>
          (healthy w \<longrightarrow> healthy u))
       (\<lambda>e u. entropy u = entropy w \<and> clock u = clock w \<and> drawn w \<le> drawn u \<and> ticks w \<le> ticks u \<and>
          (errors_is e ErrNonRetryable \<and> vd = Reject \<and> (healthy w \<longrightarrow> healthy u) \<or>
           transient e \<and> \<not> healthy w)) v"
  using assms(1) unfolding implements_def
  by (elim wpM_conseq) (use assms(2-4) in \<open>auto simp: same_env_def split: verdict.splits\<close>)

section \<open>The code and the table of reactions agree\<close>

lemma validateResultStatus_ok:
  "validateResultStatus t st = Inr () \<longleftrightarrow>
     (t = EventPaymentResult \<and> st \<in> {StatusPaymentApproved, StatusRetrying, StatusFailed}) \<or>
     (t = EventPaymentCompensateResult \<and> st \<in> {StatusPaymentRefunded, StatusRetrying, StatusFailed}) \<or>
     (t = EventInventoryResult \<and> st \<in> {StatusInventoryReserved, StatusRetrying, StatusFailed}) \<or>
     (t = EventNotificationResult \<and> st \<in> {StatusNotified, StatusRetrying, StatusFailed})"
  by (cases t) (auto simp: validateResultStatus_def)

lemma validateResultStatus_cases:
  "validateResultStatus t st = Inr () \<or>
   validateResultStatus t st = Inl (ErrText ''status incompativel com o resultado'')"
  by (auto simp: validateResultStatus_def Let_def)

lemma react_None_iff:
  assumes "EventType e \<in> result_types"
  shows "react maxR s e = None \<longleftrightarrow>
    expectedStatusForResult (EventType e) \<noteq> Inr (Current s) \<or>
    validateResultStatus (EventType e) (StatusAtual e) \<noteq> Inr ()"
  using assms unfolding validateResultStatus_ok
  by (auto simp: result_types_def react_defs expectedStatusForResult_def split: order_status.splits)

lemma decide_None:
  assumes "EventType e \<in> result_types" and "react maxR s e = None"
  shows "\<exists>c. decide maxR tx s e = failM (Wrapf c ErrNonRetryable)"
proof (cases "expectedStatusForResult (EventType e) = Inr (Current s)")
  case True
  then have "validateResultStatus (EventType e) (StatusAtual e) \<noteq> Inr ()"
    using assms by (simp add: react_None_iff)
  then show ?thesis
    using True validateResultStatus_cases [of "EventType e" "StatusAtual e"]
    by (auto simp: decide_def)
next
  case False
  then show ?thesis
    using assms(1) by (auto simp: decide_def result_types_def expectedStatusForResult_def)
qed

context saga_tx_contract
begin

lemma decide_ends:
  assumes "react maxR s e = Some r"
  shows "ends_in view healthy w (decide maxR tx s e) (emit_at w s r (view w))"
proof -
  have adv: "ends_in view healthy w (advance tx s e) (emit_at w s (Proceed st tid) (view w))"
    if "StatusAtual e = st" "canTransitionTo (Current s) st"
      "st = StatusPaymentApproved \<or> st = StatusInventoryReserved"
      "tid = (if EventType e = EventPaymentResult then TransactionID e else saga_TransactionID s)"
    for st tid
    using advance_ends [of s e tid w] that by simp
  from assms consider
      (payment) "EventType e = EventPaymentResult" "Current s = StatusPaymentPending"
        "react_payment maxR s e = Some r"
    | (inventory) "EventType e = EventInventoryResult" "Current s = StatusPaymentApproved"
        "react_inventory maxR s e = Some r"
    | (notification) "EventType e = EventNotificationResult" "Current s = StatusInventoryReserved"
        "react_notification maxR s e = Some r"
    | (refund) "EventType e = EventPaymentCompensateResult" "Current s = StatusPaymentRefundPending"
        "react_refund maxR s e = Some r"
    by (auto simp: react_def split: if_splits)
  then show ?thesis
  proof cases
    case payment
    from payment(3) consider "StatusAtual e = StatusPaymentApproved"
      | "StatusAtual e = StatusRetrying" | "StatusAtual e = StatusFailed"
      by (auto simp: react_payment_def split: order_status.splits)
    then show ?thesis
      by cases (use payment in \<open>auto simp: react_payment_def decide_def expectedStatusForResult_def
        validateResultStatus_def
        intro!: fail_saga_ends retry_ends adv\<close>)
  next
    case inventory
    from inventory(3) consider "StatusAtual e = StatusInventoryReserved"
      | "StatusAtual e = StatusRetrying" | "StatusAtual e = StatusFailed"
      by (auto simp: react_inventory_def split: order_status.splits)
    then show ?thesis
      by cases (use inventory in \<open>auto simp: react_inventory_def decide_def expectedStatusForResult_def
        validateResultStatus_def
        intro!: fail_saga_ends retry_ends startCompensation_ends adv\<close>)
  next
    case notification
    from notification(3) consider "StatusAtual e = StatusNotified"
      | "StatusAtual e = StatusRetrying" | "StatusAtual e = StatusFailed"
      by (auto simp: react_notification_def split: order_status.splits)
    then show ?thesis
      by cases (use notification in \<open>auto simp: react_notification_def decide_def expectedStatusForResult_def
        validateResultStatus_def
        intro!: complete_ends retry_ends\<close>)
  next
    case refund
    from refund(3) consider "StatusAtual e = StatusPaymentRefunded"
      | "StatusAtual e = StatusRetrying" | "StatusAtual e = StatusFailed"
      by (auto simp: react_refund_def split: order_status.splits)
    then show ?thesis
      by cases (use refund in \<open>auto simp: react_refund_def decide_def expectedStatusForResult_def
        validateResultStatus_def refund_outcome_def
        cloneMetadata_def intro!: fail_saga_ends retry_ends\<close>)
  qed
qed

abbreviation spec_at :: "int \<Rightarrow> 'a env_scheme \<Rightarrow> event \<Rightarrow> verdict" where
  "spec_at maxR w e \<equiv>
     orch_spec maxR (event_id_at (entropy w) (drawn w)) (clock w (ticks w)) e (view w)"

lemma startOrder_implements:
  assumes t: "EventType e = EventOrderCreated"
  shows "implements view healthy w (startOrder tx e) (spec_at maxR w e)"
  unfolding implements_def startOrder_def wpM_tryM
proof (rule alreadyProcessed_rule, goal_cases)
  case (1 v)
  show ?case
  proof (cases "abs_has (EventID e) orchestrator_component (view w)")
    case True
    with 1 t show ?thesis
      by (simp add: orch_spec_def wpM_returnM)
  next
    case fresh: False
    show ?thesis
      unfolding if_not_P [OF fresh] wpM_tryM wpM_attemptM
    proof (rule load_rule, goal_cases)
      case (1 s u)
      with \<open>view v = view w\<close> t fresh \<open>same_env w v\<close> \<open>healthy w \<longrightarrow> healthy v\<close> show ?case
        by (auto simp: wpM_failM orch_spec_def same_env_def)
    next
      case (2 u)
      let ?s = "\<lparr>saga_OrderID = OrderID e, Previous = NoStatus, Current = StatusPending,
        RetryCount = 0, saga_TransactionID = ''''\<rparr>"
      let ?entry = "(journal_entry ?s e DirectionIn NoStatus)\<lparr>le_StatusAtual := StatusPending\<rparr>"
      have u: "view u = view w" "same_env w u" "healthy w \<longrightarrow> healthy u"
        using 1 2 by (auto simp: same_env_def)
      have accept: "spec_at maxR w e = Accept (apply_start (event_id_at (entropy w) (drawn w))
          (clock w (ticks w)) e (view w))"
        using t fresh 1 2 by (simp add: orch_spec_def)
      have log: "logEvent tx ?s (EventID e) EventOrderCreated DirectionIn StatusPending (AnyEvent e)
          AnyNil AnyNil = Append log ?entry"
        by (simp add: logEvent_def log_present journal_entry_def t)
      show ?case
        unfolding sum.case Let_def simp_thms if_False log wpM_tryM [of "Append log _"]
      proof (rule append_rule, goal_cases)
        case (1 x)
        have "ends_in view healthy x (tryM (Sagas_Save tx ?s) (\<lambda>_. dispatchNext tx ?s))
          (apply_start (event_id_at (entropy w) (drawn w)) (clock w (ticks w)) e (view w))"
        proof (rule save_then_ends)
          fix y assume y: "view y = abs_save ?s (view x)" "same_env x y"
          let ?out = "outgoing (event_id_at (entropy y) (drawn y)) (clock y (ticks y)) (OrderID e)
            EventPaymentCommand NoStatus StatusPaymentPending '''' fmempty"
          have "ends_in view healthy y (dispatchNext tx ?s)
            (abs_publish ?out (abs_append (journal_entry (new_saga (OrderID e)) ?out DirectionOut
               StatusPending) (abs_save (new_saga (OrderID e)) (view y))))"
            using dispatchNext_ends [where s = ?s and w = y and s' = "new_saga (OrderID e)"]
            by (simp add: nextCommand_def new_saga_def)
          moreover have "entropy y = entropy w" "drawn y = drawn w" "clock y = clock w" "ticks y = ticks w"
            using y(2) 1(2) u(2) by (auto simp: same_env_def)
          moreover have "abs_save (new_saga (OrderID e)) (view y) = abs_save (new_saga (OrderID e))
            (abs_append ?entry (view w))"
            using y(1) 1(1) u(1) by (simp add: new_saga_def)
          ultimately show "ends_in view healthy y (dispatchNext tx ?s)
            (apply_start (event_id_at (entropy w) (drawn w)) (clock w (ticks w)) e (view w))"
            by (simp add: apply_start_def Let_def journal_entry_def new_saga_def)
        qed
        then show ?case
          unfolding accept
          by (intro implements_mono ends_in_implements) (use u 1 in \<open>auto simp: same_env_def\<close>)
      next
        case (2 er x)
        then show ?case
          using u by (auto simp: same_env_def)
      qed
    next
      case (3 er u)
      with 1 show ?case
        by (auto simp: wpM_failM same_env_def)
    qed
  qed
qed (auto simp: same_env_def)

lemma handleResult_implements:
  assumes t: "EventType e \<noteq> EventOrderCreated"
  shows "implements view healthy w (handleResult maxR tx e) (spec_at maxR w e)"
proof (cases "EventType e \<in> result_types")
  case False
  then show ?thesis
    using t by (simp add: implements_def handleResult_def orch_spec_def result_types_def wpM_returnM)
next
  case True
  then have code: "handleResult maxR tx e =
    tryM (attemptM (Sagas_Load tx (OrderID e))) (\<lambda>loaded.
     case loaded of
       Inl err \<Rightarrow>
         if err = ErrSagaNotFound
         then failM (Wrapf ''saga desconhecida para o pedido'' ErrNonRetryable)
         else failM (Wrapf ''erro ao carregar saga para o pedido'' err)
     | Inr saga \<Rightarrow>
     tryM (alreadyProcessed tx (EventID e)) (\<lambda>seen.
     if seen then returnM ()
     else
     tryM (logEvent tx saga (EventID e) (EventType e) DirectionIn (StatusAtual e)
             (AnyEvent e) AnyNil AnyNil) (\<lambda>_. decide maxR tx saga e)))"
    by (simp add: handleResult_def result_types_def)
  show ?thesis
    unfolding implements_def code wpM_tryM [of "attemptM _"] wpM_attemptM
  proof (rule load_rule, goal_cases)
    case (1 s v)
    note v = 1
    show ?case
      unfolding sum.case wpM_tryM [of "alreadyProcessed _ _"]
    proof (rule alreadyProcessed_rule, goal_cases)
      case (1 u)
      have u: "view u = view w" "same_env w u" "healthy w \<longrightarrow> healthy u"
        using v 1 by (auto simp: same_env_def)
      show ?case
      proof (cases "abs_has (EventID e) orchestrator_component (view w)")
        case seen: True
        then show ?thesis
          using u v t True by (simp add: orch_spec_def wpM_returnM)
      next
        case fresh: False
        then have fresh': "\<not> abs_has (EventID e) orchestrator_component (view v)"
          using v by simp
        show ?thesis
          unfolding if_not_P [OF fresh'] wpM_tryM
        proof (rule logEvent_rule, goal_cases)
          case (1 x)
          have x: "same_env w x" "healthy w \<longrightarrow> healthy x"
            using u 1 by (auto simp: same_env_def)
          have xv: "view x = abs_append (journal_entry s e DirectionIn (Previous s)) (view w)"
            using 1 u by simp
          show ?case
          proof (cases "react maxR s e")
            case None
            then obtain c where "decide maxR tx s e = failM (Wrapf c ErrNonRetryable)"
              using decide_None True by blast
            moreover have "spec_at maxR w e = Reject"
              using None True t v fresh by (simp add: orch_spec_def)
            ultimately show ?thesis
              using x by (auto simp: wpM_failM same_env_def)
          next
            case (Some r)
            then have "spec_at maxR w e = Accept (emit_at x s r (view x))"
              using True t v fresh xv by (simp add: orch_spec_def apply_reaction_def
                emit_at_same_env [OF x(1)])
            then show ?thesis
              using decide_ends [OF Some, of x] x
              by (intro implements_mono) (auto intro: ends_in_implements)
          qed
        next
          case (2 er x)
          then show ?case
            using u by (auto simp: same_env_def)
        qed
      qed
    next
      case (2 er u)
      then show ?case
        using v by (auto simp: same_env_def)
    qed
  next
    case (2 v)
    then show ?case
      using True t by (auto simp: wpM_failM orch_spec_def same_env_def)
  next
    case (3 er v)
    then show ?case
      by (auto simp: wpM_failM same_env_def)
  qed
qed

end

section \<open>Through the unit of work\<close>

text \<open>
  The outcome of a handler as its caller sees it. A success is the specification's store; a
  definitive error comes exactly with a rejection and changes nothing; any other error is the
  infrastructure's, and the store is then as before or, when only the acknowledgement of the
  commit was lost, the accepted one. The random blocks used are accounted for: an accepted
  event has used one, and none is ever used twice.
\<close>

definition done_as :: "('a env_scheme \<Rightarrow> abs_db) \<Rightarrow> verdict \<Rightarrow> 'a env_scheme \<Rightarrow> 'a env_scheme \<Rightarrow> bool" where
  "done_as view vd w v \<longleftrightarrow> env_advances w v \<and>
     (case vd of
        Skip \<Rightarrow> view v = view w
      | Reject \<Rightarrow> False
      | Accept d \<Rightarrow> view v = d \<and> drawn v = Suc (drawn w))"

definition failed_as ::
  "('a env_scheme \<Rightarrow> abs_db) \<Rightarrow> ('a env_scheme \<Rightarrow> bool) \<Rightarrow> verdict \<Rightarrow> 'a env_scheme \<Rightarrow> go_error \<Rightarrow>
     'a env_scheme \<Rightarrow> bool" where
  "failed_as view healthy vd w err v \<longleftrightarrow> env_advances w v \<and>
     (errors_is err ErrNonRetryable \<and> vd = Reject \<and> view v = view w \<or>
      transient err \<and> \<not> healthy w \<and> (view v = view w \<or> done_as view vd w v))"

lemma failed_as_not_transition: "failed_as view healthy vd w err v \<Longrightarrow>
    errors_is err ErrNonRetryable \<or> transient err"
  by (auto simp: failed_as_def)

context saga_uow_contract
begin

lemma with_tx_implements:
  assumes "\<And>u. view u = view w \<Longrightarrow> same_env w u \<Longrightarrow> implements view healthy u (body tx) vd"
  shows "wpM (with_tx body) (\<lambda>_ v. done_as view vd w v \<and> (healthy w \<longrightarrow> healthy v))
    (failed_as view healthy vd w) w"
proof -
  let ?R = "\<lambda>u _ v. (case vd of Skip \<Rightarrow> view v = view u \<and> same_env u v | Reject \<Rightarrow> False
      | Accept d \<Rightarrow> view v = d \<and> entropy v = entropy u \<and> clock v = clock u \<and>
          drawn v = Suc (drawn u) \<and> ticks v = Suc (ticks u)) \<and> (healthy u \<longrightarrow> healthy v)"
  let ?S = "\<lambda>u e v. entropy v = entropy u \<and> clock v = clock u \<and> drawn u \<le> drawn v \<and>
      ticks u \<le> ticks v \<and>
      (errors_is e ErrNonRetryable \<and> vd = Reject \<and> (healthy u \<longrightarrow> healthy v) \<or>
       transient e \<and> \<not> healthy u)"
  have body: "wpM (body tx) (?R u) (?S u) u" if "view u = view w" "same_env w u" for u
    using assms [OF that] unfolding implements_def .
  show ?thesis
  proof (rule wpM_conseq [OF with_tx_contract [where w = w and R = ?R and S = ?S]], goal_cases)
    case (1 u)
    then show ?case by (intro body)
  next
    case (2 x v)
  then obtain u v0 where *: "view u = view w" "same_env w u" "healthy w \<longrightarrow> healthy u"
    "(case vd of Skip \<Rightarrow> view v0 = view u \<and> same_env u v0 | Reject \<Rightarrow> False
      | Accept d \<Rightarrow> view v0 = d \<and> entropy v0 = entropy u \<and> clock v0 = clock u \<and>
          drawn v0 = Suc (drawn u) \<and> ticks v0 = Suc (ticks u))" "healthy u \<longrightarrow> healthy v0"
    "view v = view v0" "same_env v0 v" "healthy v0 \<longrightarrow> healthy v"
    by blast
  then show ?case
    by (auto simp: done_as_def env_advances_def same_env_def split: verdict.splits)
next
  case (3 err v)
  then consider
      (begin_failed) "view v = view w" "same_env w v" "transient err" "\<not> healthy w"
    | (body_failed) u v0 where "view u = view w" "same_env w u" "healthy w \<longrightarrow> healthy u"
        "entropy v0 = entropy u" "clock v0 = clock u" "drawn u \<le> drawn v0" "ticks u \<le> ticks v0"
        "errors_is err ErrNonRetryable \<and> vd = Reject \<or> transient err \<and> \<not> healthy u"
        "view v = view w" "same_env v0 v"
    | (commit_failed) u v0 where "view u = view w" "same_env w u" "healthy w \<longrightarrow> healthy u"
        "case vd of Skip \<Rightarrow> view v0 = view u \<and> same_env u v0 | Reject \<Rightarrow> False
         | Accept d \<Rightarrow> view v0 = d \<and> entropy v0 = entropy u \<and> clock v0 = clock u \<and>
             drawn v0 = Suc (drawn u) \<and> ticks v0 = Suc (ticks u)" "healthy u \<longrightarrow> healthy v0"
        "transient err" "\<not> healthy v0" "view v = view w \<or> view v = view v0" "same_env v0 v"
    by blast
  then show ?case
  proof cases
    case begin_failed
    then show ?thesis
      by (auto simp: failed_as_def env_advances_def same_env_def)
  next
    case body_failed
    then show ?thesis
      by (auto simp: failed_as_def env_advances_def same_env_def)
  next
    case commit_failed
    then show ?thesis
      by (auto simp: failed_as_def done_as_def env_advances_def same_env_def split: verdict.splits)
  qed
qed
qed

lemma HandleEvent_refines:
  assumes "uow orch = with_tx"
  shows "wpM (HandleEvent orch e)
    (\<lambda>_ v. done_as view (spec_at (maxRetries orch) w e) w v \<and> (healthy w \<longrightarrow> healthy v))
    (failed_as view healthy (spec_at (maxRetries orch) w e) w) w"
proof -
  let ?body = "if EventType e = EventOrderCreated then (\<lambda>tx. startOrder tx e)
    else (\<lambda>tx. handleResult (maxRetries orch) tx e)"
  have "HandleEvent orch e = with_tx ?body"
    by (simp add: HandleEvent_def StartOrder_def HandleResult_def assms)
  moreover have "implements view healthy u (?body tx) (spec_at (maxRetries orch) w e)"
    if "view u = view w" "same_env w u" for u
    using that startOrder_implements [of e u] handleResult_implements [of e u "maxRetries orch"]
    by (simp add: same_env_def)
  ultimately show ?thesis
    by (simp only:) (rule with_tx_implements)
qed

end

end
