(* ===== verification/UnitOfWork.thy ===== *)
theory UnitOfWork
  imports Postgres OrchestratorRefines
begin

text \<open>
  The outbox publisher (\<open>internal/infrastructure/outbox/publisher.go\<close>) and the transactional
  unit of work (\<open>internal/infrastructure/uow/unit_of_work.go\<close>) over the write database, and
  the proof that they keep the promises of the ports: the interpretations \<open>pg\<close> of
  \<open>saga_tx_contract\<close> and \<open>pg_uow\<close> of \<open>saga_uow_contract\<close>. The theory imports the
  clients of the contracts, so that the interpretations give their lemmas for Postgres.
\<close>

section \<open>The outbox publisher\<close>

definition afterAppend :: "event \<Rightarrow> registry \<Rightarrow> registry" where
  "afterAppend event m =
     (let m = RecordOutboxGenerated m in
      case EventType event of
        EventOrderCompleted \<Rightarrow> RecordTerminal ''COMPLETED'' m
      | EventOrderFailed \<Rightarrow> RecordTerminal ''FAILED'' m
      | _ \<Rightarrow> m)"

definition outbox_Publish :: "event \<Rightarrow> ('a pgenv_scheme, go_error, unit) io" where
  "outbox_Publish event =
     (case TopicForEventType (EventType event) of
        None \<Rightarrow> failM (ErrText ''nenhum topico configurado para o tipo de evento'')
      | Some topic \<Rightarrow>
          tryM (\<lambda>w. outbox_Append (EventID event) topic (OrderID event) (marshal_event event)
                  (traceparent w) w) (\<lambda>_.
          record_metric (afterAppend event)))"

section \<open>WithTx\<close>

definition pg_event_log :: "'a pgenv_scheme event_log" where
  "pg_event_log = \<lparr>Append = journal_Append, Has = journal_Has\<rparr>"

definition pg_saga_tx :: "'a pgenv_scheme saga_tx" where
  "pg_saga_tx = \<lparr>Sagas_Save = Save, Sagas_Load = Load, EventLog = Some pg_event_log,
     Publish = outbox_Publish\<rparr>"

text \<open>A rollback restores the tables; numbers taken from the sequence are not given back.\<close>

definition rollback :: "'a pgenv_scheme \<Rightarrow> 'a pgenv_scheme \<Rightarrow> 'a pgenv_scheme" where
  "rollback w0 w = w\<lparr>sagas_table := sagas_table w0, saga_events_table := saga_events_table w0,
     outbox_table := outbox_table w0\<rparr>"

definition BeginTx :: "('a pgenv_scheme, go_error, unit) io" where
  "BeginTx = statement ''erro ao iniciar transacao'' (\<lambda>w. ((), w))"

text \<open>
  \<open>Commit\<close> of the transaction begun in \<open>w0\<close>: done, undone, or done with its answer lost.
\<close>

definition Commit :: "'a pgenv_scheme \<Rightarrow> ('a pgenv_scheme, go_error, unit) io" where
  "Commit w0 w =
     (let w1 = w\<lparr>calls := Suc (calls w)\<rparr>;
          err = Wrapf ''erro ao commitar transacao'' (ErrText ''postgres'') in
      case plan w (calls w) of
        NoFault \<Rightarrow> (Inr (), w1)
      | Fails \<Rightarrow> (Inl err, rollback w0 w1)
      | LostAck \<Rightarrow> (Inl err, w1))"

definition WithTx :: "'a pgenv_scheme unit_of_work" where
  "WithTx fn = tryM BeginTx (\<lambda>_ w0.
     case fn pg_saga_tx w0 of
       (Inl err, w) \<Rightarrow> (Inl err, rollback w0 w)
     | (Inr _, w) \<Rightarrow> Commit w0 w)"

section \<open>The abstract store of the tables\<close>

definition message_of_row :: "outbox_row \<Rightarrow> message" where
  "message_of_row r = \<lparr>msg_EventID = oe_EventID r, msg_Topic = oe_Topic r, msg_Key = oe_Key r,
     msg_Payload = oe_Payload r\<rparr>"

definition pg_view :: "'a pgenv_scheme \<Rightarrow> abs_db" where
  "pg_view w = \<lparr>a_sagas = (\<lambda>oid. map_option (saga_of_row oid) (sagas_table w oid)),
     a_log = saga_events_table w, a_out = map message_of_row (outbox_table w)\<rparr>"

definition pg_healthy :: "'a pgenv_scheme \<Rightarrow> bool" where
  "pg_healthy w \<longleftrightarrow> (\<forall>n \<ge> calls w. plan w n = NoFault)"

lemma pg_view_simps [simp]:
  "pg_view (w\<lparr>drawn := n\<rparr>) = pg_view w"
  "pg_view (w\<lparr>ticks := n\<rparr>) = pg_view w"
  "pg_view (w\<lparr>calls := n\<rparr>) = pg_view w"
  "pg_view (w\<lparr>outbox_seq := n\<rparr>) = pg_view w"
  "pg_view (w\<lparr>metrics := m\<rparr>) = pg_view w"
  "pg_view (rollback w v) = pg_view w"
  by (simp_all add: pg_view_def rollback_def)

lemma pg_healthy_simps [simp]:
  "pg_healthy (w\<lparr>drawn := n\<rparr>) = pg_healthy w"
  "pg_healthy (w\<lparr>ticks := n\<rparr>) = pg_healthy w"
  "pg_healthy (w\<lparr>metrics := m\<rparr>) = pg_healthy w"
  by (simp_all add: pg_healthy_def)

text \<open>The one rule about statements: the effect, or a transient failure of an unhealthy server.\<close>

lemma statement_wp:
  assumes "\<And>x v. f (w\<lparr>calls := Suc (calls w)\<rparr>) = (x, v) \<Longrightarrow>
      same_env (w\<lparr>calls := Suc (calls w)\<rparr>) v \<and> plan v = plan w \<and> calls v = Suc (calls w)"
    and "\<And>x v. f (w\<lparr>calls := Suc (calls w)\<rparr>) = (x, v) \<Longrightarrow> pg_view v = V x"
  shows "wpM (statement label f)
     (\<lambda>x v. x = fst (f (w\<lparr>calls := Suc (calls w)\<rparr>)) \<and> pg_view v = V x \<and> same_env w v \<and>
        (pg_healthy w \<longrightarrow> pg_healthy v))
     (\<lambda>e v. same_env w v \<and> transient e \<and> e \<noteq> ErrSagaNotFound \<and> \<not> pg_healthy w) w"
proof -
  obtain x v where f: "f (w\<lparr>calls := Suc (calls w)\<rparr>) = (x, v)"
    by fastforce
  with assms have "pg_view v = V x" "calls v = Suc (calls w)" "plan v = plan w"
      "same_env (w\<lparr>calls := Suc (calls w)\<rparr>) v"
    by blast+
  then show ?thesis
    by (cases "plan w (calls w)")
      (auto simp: wpM_def statement_def Let_def pg_healthy_def same_env_def f)
qed

lemma Save_wp:
  "wpM (Save s)
     (\<lambda>_ v. pg_view v = abs_save s (pg_view w) \<and> same_env w v \<and> (pg_healthy w \<longrightarrow> pg_healthy v))
     (\<lambda>e v. same_env w v \<and> transient e \<and> \<not> pg_healthy w) w"
  unfolding Save_def
  by (rule wpM_conseq [OF statement_wp [where V = "\<lambda>_. abs_save s (pg_view w)"]])
    (auto simp: same_env_def pg_view_def abs_save_def saga_of_row_def coalesce_def fun_eq_iff
      split: option.splits)

lemma Load_wp:
  "wpM (Load oid)
     (\<lambda>s v. a_sagas (pg_view w) oid = Some s \<and> saga_OrderID s = oid \<and> pg_view v = pg_view w \<and>
        same_env w v \<and> (pg_healthy w \<longrightarrow> pg_healthy v))
     (\<lambda>e v. same_env w v \<and>
        (if e = ErrSagaNotFound
         then a_sagas (pg_view w) oid = None \<and> pg_view v = pg_view w \<and>
           (pg_healthy w \<longrightarrow> pg_healthy v)
         else transient e \<and> \<not> pg_healthy w)) w"
  unfolding Load_def wpM_tryM
  by (rule wpM_conseq [OF statement_wp [where V = "\<lambda>_. pg_view w"]])
    (auto simp: same_env_def pg_view_def saga_of_row_def wp_simps split: option.splits)

lemma journal_Has_wp:
  "wpM (journal_Has eid who)
     (\<lambda>b v. b = abs_has eid who (pg_view w) \<and> pg_view v = pg_view w \<and> same_env w v \<and>
        (pg_healthy w \<longrightarrow> pg_healthy v))
     (\<lambda>e v. same_env w v \<and> transient e \<and> \<not> pg_healthy w) w"
  unfolding journal_Has_def
  by (rule wpM_conseq [OF statement_wp [where V = "\<lambda>_. pg_view w"]])
    (auto simp: same_env_def abs_has_def pg_view_def)

lemma journal_exists:
  "journal_key row \<in> journal_key ` set rows \<longleftrightarrow>
     list_ex (\<lambda>r. jr_EventID r = jr_EventID row \<and> jr_Component r = jr_Component row \<and>
       jr_Direction r = jr_Direction row) rows"
  by (induction rows) (auto simp: journal_key_def)

lemma outbox_exists:
  "eid \<in> oe_EventID ` set rows \<longleftrightarrow> list_ex (\<lambda>r. oe_EventID r = eid) rows"
  by (induction rows) auto

lemma journal_Append_wp:
  "wpM (journal_Append entry)
     (\<lambda>_ v. pg_view v = abs_append entry (pg_view w) \<and> same_env w v \<and>
        (pg_healthy w \<longrightarrow> pg_healthy v))
     (\<lambda>e v. same_env w v \<and> transient e \<and> \<not> pg_healthy w) w"
  unfolding journal_Append_def
  by (rule wpM_conseq [OF statement_wp [where V = "\<lambda>_. abs_append entry (pg_view w)"]])
    (auto simp: same_env_def pg_view_def abs_append_def journal_exists Let_def
      split: if_splits)

lemma outbox_Publish_wp:
  assumes "TopicForEventType (EventType ev) = Some topic"
  shows "wpM (outbox_Publish ev)
     (\<lambda>_ v. pg_view v = abs_publish ev (pg_view w) \<and> same_env w v \<and>
        (pg_healthy w \<longrightarrow> pg_healthy v))
     (\<lambda>e v. same_env w v \<and> transient e \<and> \<not> pg_healthy w) w"
proof -
  have "wpM (outbox_Append (EventID ev) topic (OrderID ev) (marshal_event ev) (traceparent w))
     (\<lambda>_ v. pg_view v = abs_publish ev (pg_view w) \<and> same_env w v \<and>
        (pg_healthy w \<longrightarrow> pg_healthy v))
     (\<lambda>e v. same_env w v \<and> transient e \<and> \<not> pg_healthy w) w"
    unfolding outbox_Append_def
    by (rule wpM_conseq [OF statement_wp [where V = "\<lambda>_. abs_publish ev (pg_view w)"]])
      (auto simp: same_env_def pg_view_def abs_publish_def image_image outbox_exists Let_def
        message_of_row_def message_of_def assms split: if_splits)
  then have "wpM (\<lambda>w. outbox_Append (EventID ev) topic (OrderID ev) (marshal_event ev) (traceparent w) w)
     (\<lambda>_ v. pg_view v = abs_publish ev (pg_view w) \<and> same_env w v \<and>
        (pg_healthy w \<longrightarrow> pg_healthy v))
     (\<lambda>e v. same_env w v \<and> transient e \<and> \<not> pg_healthy w) w"
    by (simp add: wpM_def)
  then show ?thesis
    by (auto simp: outbox_Publish_def assms wpM_tryM wpM_record_metric same_env_def elim!: wpM_conseq)
qed

interpretation pg: saga_tx_contract pg_saga_tx pg_event_log pg_view pg_healthy
  by unfold_locales
    (simp_all add: pg_saga_tx_def pg_event_log_def Load_wp Save_wp journal_Has_wp journal_Append_wp
      outbox_Publish_wp)

section \<open>Transactions are atomic\<close>

lemma BeginTx_wp:
  "wpM BeginTx
     (\<lambda>_ v. pg_view v = pg_view w \<and> same_env w v \<and> (pg_healthy w \<longrightarrow> pg_healthy v))
     (\<lambda>e v. v = w\<lparr>calls := Suc (calls w)\<rparr> \<and> transient e \<and> \<not> pg_healthy w) w"
  by (auto simp: BeginTx_def wpM_def statement_def Let_def pg_healthy_def same_env_def
      split: fault.splits)

lemma Commit_wp:
  "wpM (Commit w0)
     (\<lambda>_ v. pg_view v = pg_view w \<and> same_env w v \<and> (pg_healthy w \<longrightarrow> pg_healthy v))
     (\<lambda>e v. transient e \<and> \<not> pg_healthy w \<and> same_env w v \<and>
        (pg_view v = pg_view w0 \<or> pg_view v = pg_view w)) w"
  by (auto simp: Commit_def wpM_def Let_def pg_healthy_def same_env_def rollback_def pg_view_def
      split: fault.splits)

lemma rollback_env [simp]:
  "same_env w (rollback w0 v) = same_env w v"
  "pg_healthy (rollback w0 v) = pg_healthy v"
  by (simp_all add: rollback_def same_env_def pg_healthy_def)

lemma wpM_WithTx:
  "wpM (WithTx fn) Q E w =
     wpM BeginTx (\<lambda>_ w0. wpM (fn pg_saga_tx)
       (\<lambda>_. wpM (Commit w0) Q E) (\<lambda>e v. E e (rollback w0 v)) w0) E w"
  by (auto simp: WithTx_def tryM_def wpM_def split: prod.splits sum.splits)

lemma WithTx_wp:
  assumes "\<And>u. pg_view u = pg_view w \<Longrightarrow> same_env w u \<Longrightarrow> (pg_healthy w \<longrightarrow> pg_healthy u) \<Longrightarrow>
      wpM (fn pg_saga_tx) (R u) (S u) u"
  shows "wpM (WithTx fn)
     (\<lambda>x v. \<exists>u v0. pg_view u = pg_view w \<and> same_env w u \<and> (pg_healthy w \<longrightarrow> pg_healthy u) \<and>
        R u x v0 \<and> pg_view v = pg_view v0 \<and> same_env v0 v \<and> (pg_healthy v0 \<longrightarrow> pg_healthy v))
     (\<lambda>e v.
        (pg_view v = pg_view w \<and> same_env w v \<and> transient e \<and> \<not> pg_healthy w) \<or>
        (\<exists>u v0. pg_view u = pg_view w \<and> same_env w u \<and> (pg_healthy w \<longrightarrow> pg_healthy u) \<and>
           S u e v0 \<and> pg_view v = pg_view w \<and> same_env v0 v \<and> (pg_healthy v0 \<longrightarrow> pg_healthy v)) \<or>
        (\<exists>u v0. pg_view u = pg_view w \<and> same_env w u \<and> (pg_healthy w \<longrightarrow> pg_healthy u) \<and>
           R u () v0 \<and> transient e \<and> \<not> pg_healthy v0 \<and>
           (pg_view v = pg_view w \<or> pg_view v = pg_view v0) \<and> same_env v0 v)) w"
    (is "wpM _ ?Q ?E w")
  unfolding wpM_WithTx
proof (rule wpM_conseq [OF BeginTx_wp], goal_cases)
  case (1 x u)
  then have u: "pg_view u = pg_view w" "same_env w u" "pg_healthy w \<longrightarrow> pg_healthy u"
    by auto
  show ?case
  proof (rule wpM_conseq [OF assms [OF u]], goal_cases)
    case (1 y v0)
    show ?case
      by (rule wpM_conseq [OF Commit_wp]) (use 1 u in \<open>auto 4 4\<close>)
  next
    case (2 e v0)
    then show ?case
      using u by (intro disjI2 disjI1 exI [of _ u] exI [of _ v0]) simp
  qed
next
  case (2 e v)
  then show ?case
    by (simp add: same_env_def)
qed

interpretation pg_uow: saga_uow_contract pg_saga_tx pg_event_log pg_view pg_healthy WithTx
  by unfold_locales (rule WithTx_wp)

lemmas pg_defs = pg_view_def pg_healthy_def pg_saga_tx_def pg_event_log_def

end
