(* ===== verification/OrchestratorCorrect.thy ===== *)
theory OrchestratorCorrect
  imports UnitOfWork SagaLife
begin

text \<open>
  The orchestrator of \<open>cmd/orchestrator\<close>, which is the handler of theory Orchestrator over the
  Postgres unit of work: its refinement, its errors, redelivery, and the life of a saga.
  Everything follows from the interpretation \<open>pg_uow\<close> and facts about \<open>orch_spec\<close>.
\<close>

section \<open>The production orchestrator\<close>

definition New_orchestrator :: "'w unit_of_work \<Rightarrow> int \<Rightarrow> 'w orchestrator" where
  "New_orchestrator u maxR = \<lparr>uow = u, maxRetries = maxR\<rparr>"

abbreviation orchestrate :: "int \<Rightarrow> event \<Rightarrow> ('a pgenv_scheme, go_error, unit) io" where
  "orchestrate maxR \<equiv> HandleEvent (New_orchestrator WithTx maxR)"

abbreviation spec_of :: "int \<Rightarrow> 'a pgenv_scheme \<Rightarrow> event \<Rightarrow> verdict" where
  "spec_of maxR w e \<equiv>
     orch_spec maxR (event_id_at (entropy w) (drawn w)) (clock w (ticks w)) e (pg_view w)"

lemma orchestrate_wp:
  "wpM (orchestrate maxR e)
     (\<lambda>_ v. done_as pg_view (spec_of maxR w e) w v \<and> (pg_healthy w \<longrightarrow> pg_healthy v))
     (failed_as pg_view pg_healthy (spec_of maxR w e) w) w"
  using pg_uow.HandleEvent_refines [of "New_orchestrator WithTx maxR" e w]
  by (simp add: New_orchestrator_def)

section \<open>A world and an order for the examples\<close>

definition empty_world :: "(nat \<Rightarrow> fault) \<Rightarrow> pgenv" where
  "empty_world faults = \<lparr>entropy = (\<lambda>k i. if i = 0 then of_nat k else 0), drawn = 0,
     clock = (\<lambda>n. int n), ticks = 0, attempts = (\<lambda>_ _. 0), metrics = new_registry, sagas_table = (\<lambda>_. None), saga_events_table = [],
     outbox_table = [], outbox_seq = 1, traceparent = '''', plan = faults, calls = 0,
     db_clock = (\<lambda>n. int n), row_locks = (\<lambda>_. []), scan_rank = (\<lambda>_ n. n)\<rparr>"

definition order_created :: "string \<Rightarrow> string \<Rightarrow> event" where
  "order_created eid oid = outgoing eid 0 oid EventOrderCreated NoStatus StatusPending '''' fmempty"

definition payment_approved :: "string \<Rightarrow> string \<Rightarrow> event" where
  "payment_approved eid oid = outgoing eid 0 oid EventPaymentResult StatusPaymentPending
     StatusPaymentApproved ''tx-1'' fmempty"

lemma empty_world_healthy [simp]: "pg_healthy (empty_world (\<lambda>_. NoFault))"
  by (simp add: pg_healthy_def empty_world_def)

text \<open>The definitions a run of a handler on a concrete world unfolds.\<close>

lemmas run_prog = HandleEvent_def StartOrder_def HandleResult_def startOrder_def handleResult_def
  decide_def advance_def dispatchNext_def nextCommand_def alreadyProcessed_def logEvent_def
  New_orchestrator_def expectedStatusForResult_def validateResultStatus_def
lemmas run_db = WithTx_def BeginTx_def Commit_def rollback_def statement_def pg_saga_tx_def
  pg_event_log_def journal_Has_def journal_Append_def Load_def Save_def outbox_Publish_def
  outbox_Append_def saga_of_row_def coalesce_def
lemmas run_monad = tryM_def wrapM_def attemptM_def returnM_def failM_def Let_def NewEventID_run
  time_Now_def record_metric_def
lemmas run_defs = run_prog run_db run_monad empty_world_def order_created_def payment_approved_def
  outgoing_def

section \<open>Refinement\<close>

text \<open>
  C1: the orchestrator implements its specification whatever the database and the network do:
  a success leaves exactly the store \<open>orch_spec\<close> gives (new saga, journal lines for the event and
  for the command or outcome, one outbox message with a fresh identifier); a definitive error
  comes only with a rejection and changes nothing; after any other error the store is as before
  or the accepted one.
\<close>

theorem HandleEvent_implements_spec:
  "wpM (HandleEvent (New_orchestrator WithTx maxR) e)
     (\<lambda>_ v. done_as pg_view (spec_of maxR w e) w v)
     (failed_as pg_view pg_healthy (spec_of maxR w e) w) w"
  using orchestrate_wp by (rule wpM_conseq) auto

text \<open>
  C2: with a database that answers, every event is handled: it is skipped or accepted as the
  specification says, or rejected with an error that goes to the dead-letter topic; no event is
  left to be retried.
\<close>

theorem HandleEvent_total_when_healthy:
  assumes "pg_healthy w"
  shows "wpM (HandleEvent (New_orchestrator WithTx maxR) e)
     (\<lambda>_ v. done_as pg_view (spec_of maxR w e) w v \<and> pg_healthy v)
     (\<lambda>err v. errors_is err ErrNonRetryable \<and> spec_of maxR w e = Reject \<and> pg_view v = pg_view w) w"
  using orchestrate_wp by (rule wpM_conseq) (auto simp: assms failed_as_def)

lemma HandleEvent_total_when_healthy_witness:
  "wpM (HandleEvent (New_orchestrator WithTx 3) (order_created ''e'' ''o''))
     (\<lambda>_ v. done_as pg_view (spec_of 3 (empty_world (\<lambda>_. NoFault)) (order_created ''e'' ''o''))
        (empty_world (\<lambda>_. NoFault)) v \<and> pg_healthy v)
     (\<lambda>err v. errors_is err ErrNonRetryable \<and>
        spec_of 3 (empty_world (\<lambda>_. NoFault)) (order_created ''e'' ''o'') = Reject \<and>
        pg_view v = pg_view (empty_world (\<lambda>_. NoFault))) (empty_world (\<lambda>_. NoFault))"
  by (rule HandleEvent_total_when_healthy) simp

section \<open>Errors\<close>

lemma errors_is_exclusive: "errors_is e ErrNonRetryable \<Longrightarrow> \<not> errors_is e ErrInvalidTransition"
  by (induction e) auto

text \<open>
  C7: the transition table and the handlers agree: no event, whatever it holds, makes a handler
  attempt a transition outside the table, so \<open>ErrInvalidTransition\<close> never reaches the consumer.
\<close>

theorem HandleEvent_never_invalid_transition:
  "wpM (HandleEvent (New_orchestrator WithTx maxR) e) (\<lambda>_ _. True)
     (\<lambda>err _. \<not> errors_is err ErrInvalidTransition) w"
  using orchestrate_wp
  by (rule wpM_conseq) (auto simp: failed_as_def transient_def dest: errors_is_exclusive)

text \<open>
  An error leaves no partial effect: after a definitive error nothing is stored, and after
  any error all of saga, journal and outbox are as before or all are as the specification
  accepts them.
\<close>

theorem HandleEvent_atomic:
  "wpM (HandleEvent (New_orchestrator WithTx maxR) e) (\<lambda>_ _. True)
     (\<lambda>err v. pg_view v = pg_view w \<or>
        \<not> errors_is err ErrNonRetryable \<and> spec_of maxR w e = Accept (pg_view v)) w"
  using orchestrate_wp
  by (rule wpM_conseq)
    (auto simp: failed_as_def transient_def done_as_def split: verdict.splits)

section \<open>Redelivery\<close>

lemma start_has: "abs_has (EventID e) orchestrator_component (apply_start eid now e d)"
  by (simp add: apply_start_def Let_def abs_has_append journal_entry_def)

lemma reaction_has: "abs_has (EventID e) orchestrator_component (apply_reaction eid now e s r d)"
  by (simp add: apply_reaction_def emit_def Let_def abs_has_append journal_entry_def)

lemma saga_after_start: "a_sagas (apply_start eid now e d) = (a_sagas d)(OrderID e \<mapsto> new_saga (OrderID e))"
  by (simp add: apply_start_def Let_def new_saga_def)

lemma saga_after_reaction:
  "saga_OrderID s = oid \<Longrightarrow> a_sagas (apply_reaction eid now e s r d) = (a_sagas d)(oid \<mapsto> next_saga r s)"
  by (cases r) (auto simp: apply_reaction_def emit_def Let_def)

text \<open>An event in the journal, for an order that has a saga, is skipped from then on.\<close>

lemma spec_seen:
  "abs_has (EventID e) orchestrator_component d \<Longrightarrow> a_sagas d (OrderID e) \<noteq> None \<Longrightarrow>
     orch_spec maxR eid now e d = Skip"
  by (auto simp: orch_spec_def)

lemma keyed_pg_view [simp]: "keyed (pg_view w)"
  by (auto simp: keyed_def pg_view_def saga_of_row_def)

lemma spec_accepted_skip:
  assumes "orch_spec maxR eid now e d = Accept d'" and "keyed d"
  shows "orch_spec maxR eid' now' e d' = Skip"
proof (rule spec_seen)
  have oid: "saga_OrderID s = OrderID e" if "a_sagas d (OrderID e) = Some s" for s
    using assms(2) that by (simp add: keyed_def)
  show "abs_has (EventID e) orchestrator_component d'"
    using assms(1) by (auto simp: orch_spec_def start_has reaction_has split: if_splits option.splits)
  show "a_sagas d' (OrderID e) \<noteq> None"
    using assms(1) oid
    by (auto simp: orch_spec_def saga_after_start saga_after_reaction split: if_splits option.splits)
qed

text \<open>
  A skipped event is skipped again, whatever identifier and time are next: skipping does not
  depend on them.
\<close>

lemma spec_skip_again: "orch_spec maxR eid now e d = Skip \<Longrightarrow> orch_spec maxR eid' now' e d = Skip"
  by (auto simp: orch_spec_def split: if_splits option.splits)

text \<open>
  The consumer hands an event to the handler until it succeeds, at most \<open>n\<close> times
  (at-least-once delivery after restarts and transient errors).
\<close>

fun deliver :: "int \<Rightarrow> event \<Rightarrow> nat \<Rightarrow> ('a pgenv_scheme, go_error, unit) io" where
  "deliver maxR e 0 w = (Inl (ErrText ''not delivered''), w)"
| "deliver maxR e (Suc n) w =
     (case HandleEvent (New_orchestrator WithTx maxR) e w of
        (Inr _, v) \<Rightarrow> (Inr (), v)
      | (Inl err, v) \<Rightarrow> if errors_is err ErrNonRetryable then (Inl err, v) else deliver maxR e n v)"

definition effect_once :: "int \<Rightarrow> event \<Rightarrow> 'a pgenv_scheme \<Rightarrow> 'a pgenv_scheme \<Rightarrow> bool" where
  "effect_once maxR e w v \<longleftrightarrow>
     (\<exists>k t. drawn w \<le> k \<and> k \<le> drawn v \<and>
        (case orch_spec maxR (event_id_at (entropy w) k) (clock w t) e (pg_view w) of
           Skip \<Rightarrow> pg_view v = pg_view w
         | Reject \<Rightarrow> False
         | Accept d \<Rightarrow> pg_view v = d))"

lemma effect_once_step: "done_as pg_view (spec_of maxR w e) w v \<Longrightarrow> effect_once maxR e w v"
  unfolding effect_once_def done_as_def env_advances_def
  by (intro exI [of _ "drawn w"] exI [of _ "ticks w"]) (auto split: verdict.splits)

lemma effect_once_mono:
  assumes "effect_once maxR e v u" and "pg_view v = pg_view w" and "env_advances w v"
  shows "effect_once maxR e w u"
proof -
  from assms(1) obtain k t where "drawn v \<le> k" "k \<le> drawn u"
    "case orch_spec maxR (event_id_at (entropy v) k) (clock v t) e (pg_view v) of
       Skip \<Rightarrow> pg_view u = pg_view v | Reject \<Rightarrow> False | Accept d \<Rightarrow> pg_view u = d"
    unfolding effect_once_def by blast
  with assms(2,3) show ?thesis
    unfolding effect_once_def env_advances_def
    by (intro exI [of _ k] exI [of _ t]) (auto split: verdict.splits)
qed

lemma effect_once_later:
  assumes "effect_once maxR e w v" and "pg_view u = pg_view v" and "env_advances v u"
  shows "effect_once maxR e w u"
proof -
  from assms(1) obtain k t where "drawn w \<le> k" "k \<le> drawn v"
    "case orch_spec maxR (event_id_at (entropy w) k) (clock w t) e (pg_view w) of
       Skip \<Rightarrow> pg_view v = pg_view w | Reject \<Rightarrow> False | Accept d \<Rightarrow> pg_view v = d"
    unfolding effect_once_def by blast
  with assms(2,3) show ?thesis
    unfolding effect_once_def env_advances_def
    by (intro exI [of _ k] exI [of _ t]) (auto split: verdict.splits)
qed

lemma deliver_after_effect:
  "spec_of maxR w e = Skip \<Longrightarrow> fst (deliver maxR e n w) = Inr () \<Longrightarrow>
     pg_view (snd (deliver maxR e n w)) = pg_view w \<and> env_advances w (snd (deliver maxR e n w))"
proof (induction n arbitrary: w)
  case (Suc n)
  obtain r v where run: "HandleEvent (New_orchestrator WithTx maxR) e w = (r, v)"
    by fastforce
  show ?case
  proof (cases r)
    case (Inl err)
    then have "failed_as pg_view pg_healthy Skip w err v"
      using wpM_Inl [OF orchestrate_wp [of maxR e w], of err v] run Suc.prems by simp
    then have v: "pg_view v = pg_view w" "env_advances w v" "errors_is err ErrNonRetryable \<Longrightarrow> False"
      by (auto simp: failed_as_def done_as_def transient_def)
    moreover have "spec_of maxR v e = Skip"
      using Suc.prems(1) unfolding v(1) by (rule spec_skip_again)
    ultimately show ?thesis
      using Suc Inl run by (auto intro: env_advances_trans)
  next
    case (Inr x)
    then have "done_as pg_view Skip w v"
      using wpM_Inr [OF orchestrate_wp [of maxR e w], of x v] run Suc.prems by simp
    then show ?thesis
      using Inr run by (simp add: done_as_def)
  qed
qed simp

lemma deliver_effect_once:
  "fst (deliver maxR e n w) = Inr () \<Longrightarrow> effect_once maxR e w (snd (deliver maxR e n w))"
proof (induction n arbitrary: w)
  case (Suc n)
  obtain r v where run: "HandleEvent (New_orchestrator WithTx maxR) e w = (r, v)"
    by fastforce
  show ?case
  proof (cases r)
    case (Inl err)
    then have failed: "failed_as pg_view pg_healthy (spec_of maxR w e) w err v"
      using wpM_Inl [OF orchestrate_wp [of maxR e w], of err v] run by simp
    have nr: "\<not> errors_is err ErrNonRetryable"
      using Suc.prems Inl run by (auto split: if_splits)
    with failed consider "pg_view v = pg_view w" "env_advances w v"
      | "done_as pg_view (spec_of maxR w e) w v"
      by (auto simp: failed_as_def)
    then show ?thesis
    proof cases
      case 1
      have "effect_once maxR e v (snd (deliver maxR e n v))"
        using Suc Inl run nr by simp
      with 1 show ?thesis
        using Inl run nr by (auto intro: effect_once_mono)
    next
      case 2
      then have skip: "spec_of maxR v e = Skip"
        by (auto simp: done_as_def intro: spec_accepted_skip [OF _ keyed_pg_view] spec_skip_again
          split: verdict.splits)
      then have rest: "pg_view (snd (deliver maxR e n v)) = pg_view v"
          "env_advances v (snd (deliver maxR e n v))"
        using deliver_after_effect [OF skip, of n] Suc.prems Inl run nr by simp_all
      then show ?thesis
        using Inl run nr effect_once_step [OF 2] by (auto intro: effect_once_later)
    qed
  next
    case (Inr x)
    then show ?thesis
      using wpM_Inr [OF orchestrate_wp [of maxR e w], of x v] run
      by (auto intro: effect_once_step)
  qed
qed simp

text \<open>
  C3: at-least-once delivery has exactly one effect: however often an event is handed to the
  orchestrator, with failures, rollbacks and lost commit acknowledgements in between, once a
  handling succeeds the store is the one a single handling gives: no second command, no second
  journal line, no second retry counted.
\<close>

theorem redelivery_has_one_effect:
  assumes "fst (deliver maxR e n w) = Inr ()"
  shows "effect_once maxR e w (snd (deliver maxR e n w))"
  using assms by (rule deliver_effect_once)

lemma redelivery_has_one_effect_witness:
  "let w = empty_world (\<lambda>n. if n = 8 then LostAck else NoFault);
       e = order_created ''e'' ''o'' in
   fst (HandleEvent (New_orchestrator WithTx 3) e w) \<noteq> Inr () \<and>
   effect_once 3 e w (snd (deliver 3 e 2 w))"
proof -
  let ?w = "empty_world (\<lambda>n. if n = 8 then LostAck else NoFault)"
  let ?e = "order_created ''e'' ''o''"
  have "fst (HandleEvent (New_orchestrator WithTx 3) ?e ?w) \<noteq> Inr ()"
    by (simp add: run_defs)
  moreover have "fst (deliver 3 ?e 2 ?w) = Inr ()"
    by (simp add: numeral_2_eq_2 run_defs journal_row_of_def)
  ultimately show ?thesis
    unfolding Let_def by (intro conjI redelivery_has_one_effect)
qed

section \<open>Runs of the orchestrator\<close>

text \<open>
  The worlds the orchestrator can bring about: any events in any order, duplicated or made up,
  and between two of them what the other processes do (\<open>foreign\<close>: the workers journal and publish
  results under identifiers they draw, the relay claims and marks outbox rows, faults begin or
  end).
\<close>

inductive orch_run :: "int \<Rightarrow> 'a pgenv_scheme \<Rightarrow> 'a pgenv_scheme \<Rightarrow> bool" for maxR w0 where
  run_start: "orch_run maxR w0 w0"
| run_handle: "orch_run maxR w0 w \<Longrightarrow>
    orch_run maxR w0 (snd (HandleEvent (New_orchestrator WithTx maxR) e w))"
| run_other: "orch_run maxR w0 w \<Longrightarrow> entropy v = entropy w \<Longrightarrow> drawn w \<le> drawn v \<Longrightarrow>
    foreign (event_id_at (entropy w) ` {drawn w ..< drawn v}) (pg_view w) (pg_view v) \<Longrightarrow>
    orch_run maxR w0 v"

text \<open>The random blocks drawn during the run give different identifiers.\<close>

definition distinct_ids :: "'a pgenv_scheme \<Rightarrow> 'a pgenv_scheme \<Rightarrow> bool" where
  "distinct_ids w v \<longleftrightarrow> inj_on (event_id_at (entropy w)) {drawn w ..< drawn v}"

lemma handle_effect:
  fixes w :: "'a pgenv_scheme" and maxR :: int and e :: event
  defines "v \<equiv> snd (HandleEvent (New_orchestrator WithTx maxR) e w)"
  shows "env_advances w v \<and> (pg_view v = pg_view w \<or>
     spec_of maxR w e = Accept (pg_view v) \<and> drawn v = Suc (drawn w))"
proof -
  have "wpM (orchestrate maxR e)
     (\<lambda>_ u. env_advances w u \<and> (pg_view u = pg_view w \<or>
        spec_of maxR w e = Accept (pg_view u) \<and> drawn u = Suc (drawn w)))
     (\<lambda>_ u. env_advances w u \<and> (pg_view u = pg_view w \<or>
        spec_of maxR w e = Accept (pg_view u) \<and> drawn u = Suc (drawn w))) w"
    using orchestrate_wp
    by (rule wpM_conseq) (auto simp: done_as_def failed_as_def split: verdict.splits)
  then show ?thesis
    unfolding v_def wpM_def by (auto split: prod.splits sum.splits)
qed

lemma orch_run_env: "orch_run maxR w0 w \<Longrightarrow> entropy w = entropy w0 \<and> drawn w0 \<le> drawn w"
  by (induction rule: orch_run.induct)
    (use handle_effect in \<open>auto simp: env_advances_def intro: le_trans\<close>)

lemma distinct_ids_mono: "distinct_ids w0 v \<Longrightarrow> drawn w \<le> drawn v \<Longrightarrow> distinct_ids w0 w"
  by (auto simp: distinct_ids_def intro: inj_on_subset)

lemma orch_run_spec:
  "orch_run maxR w0 w \<Longrightarrow> pg_view w0 = empty_db \<Longrightarrow> distinct_ids w0 w \<Longrightarrow>
     \<exists>used \<subseteq> event_id_at (entropy w0) ` {drawn w0 ..< drawn w}. spec_run maxR used (pg_view w)"
proof (induction rule: orch_run.induct)
  case run_start
  then show ?case
    by (auto intro: spec_init)
next
  case (run_handle w e)
  let ?v = "snd (HandleEvent (New_orchestrator WithTx maxR) e w)"
  have env: "entropy w = entropy w0" "drawn w0 \<le> drawn w" "drawn w \<le> drawn ?v"
    using orch_run_env [OF run_handle.hyps] handle_effect [of w maxR e]
    by (auto simp: env_advances_def)
  then obtain used where used: "used \<subseteq> event_id_at (entropy w0) ` {drawn w0 ..< drawn w}"
      "spec_run maxR used (pg_view w)"
    using run_handle.IH [OF run_handle.prems(1)] distinct_ids_mono [OF run_handle.prems(2)] by blast
  from handle_effect [of w maxR e]
  consider "pg_view ?v = pg_view w"
    | "spec_of maxR w e = Accept (pg_view ?v)" "drawn ?v = Suc (drawn w)"
    by blast
  then show ?case
  proof cases
    case 1
    with used env show ?thesis
      by (auto intro!: exI [of _ used])
  next
    case 2
    let ?eid = "event_id_at (entropy w0) (drawn w)"
    have "?eid \<notin> used"
      using run_handle.prems(2) 2(2) used(1) env(2) unfolding distinct_ids_def inj_on_def
      by fastforce
    then have "spec_run maxR (insert ?eid used) (pg_view ?v)"
      using used(2) 2(1) env(1) by (auto intro: spec_step)
    moreover have "insert ?eid used \<subseteq> event_id_at (entropy w0) ` {drawn w0 ..< drawn ?v}"
      using used(1) env 2(2) by (auto simp: less_Suc_eq)
    ultimately show ?thesis
      by blast
  qed
next
  case (run_other w v)
  let ?new = "event_id_at (entropy w0) ` {drawn w ..< drawn v}"
  have env: "entropy w = entropy w0" "drawn w0 \<le> drawn w"
    using orch_run_env [OF run_other.hyps(1)] by simp_all
  have "distinct_ids w0 w"
    using run_other.prems(2) run_other.hyps(3) by (rule distinct_ids_mono)
  then obtain used where used: "used \<subseteq> event_id_at (entropy w0) ` {drawn w0 ..< drawn w}"
      "spec_run maxR used (pg_view w)"
    using run_other.IH run_other.prems(1) by blast
  have "?new \<inter> event_id_at (entropy w0) ` {drawn w0 ..< drawn w} = {}"
    using run_other.prems(2) env(2) run_other.hyps(3) unfolding distinct_ids_def
    by (subst inj_on_image_Int [symmetric, where C = "{drawn w0 ..< drawn v}"]) auto
  then have "?new \<inter> used = {}"
    using used(1) by blast
  then have "spec_run maxR (?new \<union> used) (pg_view v)"
    using used(2) run_other.hyps(4) unfolding env(1) by (intro spec_other)
  moreover have "?new \<union> used \<subseteq> event_id_at (entropy w0) ` {drawn w0 ..< drawn v}"
    using used(1) env(2) run_other.hyps(3) by fastforce
  ultimately show ?case
    by (intro exI [of _ "?new \<union> used"] conjI)
qed

lemma orch_run_inv:
  assumes "orch_run maxR w0 w" and "pg_view w0 = empty_db" and "distinct_ids w0 w"
  shows "order_inv maxR oid (pg_view w)"
  using orch_run_spec [OF assms] spec_run_inv unfolding run_inv_def by blast

section \<open>Properties of the runs\<close>

text \<open>A run to test the properties on: an order is created and its payment approved.\<close>

definition two_steps :: pgenv where
  "two_steps = snd (HandleEvent (New_orchestrator WithTx 3) (payment_approved ''f'' ''o'')
     (snd (HandleEvent (New_orchestrator WithTx 3) (order_created ''e'' ''o'')
       (empty_world (\<lambda>_. NoFault)))))"

lemma two_steps_run: "orch_run 3 (empty_world (\<lambda>_. NoFault)) two_steps"
  unfolding two_steps_def by (intro run_handle run_start)

lemma empty_world_view [simp]: "pg_view (empty_world p) = empty_db"
  by (simp add: pg_view_def empty_world_def empty_db_def)

lemma event_id_at_empty_world:
  "m < 256 \<Longrightarrow> n < 256 \<Longrightarrow> event_id_at (entropy (empty_world p)) m =
     event_id_at (entropy (empty_world p)) n \<longleftrightarrow> m = n"
proof -
  assume *: "m < 256" "n < 256"
  have "(of_nat m :: 8 word) = of_nat n \<Longrightarrow> m = n"
    using * by (simp add: of_nat_eq_iff word_unat_eq_iff unat_of_nat)
  then show ?thesis
    by (auto simp: event_id_at_eq_iff empty_world_def dest: spec [of _ 0])
qed

lemma event_id_at_neq [simp]:
  "length s \<noteq> 32 \<Longrightarrow> event_id_at ent k \<noteq> s" "length s \<noteq> 32 \<Longrightarrow> s \<noteq> event_id_at ent k"
  using length_event_id_at by metis+

lemma event_id_at_differs [simp]: "f j 0 \<noteq> g k 0 \<Longrightarrow> event_id_at f j \<noteq> event_id_at g k"
  using event_id_at_eq_iff [of f j g k] by auto

lemma distinct_ids_empty_world: "drawn v \<le> 256 \<Longrightarrow> distinct_ids (empty_world p) v"
  by (auto simp: distinct_ids_def inj_on_def event_id_at_empty_world)

lemma two_steps_drawn: "drawn two_steps = 2"
  by (simp add: two_steps_def run_defs journal_row_of_def)

lemma two_steps_ids: "distinct_ids (empty_world (\<lambda>_. NoFault)) two_steps"
  by (rule distinct_ids_empty_world) (simp add: two_steps_drawn)

lemma two_steps_saga:
  "a_sagas (pg_view two_steps) ''o'' =
     Some \<lparr>saga_OrderID = ''o'', Previous = StatusPaymentPending, Current = StatusPaymentApproved,
       RetryCount = 0, saga_TransactionID = ''tx-1''\<rparr>"
  by (simp add: two_steps_def run_defs journal_row_of_def pg_view_def)

text \<open>
  C6: whatever events arrive, every saga in the database is in a legal state: waiting in one of
  the four stages or finished, its retry counter between zero and the limit and zero when
  finished, a refund pending only with the transaction it refunds, and no transaction while the
  payment is pending.
\<close>

theorem sagas_always_ok:
  assumes "orch_run maxR w0 w" and "pg_view w0 = empty_db" and "distinct_ids w0 w"
    and "a_sagas (pg_view w) oid = Some s"
  shows "saga_ok maxR s"
  using orch_run_inv [OF assms(1-3), of oid] assms(4) by (simp add: order_inv_def)

lemma sagas_always_ok_witness:
  "saga_ok 3 \<lparr>saga_OrderID = ''o'', Previous = StatusPaymentPending,
     Current = StatusPaymentApproved, RetryCount = 0, saga_TransactionID = ''tx-1''\<rparr>"
  by (rule sagas_always_ok [OF two_steps_run _ two_steps_ids two_steps_saga]) simp



text \<open>
  The bus is never behind the saga: the last message sent for an order always announces the
  state its saga is in, with the command of the stage (and the transaction the stage works on) or
  with the outcome; and exactly one message is sent per event taken in. So a saga that is not
  finished has always sent the command that makes it move on.
\<close>

lemma last_message_announces_saga:
  assumes "orch_run maxR w0 w" and "pg_view w0 = empty_db" and "distinct_ids w0 w"
    and "a_sagas (pg_view w) oid = Some s"
  shows "(\<exists>ev. last (sent oid (pg_view w)) = message_of ev \<and> announced_by s ev) \<and>
    length (sent oid (pg_view w)) = length (accepted oid (pg_view w))"
  using orch_run_inv [OF assms(1-3), of oid] assms(4) by (auto simp: order_inv_def)

lemma last_message_announces_saga_witness:
  "length (sent ''o'' (pg_view two_steps)) = length (accepted ''o'' (pg_view two_steps))"
  using last_message_announces_saga [OF two_steps_run _ two_steps_ids two_steps_saga] by simp

text \<open>
  C5: a saga terminates: the orchestrator takes in at most one event to start an order and
  \<open>3 * (maxRetries + 1)\<close> results, however many are delivered, and each result it takes in uses
  up some of what is left (\<open>budget\<close>).
\<close>

theorem results_are_bounded:
  assumes "orch_run maxR w0 w" and "pg_view w0 = empty_db" and "distinct_ids w0 w"
  shows "int (length (accepted oid (pg_view w))) +
      (case a_sagas (pg_view w) oid of None \<Rightarrow> 0 | Some s \<Rightarrow> budget maxR s)
    \<le> 1 + 3 * (max 0 maxR + 1)"
  using orch_run_inv [OF assms, of oid]
  by (auto simp: order_inv_def result_limit_def split: option.splits)

lemma results_are_bounded_witness:
  "int (length (accepted ''o'' (pg_view two_steps))) + 8 \<le> 13"
  using results_are_bounded [OF two_steps_run _ two_steps_ids, of "''o''"]
  by (simp add: two_steps_saga budget_def)

lemma terminal_kept:
  assumes "orch_run maxR w0 w" and "a_sagas (pg_view w0) oid = Some s"
    and "terminal_status (Current s)"
  shows "a_sagas (pg_view w) oid = Some s"
  using assms(1)
proof induction
  case (run_handle w e)
  then show ?case
    using handle_effect [of w maxR e] spec_terminal_kept [OF _ keyed_pg_view _ assms(3)] by metis
qed (use assms in \<open>auto simp: foreign_def\<close>)

text \<open>
  A finished saga is final: once an order is completed or failed, no event, late, repeated
  or forged, changes its saga again.
\<close>

theorem finished_saga_is_final:
  assumes "orch_run maxR w0 w" and "a_sagas (pg_view w0) oid = Some s"
    and "terminal_status (Current s)"
  shows "a_sagas (pg_view w) oid = Some s"
  using assms by (rule terminal_kept)

definition failed_row :: saga_row where
  "failed_row = \<lparr>sr_saga_id = ''o'', sr_current_status = StatusFailed,
     sr_previous_status = StatusPaymentPending, sr_retry_count = 0, sr_transaction_id = None\<rparr>"

lemma finished_saga_is_final_witness:
  "let w = (empty_world (\<lambda>_. NoFault))\<lparr>sagas_table := [''o'' \<mapsto> failed_row]\<rparr> in
   a_sagas (pg_view (snd (HandleEvent (New_orchestrator WithTx 3) (payment_approved ''f'' ''o'') w)))
     ''o'' = Some (saga_of_row ''o'' failed_row)"
  unfolding Let_def
  by (rule finished_saga_is_final [OF run_handle [OF run_start]])
    (simp_all add: pg_view_def saga_of_row_def failed_row_def terminal_status_def)

end
