(* ===== verification/Workers.thy ===== *)
theory Workers
  imports Ports
begin

text \<open>
  The use cases of the workers (\<open>internal/application/worker\<close>): payment with its refund,
  inventory, notification, and the coordinator that announces an order. Each handler filters the
  events of its topic, rejects a command whose status does not fit, and runs the rest in one
  transaction: journal the command, journal the request, call the gateway, journal the answer,
  publish the result. The gateways are records of actions; the code is theirs to call.
\<close>

section \<open>Gateways\<close>

record 'w payment_gateway =
  gw_Process :: "string \<Rightarrow> ('w, go_error, bool \<times> string) io"
  gw_Refund :: "string \<Rightarrow> string \<Rightarrow> ('w, go_error, bool) io"

record 'w inventory_gateway =
  gw_Reserve :: "string \<Rightarrow> ('w, go_error, bool) io"

record 'w notification_gateway =
  gw_Notify :: "string \<Rightarrow> ('w, go_error, bool) io"

record 'w payment_use_case =
  pay_gateway :: "'w payment_gateway"
  pay_uow :: "'w unit_of_work"

record 'w inventory_use_case =
  inv_gateway :: "'w inventory_gateway"
  inv_uow :: "'w unit_of_work"

record 'w notification_use_case =
  ntf_gateway :: "'w notification_gateway"
  ntf_uow :: "'w unit_of_work"

section \<open>Journal (log.go)\<close>

definition componentPayment :: string where
  "componentPayment = ''worker-payment''"

definition componentInventory :: string where
  "componentInventory = ''worker-inventory''"

definition componentNotification :: string where
  "componentNotification = ''worker-notification''"

definition appendLog ::
  "'w event_log option \<Rightarrow> string \<Rightarrow> event \<Rightarrow> direction \<Rightarrow> any_value \<Rightarrow> any_value \<Rightarrow>
     ('w, go_error, unit) io" where
  "appendLog eventLog who event dir requestPayload responsePayload =
     (case eventLog of
        None \<Rightarrow> returnM ()
      | Some el \<Rightarrow> Append el
          \<lparr>le_OrderID = OrderID event, le_SagaID = SagaID event, le_EventID = EventID event,
           le_EventType = EventType event, le_Component = who, le_Direction = dir,
           le_StatusAnterior = StatusAnterior event, le_StatusAtual = StatusAtual event,
           le_Payload = AnyEvent event, le_RequestPayload = requestPayload,
           le_ResponsePayload = responsePayload\<rparr>)"

definition worker_alreadyProcessed ::
  "'w event_log option \<Rightarrow> string \<Rightarrow> event \<Rightarrow> ('w, go_error, bool) io" where
  "worker_alreadyProcessed eventLog who event =
     (case eventLog of
        None \<Rightarrow> returnM False
      | Some el \<Rightarrow> Has el (EventID event) who)"

section \<open>Payment\<close>

definition payment_process ::
  "'a env_scheme payment_use_case \<Rightarrow> 'a env_scheme saga_tx \<Rightarrow> event \<Rightarrow>
     ('a env_scheme, go_error, unit) io" where
  "payment_process uc tx event =
     tryM (worker_alreadyProcessed (EventLog tx) componentPayment event) (\<lambda>seen.
     if seen then returnM ()
     else
     tryM (appendLog (EventLog tx) componentPayment event DirectionIn AnyNil AnyNil) (\<lambda>_.
     let requestPayload = AnyMap [(''order_id'', JStr (OrderID event)), (''op'', JStr ''process'')] in
     tryM (appendLog (EventLog tx) componentPayment event DirectionGatewayRequest requestPayload
             AnyNil) (\<lambda>_.
     tryM (attemptM (gw_Process (pay_gateway uc) (OrderID event))) (\<lambda>answer.
     let responsePayload = (case answer of
           Inr (approved, txID) \<Rightarrow>
             AnyMap [(''approved'', JBool approved), (''transaction_id'', JStr txID)]
         | Inl err \<Rightarrow> AnyMap [(''error'', JStr (error_text err))]) in
     tryM (appendLog (EventLog tx) componentPayment event DirectionGatewayResponse AnyNil
             responsePayload) (\<lambda>_.
     tryM NewEventID (\<lambda>eid.
     tryM time_Now (\<lambda>now.
     let result = \<lparr>EventID = eid, OrderID = OrderID event, SagaID = SagaID event,
           TransactionID = '''', StatusAtual = NoStatus, StatusAnterior = StatusAtual event,
           EventType = EventPaymentResult, SchemaVersion = CurrentSchemaVersion,
           CreatedAt = now, Metadata = fmempty\<rparr>;
         result = (case answer of
             Inl err \<Rightarrow> result\<lparr>StatusAtual := StatusRetrying,
               Metadata := fmupd ''erro'' (error_text err) fmempty\<rparr>
           | Inr (approved, txID) \<Rightarrow>
               if approved
               then result\<lparr>StatusAtual := StatusPaymentApproved, TransactionID := txID\<rparr>
               else result\<lparr>StatusAtual := StatusFailed\<rparr>) in
     tryM (appendLog (EventLog tx) componentPayment result DirectionOut AnyNil AnyNil) (\<lambda>_.
     Publish tx result))))))))"

definition payment_refund ::
  "'a env_scheme payment_use_case \<Rightarrow> 'a env_scheme saga_tx \<Rightarrow> event \<Rightarrow>
     ('a env_scheme, go_error, unit) io" where
  "payment_refund uc tx event =
     tryM (worker_alreadyProcessed (EventLog tx) componentPayment event) (\<lambda>seen.
     if seen then returnM ()
     else
     tryM (appendLog (EventLog tx) componentPayment event DirectionIn AnyNil AnyNil) (\<lambda>_.
     let requestPayload = AnyMap [(''order_id'', JStr (OrderID event)), (''op'', JStr ''refund''),
           (''transaction_id'', JStr (TransactionID event))] in
     tryM (appendLog (EventLog tx) componentPayment event DirectionGatewayRequest requestPayload
             AnyNil) (\<lambda>_.
     tryM (attemptM (gw_Refund (pay_gateway uc) (OrderID event) (TransactionID event))) (\<lambda>answer.
     let responsePayload = (case answer of
           Inr refunded \<Rightarrow> AnyMap [(''refunded'', JBool refunded)]
         | Inl err \<Rightarrow> AnyMap [(''error'', JStr (error_text err))]) in
     tryM (appendLog (EventLog tx) componentPayment event DirectionGatewayResponse AnyNil
             responsePayload) (\<lambda>_.
     tryM NewEventID (\<lambda>eid.
     tryM time_Now (\<lambda>now.
     let result = \<lparr>EventID = eid, OrderID = OrderID event, SagaID = SagaID event,
           TransactionID = TransactionID event, StatusAtual = NoStatus,
           StatusAnterior = StatusAtual event, EventType = EventPaymentCompensateResult,
           SchemaVersion = CurrentSchemaVersion, CreatedAt = now, Metadata = fmempty\<rparr>;
         result = (case answer of
             Inl err \<Rightarrow> result\<lparr>StatusAtual := StatusRetrying,
               Metadata := fmupd ''erro'' (error_text err) fmempty\<rparr>
           | Inr refunded \<Rightarrow>
               if refunded then result\<lparr>StatusAtual := StatusPaymentRefunded\<rparr>
               else result\<lparr>StatusAtual := StatusFailed\<rparr>) in
     tryM (appendLog (EventLog tx) componentPayment result DirectionOut AnyNil AnyNil) (\<lambda>_.
     Publish tx result))))))))"

definition payment_Handle ::
  "'a env_scheme payment_use_case \<Rightarrow> event \<Rightarrow> ('a env_scheme, go_error, unit) io" where
  "payment_Handle uc event =
     (if EventType event = EventPaymentCommand then
        (if StatusAtual event \<noteq> StatusPaymentPending
         then failM (Wrapf ''comando de pagamento invalido'' ErrNonRetryable)
         else pay_uow uc (\<lambda>tx. payment_process uc tx event))
      else if EventType event = EventPaymentCompensate then
        (if StatusAtual event \<noteq> StatusPaymentRefundPending
         then failM (Wrapf ''comando de estorno invalido'' ErrNonRetryable)
         else if TransactionID event = ''''
         then failM (Wrapf ''comando de estorno invalido: transaction_id ausente'' ErrNonRetryable)
         else pay_uow uc (\<lambda>tx. payment_refund uc tx event))
      else returnM ())"

section \<open>Inventory\<close>

definition inventory_reserve ::
  "'a env_scheme inventory_use_case \<Rightarrow> 'a env_scheme saga_tx \<Rightarrow> event \<Rightarrow>
     ('a env_scheme, go_error, unit) io" where
  "inventory_reserve uc tx event =
     tryM (worker_alreadyProcessed (EventLog tx) componentInventory event) (\<lambda>seen.
     if seen then returnM ()
     else
     tryM (appendLog (EventLog tx) componentInventory event DirectionIn AnyNil AnyNil) (\<lambda>_.
     let requestPayload = AnyMap [(''order_id'', JStr (OrderID event)), (''op'', JStr ''reserve'')] in
     tryM (appendLog (EventLog tx) componentInventory event DirectionGatewayRequest requestPayload
             AnyNil) (\<lambda>_.
     tryM (attemptM (gw_Reserve (inv_gateway uc) (OrderID event))) (\<lambda>answer.
     let responsePayload = (case answer of
           Inr reserved \<Rightarrow> AnyMap [(''reserved'', JBool reserved)]
         | Inl err \<Rightarrow> AnyMap [(''error'', JStr (error_text err))]) in
     tryM (appendLog (EventLog tx) componentInventory event DirectionGatewayResponse AnyNil
             responsePayload) (\<lambda>_.
     tryM NewEventID (\<lambda>eid.
     tryM time_Now (\<lambda>now.
     let result = \<lparr>EventID = eid, OrderID = OrderID event, SagaID = SagaID event,
           TransactionID = '''', StatusAtual = NoStatus, StatusAnterior = StatusAtual event,
           EventType = EventInventoryResult, SchemaVersion = CurrentSchemaVersion,
           CreatedAt = now, Metadata = fmempty\<rparr>;
         result = (case answer of
             Inl err \<Rightarrow> result\<lparr>StatusAtual := StatusRetrying,
               Metadata := fmupd ''erro'' (error_text err) fmempty\<rparr>
           | Inr reserved \<Rightarrow>
               if reserved then result\<lparr>StatusAtual := StatusInventoryReserved\<rparr>
               else result\<lparr>StatusAtual := StatusFailed\<rparr>) in
     tryM (appendLog (EventLog tx) componentInventory result DirectionOut AnyNil AnyNil) (\<lambda>_.
     Publish tx result))))))))"

definition inventory_Handle ::
  "'a env_scheme inventory_use_case \<Rightarrow> event \<Rightarrow> ('a env_scheme, go_error, unit) io" where
  "inventory_Handle uc event =
     (if EventType event \<noteq> EventInventoryCommand then returnM ()
      else if StatusAtual event \<noteq> StatusPaymentApproved
      then failM (Wrapf ''comando de estoque invalido'' ErrNonRetryable)
      else inv_uow uc (\<lambda>tx. inventory_reserve uc tx event))"

section \<open>Notification\<close>

definition notification_notify ::
  "'a env_scheme notification_use_case \<Rightarrow> 'a env_scheme saga_tx \<Rightarrow> event \<Rightarrow>
     ('a env_scheme, go_error, unit) io" where
  "notification_notify uc tx event =
     tryM (worker_alreadyProcessed (EventLog tx) componentNotification event) (\<lambda>seen.
     if seen then returnM ()
     else
     tryM (appendLog (EventLog tx) componentNotification event DirectionIn AnyNil AnyNil) (\<lambda>_.
     let requestPayload = AnyMap [(''order_id'', JStr (OrderID event)), (''op'', JStr ''notify'')] in
     tryM (appendLog (EventLog tx) componentNotification event DirectionGatewayRequest requestPayload
             AnyNil) (\<lambda>_.
     tryM (attemptM (gw_Notify (ntf_gateway uc) (OrderID event))) (\<lambda>answer.
     let responsePayload = (case answer of
           Inr sent \<Rightarrow> AnyMap [(''sent'', JBool sent)]
         | Inl err \<Rightarrow> AnyMap [(''error'', JStr (error_text err))]) in
     tryM (appendLog (EventLog tx) componentNotification event DirectionGatewayResponse AnyNil
             responsePayload) (\<lambda>_.
     tryM NewEventID (\<lambda>eid.
     tryM time_Now (\<lambda>now.
     let result = \<lparr>EventID = eid, OrderID = OrderID event, SagaID = SagaID event,
           TransactionID = '''', StatusAtual = NoStatus, StatusAnterior = StatusAtual event,
           EventType = EventNotificationResult, SchemaVersion = CurrentSchemaVersion,
           CreatedAt = now, Metadata = fmempty\<rparr>;
         result = (case answer of
             Inl err \<Rightarrow> result\<lparr>StatusAtual := StatusRetrying,
               Metadata := fmupd ''erro'' (error_text err) fmempty\<rparr>
           | Inr sent \<Rightarrow>
               if sent then result\<lparr>StatusAtual := StatusNotified\<rparr>
               else result\<lparr>StatusAtual := StatusFailed\<rparr>) in
     tryM (appendLog (EventLog tx) componentNotification result DirectionOut AnyNil AnyNil) (\<lambda>_.
     Publish tx result))))))))"

definition notification_Handle ::
  "'a env_scheme notification_use_case \<Rightarrow> event \<Rightarrow> ('a env_scheme, go_error, unit) io" where
  "notification_Handle uc event =
     (if EventType event \<noteq> EventNotificationCommand then returnM ()
      else if StatusAtual event \<noteq> StatusInventoryReserved
      then failM (Wrapf ''comando de notificacao invalido'' ErrNonRetryable)
      else ntf_uow uc (\<lambda>tx. notification_notify uc tx event))"

section \<open>Coordinator\<close>

text \<open>\<open>CreateOrder\<close> of the coordinator, given the \<open>Publish\<close> of its publisher.\<close>

definition CreateOrder ::
  "(event \<Rightarrow> ('a env_scheme, go_error, unit) io) \<Rightarrow> string \<Rightarrow>
     ('a env_scheme, go_error, unit) io" where
  "CreateOrder publish orderID =
     tryM NewEventID (\<lambda>eid.
     tryM time_Now (\<lambda>now.
     publish \<lparr>EventID = eid, OrderID = orderID, SagaID = orderID, TransactionID = '''',
       StatusAtual = StatusPending, StatusAnterior = NoStatus, EventType = EventOrderCreated,
       SchemaVersion = CurrentSchemaVersion, CreatedAt = now, Metadata = fmempty\<rparr>))"

end
