(* ===== verification/WorkersRefines.thy ===== *)
theory WorkersRefines
  imports Workers
begin

text \<open>
  What a worker does, once for all four commands: \<open>worker_step\<close> is the common shape of the
  transactions of theory Workers, and \<open>worker_effect\<close> its effect on the abstract store for a given
  answer of the gateway. The gateway enters through the locale \<open>gateway_contract\<close>.
\<close>

section \<open>The common shape\<close>

definition worker_step ::
  "'a env_scheme saga_tx \<Rightarrow> string \<Rightarrow> event \<Rightarrow> any_value \<Rightarrow> ('a env_scheme, go_error, 'r) io \<Rightarrow>
     (go_error + 'r \<Rightarrow> any_value) \<Rightarrow> (string \<Rightarrow> int \<Rightarrow> go_error + 'r \<Rightarrow> event) \<Rightarrow>
     ('a env_scheme, go_error, unit) io" where
  "worker_step tx who e req call resp result =
     tryM (worker_alreadyProcessed (EventLog tx) who e) (\<lambda>seen.
     if seen then returnM ()
     else
     tryM (appendLog (EventLog tx) who e DirectionIn AnyNil AnyNil) (\<lambda>_.
     tryM (appendLog (EventLog tx) who e DirectionGatewayRequest req AnyNil) (\<lambda>_.
     tryM (attemptM call) (\<lambda>answer.
     tryM (appendLog (EventLog tx) who e DirectionGatewayResponse AnyNil (resp answer)) (\<lambda>_.
     tryM NewEventID (\<lambda>eid.
     tryM time_Now (\<lambda>now.
     tryM (appendLog (EventLog tx) who (result eid now answer) DirectionOut AnyNil AnyNil) (\<lambda>_.
     Publish tx (result eid now answer)))))))))"

definition worker_entry :: "string \<Rightarrow> event \<Rightarrow> direction \<Rightarrow> any_value \<Rightarrow> any_value \<Rightarrow> event_log_entry" where
  "worker_entry who e dir req resp =
     \<lparr>le_OrderID = OrderID e, le_SagaID = SagaID e, le_EventID = EventID e,
      le_EventType = EventType e, le_Component = who, le_Direction = dir,
      le_StatusAnterior = StatusAnterior e, le_StatusAtual = StatusAtual e,
      le_Payload = AnyEvent e, le_RequestPayload = req, le_ResponsePayload = resp\<rparr>"

definition worker_effect ::
  "string \<Rightarrow> event \<Rightarrow> any_value \<Rightarrow> any_value \<Rightarrow> event \<Rightarrow> abs_db \<Rightarrow> abs_db" where
  "worker_effect who e req resp out d =
     abs_publish out
       (abs_append (worker_entry who out DirectionOut AnyNil AnyNil)
         (abs_append (worker_entry who e DirectionGatewayResponse AnyNil resp)
           (abs_append (worker_entry who e DirectionGatewayRequest req AnyNil)
             (abs_append (worker_entry who e DirectionIn AnyNil AnyNil) d))))"

section \<open>The four commands as instances\<close>

text \<open>The result of a step: its type, its status for a good answer, and its transaction.\<close>

definition result_of ::
  "event \<Rightarrow> event_type \<Rightarrow> order_status \<Rightarrow> string \<Rightarrow> string \<Rightarrow> string \<Rightarrow> int \<Rightarrow> go_error + bool \<Rightarrow> event" where
  "result_of e t ok tid tid_ok eid now answer =
     \<lparr>EventID = eid, OrderID = OrderID e, SagaID = SagaID e,
      TransactionID = (if answer = Inr True then tid_ok else tid),
      StatusAtual = (case answer of Inl _ \<Rightarrow> StatusRetrying | Inr b \<Rightarrow> if b then ok else StatusFailed),
      StatusAnterior = StatusAtual e, EventType = t, SchemaVersion = CurrentSchemaVersion,
      CreatedAt = now,
      Metadata = (case answer of Inl err \<Rightarrow> fmupd ''erro'' (error_text err) fmempty
        | Inr _ \<Rightarrow> fmempty)\<rparr>"

definition yes_no :: "string \<Rightarrow> go_error + bool \<Rightarrow> any_value" where
  "yes_no k answer = (case answer of Inr b \<Rightarrow> AnyMap [(k, JBool b)]
     | Inl err \<Rightarrow> AnyMap [(''error'', JStr (error_text err))])"

definition process_answer :: "go_error + (bool \<times> string) \<Rightarrow> any_value" where
  "process_answer answer = (case answer of
       Inr (approved, txID) \<Rightarrow> AnyMap [(''approved'', JBool approved), (''transaction_id'', JStr txID)]
     | Inl err \<Rightarrow> AnyMap [(''error'', JStr (error_text err))])"

definition process_result :: "event \<Rightarrow> string \<Rightarrow> int \<Rightarrow> go_error + (bool \<times> string) \<Rightarrow> event" where
  "process_result e eid now answer =
     result_of e EventPaymentResult StatusPaymentApproved ''''
       (case answer of Inr (_, txID) \<Rightarrow> txID | _ \<Rightarrow> '''') eid now (map_sum id fst answer)"

definition refund_result :: "event \<Rightarrow> string \<Rightarrow> int \<Rightarrow> go_error + bool \<Rightarrow> event" where
  "refund_result e = result_of e EventPaymentCompensateResult StatusPaymentRefunded
     (TransactionID e) (TransactionID e)"

definition reserve_result :: "event \<Rightarrow> string \<Rightarrow> int \<Rightarrow> go_error + bool \<Rightarrow> event" where
  "reserve_result e = result_of e EventInventoryResult StatusInventoryReserved '''' ''''"

definition notify_result :: "event \<Rightarrow> string \<Rightarrow> int \<Rightarrow> go_error + bool \<Rightarrow> event" where
  "notify_result e = result_of e EventNotificationResult StatusNotified '''' ''''"

lemmas result_defs = process_result_def refund_result_def reserve_result_def notify_result_def

lemma result_of_simps [simp]:
  "EventID (result_of e t ok tid tid_ok eid now answer) = eid"
  "EventType (result_of e t ok tid tid_ok eid now answer) = t"
  "OrderID (result_of e t ok tid tid_ok eid now answer) = OrderID e"
  by (simp_all add: result_of_def)

lemma tryM_cong: "(\<And>x. f x = g x) \<Longrightarrow> tryM m f = tryM m g"
  by presburger

lemma payment_process_eq:
  "payment_process uc tx e = worker_step tx componentPayment e
     (AnyMap [(''order_id'', JStr (OrderID e)), (''op'', JStr ''process'')])
     (gw_Process (pay_gateway uc) (OrderID e)) process_answer (process_result e)"
proof -
  have "process_result e eid now answer =
      (let result = \<lparr>EventID = eid, OrderID = OrderID e, SagaID = SagaID e,
           TransactionID = '''', StatusAtual = NoStatus, StatusAnterior = StatusAtual e,
           EventType = EventPaymentResult, SchemaVersion = CurrentSchemaVersion,
           CreatedAt = now, Metadata = fmempty\<rparr> in
         (case answer of
             Inl err \<Rightarrow> result\<lparr>StatusAtual := StatusRetrying,
               Metadata := fmupd ''erro'' (error_text err) fmempty\<rparr>
           | Inr (approved, txID) \<Rightarrow>
               if approved
               then result\<lparr>StatusAtual := StatusPaymentApproved, TransactionID := txID\<rparr>
               else result\<lparr>StatusAtual := StatusFailed\<rparr>))" for eid now answer
    by (auto simp: process_result_def result_of_def split: sum.splits)
  then show ?thesis
    by (simp only: payment_process_def worker_step_def process_answer_def Let_def)
qed

lemma payment_refund_eq:
  "payment_refund uc tx e = worker_step tx componentPayment e
     (AnyMap [(''order_id'', JStr (OrderID e)), (''op'', JStr ''refund''),
        (''transaction_id'', JStr (TransactionID e))])
     (gw_Refund (pay_gateway uc) (OrderID e) (TransactionID e)) (yes_no ''refunded'')
     (refund_result e)"
proof -
  have "refund_result e eid now answer =
      (let result = \<lparr>EventID = eid, OrderID = OrderID e, SagaID = SagaID e,
           TransactionID = TransactionID e, StatusAtual = NoStatus, StatusAnterior = StatusAtual e,
           EventType = EventPaymentCompensateResult, SchemaVersion = CurrentSchemaVersion,
           CreatedAt = now, Metadata = fmempty\<rparr> in
         (case answer of
             Inl err \<Rightarrow> result\<lparr>StatusAtual := StatusRetrying,
               Metadata := fmupd ''erro'' (error_text err) fmempty\<rparr>
           | Inr refunded \<Rightarrow>
               if refunded then result\<lparr>StatusAtual := StatusPaymentRefunded\<rparr>
               else result\<lparr>StatusAtual := StatusFailed\<rparr>))" for eid now answer
    by (auto simp: refund_result_def result_of_def split: sum.splits)
  then show ?thesis
    by (simp only: payment_refund_def worker_step_def yes_no_def Let_def)
qed

lemma inventory_reserve_eq:
  "inventory_reserve uc tx e = worker_step tx componentInventory e
     (AnyMap [(''order_id'', JStr (OrderID e)), (''op'', JStr ''reserve'')])
     (gw_Reserve (inv_gateway uc) (OrderID e)) (yes_no ''reserved'') (reserve_result e)"
proof -
  have "reserve_result e eid now answer =
      (let result = \<lparr>EventID = eid, OrderID = OrderID e, SagaID = SagaID e,
           TransactionID = '''', StatusAtual = NoStatus, StatusAnterior = StatusAtual e,
           EventType = EventInventoryResult, SchemaVersion = CurrentSchemaVersion,
           CreatedAt = now, Metadata = fmempty\<rparr> in
         (case answer of
             Inl err \<Rightarrow> result\<lparr>StatusAtual := StatusRetrying,
               Metadata := fmupd ''erro'' (error_text err) fmempty\<rparr>
           | Inr reserved \<Rightarrow>
               if reserved then result\<lparr>StatusAtual := StatusInventoryReserved\<rparr>
               else result\<lparr>StatusAtual := StatusFailed\<rparr>))" for eid now answer
    by (auto simp: reserve_result_def result_of_def split: sum.splits)
  then show ?thesis
    by (simp only: inventory_reserve_def worker_step_def yes_no_def Let_def)
qed

lemma notification_notify_eq:
  "notification_notify uc tx e = worker_step tx componentNotification e
     (AnyMap [(''order_id'', JStr (OrderID e)), (''op'', JStr ''notify'')])
     (gw_Notify (ntf_gateway uc) (OrderID e)) (yes_no ''sent'') (notify_result e)"
proof -
  have "notify_result e eid now answer =
      (let result = \<lparr>EventID = eid, OrderID = OrderID e, SagaID = SagaID e,
           TransactionID = '''', StatusAtual = NoStatus, StatusAnterior = StatusAtual e,
           EventType = EventNotificationResult, SchemaVersion = CurrentSchemaVersion,
           CreatedAt = now, Metadata = fmempty\<rparr> in
         (case answer of
             Inl err \<Rightarrow> result\<lparr>StatusAtual := StatusRetrying,
               Metadata := fmupd ''erro'' (error_text err) fmempty\<rparr>
           | Inr sent \<Rightarrow>
               if sent then result\<lparr>StatusAtual := StatusNotified\<rparr>
               else result\<lparr>StatusAtual := StatusFailed\<rparr>))" for eid now answer
    by (auto simp: notify_result_def result_of_def split: sum.splits)
  then show ?thesis
    by (simp only: notification_notify_def worker_step_def yes_no_def Let_def)
qed

section \<open>The contract of a gateway call\<close>

text \<open>
  The call may answer anything and take any time; it leaves the transaction alone and reaches the
  gateway of its stage at most once for its order (a circuit breaker may keep it from it).
\<close>

definition at_most_one_call :: "string \<Rightarrow> string \<Rightarrow> 'a env_scheme \<Rightarrow> 'a env_scheme \<Rightarrow> bool" where
  "at_most_one_call stg oid w v \<longleftrightarrow> attempts v = attempts w \<or>
     attempts v = (attempts w)(stg := (attempts w stg)(oid := attempts w stg oid + 1))"

locale gateway_contract = saga_tx_contract tx log view healthy
  for tx :: "'a env_scheme saga_tx"
    and log :: "'a env_scheme event_log"
    and view :: "'a env_scheme \<Rightarrow> abs_db"
    and healthy :: "'a env_scheme \<Rightarrow> bool" +
  fixes call :: "('a env_scheme, go_error, 'r) io"
    and stg oid :: string
  assumes call_contract:
    "wpM (attemptM call)
       (\<lambda>_ v. view v = view w \<and> env_advances w v \<and> drawn v = drawn w \<and>
          (healthy w \<longrightarrow> healthy v) \<and> at_most_one_call stg oid w v)
       (\<lambda>_ _. False) w"
begin

lemma call_rule:
  assumes "\<And>v. view v = view w \<Longrightarrow> env_advances w v \<Longrightarrow> drawn v = drawn w \<Longrightarrow>
      (healthy w \<longrightarrow> healthy v) \<Longrightarrow> at_most_one_call stg oid w v \<Longrightarrow> Q (fst (call w)) v"
  shows "wpM (attemptM call) Q E w"
proof -
  have "wpM (attemptM call) (\<lambda>x v. x = fst (call w)) (\<lambda>_ _. False) w"
    by (simp add: wpM_def attemptM_def split: prod.splits)
  from wpM_conj [OF this call_contract] show ?thesis
    by (rule wpM_conseq) (auto intro: assms)
qed

lemma appendLog_rule:
  assumes "\<And>v. view v = abs_append (worker_entry who e dir req resp) (view w) \<Longrightarrow> same_env w v \<Longrightarrow>
      (healthy w \<longrightarrow> healthy v) \<Longrightarrow> Q () v"
    and "\<And>e v. same_env w v \<Longrightarrow> transient e \<Longrightarrow> \<not> healthy w \<Longrightarrow> E e v"
  shows "wpM (appendLog (EventLog tx) who e dir req resp) Q E w"
  unfolding appendLog_def log_present option.case worker_entry_def [symmetric]
  by (rule append_rule) (auto intro: assms)

lemma worker_alreadyProcessed_rule:
  assumes "\<And>v. view v = view w \<Longrightarrow> same_env w v \<Longrightarrow> (healthy w \<longrightarrow> healthy v) \<Longrightarrow>
      Q (abs_has (EventID e) who (view w)) v"
    and "\<And>e v. same_env w v \<Longrightarrow> transient e \<Longrightarrow> \<not> healthy w \<Longrightarrow> E e v"
  shows "wpM (worker_alreadyProcessed (EventLog tx) who e) Q E w"
  unfolding worker_alreadyProcessed_def log_present option.case
  by (rule has_rule) (auto intro: assms)

text \<open>The tail of the step, once the gateway has answered.\<close>

lemma worker_tail:
  assumes topic: "\<And>eid now. TopicForEventType (EventType (result eid now answer)) = Some topic"
  shows "wpM (tryM (appendLog (EventLog tx) who e DirectionGatewayResponse AnyNil (resp answer)) (\<lambda>_.
       tryM NewEventID (\<lambda>eid. tryM time_Now (\<lambda>now.
       tryM (appendLog (EventLog tx) who (result eid now answer) DirectionOut AnyNil AnyNil) (\<lambda>_.
       Publish tx (result eid now answer))))))
     (\<lambda>_ v. view v = (let out = result (event_id_at (entropy w) (drawn w)) (clock w (ticks w)) answer in
          abs_publish out (abs_append (worker_entry who out DirectionOut AnyNil AnyNil)
            (abs_append (worker_entry who e DirectionGatewayResponse AnyNil (resp answer)) (view w)))) \<and>
        env_advances w v \<and> drawn v = Suc (drawn w) \<and> attempts v = attempts w \<and>
        (healthy w \<longrightarrow> healthy v))
     (\<lambda>err v. env_advances w v \<and> attempts v = attempts w \<and> transient err \<and> \<not> healthy w) w"
  unfolding wpM_tryM [of "appendLog _ _ e _ _ _"]
proof (rule appendLog_rule, goal_cases)
  case (1 v)
  let ?out = "result (event_id_at (entropy v) (drawn v)) (clock v (ticks v)) answer"
  show ?case
    unfolding wpM_stamp unfolding wpM_tryM
  proof (rule appendLog_rule, goal_cases)
    case (1 u)
    show ?case
      by (rule publish_rule [OF topic])
        (use 1 \<open>view v = _\<close> \<open>same_env w v\<close> \<open>healthy w \<longrightarrow> healthy v\<close> in
          \<open>auto simp: same_env_def env_advances_def env_simps Let_def\<close>)
  qed (use 1 in \<open>auto simp: same_env_def env_advances_def env_simps\<close>)
qed (auto simp: same_env_def env_advances_def)

end

section \<open>The step implements its specification\<close>

text \<open>
  How a worker ends: a command seen before is skipped without a call; else the store is the
  effect of one answer of the gateway. A failure is the infrastructure's.
\<close>

definition worked ::
  "('a env_scheme \<Rightarrow> abs_db) \<Rightarrow> string \<Rightarrow> event \<Rightarrow> any_value \<Rightarrow> ('a env_scheme, go_error, 'r) io \<Rightarrow>
     (go_error + 'r \<Rightarrow> any_value) \<Rightarrow> (string \<Rightarrow> int \<Rightarrow> go_error + 'r \<Rightarrow> event) \<Rightarrow>
     'a env_scheme \<Rightarrow> 'a env_scheme \<Rightarrow> bool" where
  "worked view who e req call resp result w v \<longleftrightarrow>
     (if abs_has (EventID e) who (view w) then view v = view w \<and> attempts v = attempts w
      else \<exists>u now. view v = worker_effect who e req (resp (fst (call u)))
          (result (event_id_at (entropy w) (drawn w)) now (fst (call u))) (view w) \<and>
        drawn v = Suc (drawn w))"

context gateway_contract
begin

lemma worker_step_rule:
  assumes topic: "\<And>eid now r. TopicForEventType (EventType (result eid now r)) = Some topic"
  shows "wpM (worker_step tx who e req call resp result)
     (\<lambda>_ v. worked view who e req call resp result w v \<and> env_advances w v \<and>
        at_most_one_call stg oid w v \<and> (healthy w \<longrightarrow> healthy v))
     (\<lambda>err v. env_advances w v \<and> at_most_one_call stg oid w v \<and> transient err \<and> \<not> healthy w) w"
proof (cases "abs_has (EventID e) who (view w)")
  case True
  show ?thesis
    unfolding worker_step_def wpM_tryM
    by (rule worker_alreadyProcessed_rule)
      (auto simp: True worked_def wpM_returnM same_env_def env_advances_def at_most_one_call_def)
next
  case fresh: False
  show ?thesis
    unfolding worker_step_def wpM_tryM [of "worker_alreadyProcessed _ _ _"]
  proof (rule worker_alreadyProcessed_rule, goal_cases)
    case (1 v1)
    note v1 = 1
    show ?case
      unfolding if_not_P [OF fresh] wpM_tryM [of "appendLog _ _ _ DirectionIn _ _"]
    proof (rule appendLog_rule, goal_cases)
      case (1 v2)
      note v2 = 1
      show ?case
        unfolding wpM_tryM [of "appendLog _ _ _ DirectionGatewayRequest _ _"]
      proof (rule appendLog_rule, goal_cases)
        case (1 v3)
        note v3 = 1
        have w3: "same_env w v3" "healthy w \<longrightarrow> healthy v3"
          "view v3 = abs_append (worker_entry who e DirectionGatewayRequest req AnyNil)
             (abs_append (worker_entry who e DirectionIn AnyNil AnyNil) (view w))"
          using v1 v2 v3 by (auto simp: same_env_def)
        show ?case
          unfolding wpM_tryM [of "attemptM call"]
        proof (rule call_rule, goal_cases)
          case (1 v4)
          have v4: "attempts v4 = attempts w \<or>
              attempts v4 = (attempts w)(stg := (attempts w stg)(oid := attempts w stg oid + 1))"
            "entropy v4 = entropy w" "clock v4 = clock w" "drawn v4 = drawn w" "ticks w \<le> ticks v4"
            "healthy w \<longrightarrow> healthy v4" "view v4 = view v3"
            using w3(1,2) 1
            by (auto simp: at_most_one_call_def same_env_def env_advances_def)
          show ?case
          proof (rule wpM_conseq [OF worker_tail [where result = result and topic = topic, OF topic]], goal_cases)
            case (1 x v5)
            then show ?case
              using v4 w3(3) fresh
              by (auto simp: worked_def worker_effect_def env_advances_def at_most_one_call_def Let_def)
          next
            case (2 er v5)
            then show ?case
              using v4 by (auto simp: env_advances_def at_most_one_call_def)
          qed
        qed
      next
        case (2 er v3)
        then show ?case
          using v1 v2 by (auto simp: same_env_def env_advances_def at_most_one_call_def)
      qed
    next
      case (2 er v2)
      then show ?case
        using v1 by (auto simp: same_env_def env_advances_def at_most_one_call_def)
    qed
  qed (auto simp: same_env_def env_advances_def at_most_one_call_def)
qed

end

section \<open>Through the unit of work\<close>

definition work_failed ::
  "('a env_scheme \<Rightarrow> abs_db) \<Rightarrow> ('a env_scheme \<Rightarrow> bool) \<Rightarrow> string \<Rightarrow> string \<Rightarrow> bool \<Rightarrow>
     'a env_scheme \<Rightarrow> go_error \<Rightarrow> 'a env_scheme \<Rightarrow> bool" where
  "work_failed view healthy stg oid effect w err v \<longleftrightarrow> env_advances w v \<and>
     at_most_one_call stg oid w v \<and> transient err \<and> \<not> healthy w \<and> (view v = view w \<or> effect)"

lemma worked_frame:
  assumes "worked view who e req call resp result u v0"
    and "view u = view w" "same_env w u" "view v = view v0" "same_env v0 v"
  shows "worked view who e req call resp result w v"
  using assms by (auto simp: worked_def same_env_def split: if_splits)

lemma at_most_one_call_frame:
  "at_most_one_call stg oid u v0 \<Longrightarrow> same_env w u \<Longrightarrow> same_env v0 v \<Longrightarrow> at_most_one_call stg oid w v"
  by (simp add: at_most_one_call_def same_env_def)

lemma env_advances_frame:
  "env_advances u v0 \<Longrightarrow> same_env w u \<Longrightarrow> same_env v0 v \<Longrightarrow> env_advances w v"
  by (auto simp: env_advances_def same_env_def)

lemma at_most_one_call_refl [simp]: "same_env w v \<Longrightarrow> at_most_one_call stg oid w v"
  by (simp add: at_most_one_call_def same_env_def)

locale worker_contract =
  gateway_contract tx log view healthy call stg oid + saga_uow_contract tx log view healthy with_tx
  for tx :: "'a env_scheme saga_tx"
    and log :: "'a env_scheme event_log"
    and view :: "'a env_scheme \<Rightarrow> abs_db"
    and healthy :: "'a env_scheme \<Rightarrow> bool"
    and call :: "('a env_scheme, go_error, 'r) io"
    and stg oid :: string
    and with_tx :: "'a env_scheme unit_of_work"
begin

lemma with_tx_worker:
  assumes topic: "\<And>eid now r. TopicForEventType (EventType (result eid now r)) = Some topic"
  shows "wpM (with_tx (\<lambda>tx. worker_step tx who e req call resp result))
     (\<lambda>_ v. worked view who e req call resp result w v \<and> env_advances w v \<and>
        at_most_one_call stg oid w v \<and> (healthy w \<longrightarrow> healthy v))
     (\<lambda>err v. work_failed view healthy stg oid (worked view who e req call resp result w v) w err v) w"
proof -
  let ?R = "\<lambda>u _ v. worked view who e req call resp result u v \<and> env_advances u v \<and>
        at_most_one_call stg oid u v \<and> (healthy u \<longrightarrow> healthy v)"
  let ?S = "\<lambda>u err v. env_advances u v \<and> at_most_one_call stg oid u v \<and> transient err \<and> \<not> healthy u"
  show ?thesis
  proof (rule wpM_conseq [OF with_tx_contract [where w = w and R = ?R and S = ?S]], goal_cases)
    case (1 u)
    show ?case
      by (rule worker_step_rule [where topic = topic, OF topic])
  next
    case (2 x v)
    then show ?case
      by (auto intro: worked_frame at_most_one_call_frame env_advances_frame)
  next
    case (3 err v)
    then show ?case
      by (auto simp: work_failed_def
          intro: worked_frame at_most_one_call_frame env_advances_frame same_env_advances)
  qed
qed

end

end
