(* ===== verification/Gateways.thy ===== *)
theory Gateways
  imports Complex_Main WorkersRefines
begin

text \<open>
  The simulated gateways of \<open>internal/infrastructure/external\<close>: scenarios chosen by the order
  id, the hash that seeds a generator per order, and the three simulators with their counters
  (field \<open>attempts\<close> of the world, one counter per stage and order).

  The generator of \<open>math/rand\<close> is a parameter: \<open>f64 seed\<close> is the first \<open>Float64\<close> of the
  generator with that seed, and the rates are the rational values of the \<open>float64\<close> rates.
\<close>

section \<open>Scenarios (scenario.go)\<close>

datatype scenarioMode = scenarioNone | scenarioFail | scenarioRetryOnce | scenarioRetry

definition matchScenario :: "string \<Rightarrow> string \<Rightarrow> scenarioMode" where
  "matchScenario orderID stg =
     (if contains orderID (stg @ ''-fail'') then scenarioFail
      else if contains orderID (stg @ ''-retry-once'') then scenarioRetryOnce
      else if contains orderID (stg @ ''-retry'') then scenarioRetry
      else scenarioNone)"

definition retryError :: "string \<Rightarrow> int \<Rightarrow> go_error" where
  "retryError stg attempt = ErrText
     (''debug scenario for '' @ stg @ '': temporary failure on attempt '' @ itoa attempt)"

section \<open>The seed of an order (rand.go)\<close>

text \<open>FNV-1a on 32 bits, as in \<open>hash/fnv\<close>.\<close>

definition fnv32a_step :: "32 word \<Rightarrow> char \<Rightarrow> 32 word" where
  "fnv32a_step h c = xor h (of_nat (of_char c)) * 16777619"

definition fnv32a :: "string \<Rightarrow> 32 word" where
  "fnv32a s = foldl fnv32a_step 2166136261 s"

definition randForOrder :: "(int \<Rightarrow> rat) \<Rightarrow> string \<Rightarrow> rat" where
  "randForOrder f64 orderID = f64 (uint (fnv32a orderID))"

section \<open>Simulators\<close>

text \<open>\<open>attempts[orderID]++; attempt := attempts[orderID]\<close>\<close>

definition next_attempt :: "string \<Rightarrow> string \<Rightarrow> ('a env_scheme, go_error, int) io" where
  "next_attempt stg orderID w =
     (let n = attempts w stg orderID + 1 in
      (Inr n, w\<lparr>attempts := (attempts w)(stg := (attempts w stg)(orderID := n))\<rparr>))"

definition new_tx :: "string \<Rightarrow> ('a env_scheme, go_error, bool \<times> string) io" where
  "new_tx orderID = tryM time_Now (\<lambda>now. returnM (True, ''tx-'' @ orderID @ ''-'' @ itoa now))"

definition PaymentSimulator_Process ::
  "(int \<Rightarrow> rat) \<Rightarrow> rat \<Rightarrow> string \<Rightarrow> ('a env_scheme, go_error, bool \<times> string) io" where
  "PaymentSimulator_Process f64 approvalRate orderID =
     tryM (next_attempt ''payment'' orderID) (\<lambda>attempt.
     case matchScenario orderID ''payment'' of
       scenarioFail \<Rightarrow> returnM (False, '''')
     | scenarioRetry \<Rightarrow> failM (retryError ''payment'' attempt)
     | scenarioRetryOnce \<Rightarrow>
         if attempt = 1 then failM (retryError ''payment'' attempt) else new_tx orderID
     | scenarioNone \<Rightarrow>
         if randForOrder f64 orderID < approvalRate then new_tx orderID
         else returnM (False, ''''))"

definition PaymentSimulator_Refund ::
  "(int \<Rightarrow> rat) \<Rightarrow> rat \<Rightarrow> string \<Rightarrow> string \<Rightarrow> ('a env_scheme, go_error, bool) io" where
  "PaymentSimulator_Refund f64 approvalRate orderID transactionID =
     tryM (next_attempt ''refund'' orderID) (\<lambda>attempt.
     case matchScenario orderID ''payment'' of
       scenarioFail \<Rightarrow> returnM False
     | scenarioRetry \<Rightarrow> failM (retryError ''refund'' attempt)
     | scenarioRetryOnce \<Rightarrow>
         if attempt = 1 then failM (retryError ''refund'' attempt) else returnM True
     | scenarioNone \<Rightarrow>
         if randForOrder f64 orderID < approvalRate then returnM True else returnM False)"

definition InventorySimulator_Reserve ::
  "(int \<Rightarrow> rat) \<Rightarrow> rat \<Rightarrow> string \<Rightarrow> ('a env_scheme, go_error, bool) io" where
  "InventorySimulator_Reserve f64 reservationRate orderID =
     tryM (next_attempt ''inventory'' orderID) (\<lambda>attempt.
     case matchScenario orderID ''inventory'' of
       scenarioFail \<Rightarrow> returnM False
     | scenarioRetry \<Rightarrow> failM (retryError ''inventory'' attempt)
     | scenarioRetryOnce \<Rightarrow>
         if attempt = 1 then failM (retryError ''inventory'' attempt) else returnM True
     | scenarioNone \<Rightarrow> returnM (randForOrder f64 orderID < reservationRate))"

definition NotificationSimulator_Notify ::
  "(int \<Rightarrow> rat) \<Rightarrow> rat \<Rightarrow> string \<Rightarrow> ('a env_scheme, go_error, bool) io" where
  "NotificationSimulator_Notify f64 deliveryRate orderID =
     tryM (next_attempt ''notification'' orderID) (\<lambda>attempt.
     case matchScenario orderID ''notification'' of
       scenarioFail \<Rightarrow> returnM False
     | scenarioRetry \<Rightarrow> failM (retryError ''notification'' attempt)
     | scenarioRetryOnce \<Rightarrow>
         if attempt = 1 then failM (retryError ''notification'' attempt) else returnM True
     | scenarioNone \<Rightarrow> returnM (randForOrder f64 orderID < deliveryRate))"

definition PaymentSimulator :: "(int \<Rightarrow> rat) \<Rightarrow> rat \<Rightarrow> 'a env_scheme payment_gateway" where
  "PaymentSimulator f64 rate = \<lparr>gw_Process = PaymentSimulator_Process f64 rate,
     gw_Refund = PaymentSimulator_Refund f64 rate\<rparr>"

definition InventorySimulator :: "(int \<Rightarrow> rat) \<Rightarrow> rat \<Rightarrow> 'a env_scheme inventory_gateway" where
  "InventorySimulator f64 rate = \<lparr>gw_Reserve = InventorySimulator_Reserve f64 rate\<rparr>"

definition NotificationSimulator :: "(int \<Rightarrow> rat) \<Rightarrow> rat \<Rightarrow> 'a env_scheme notification_gateway" where
  "NotificationSimulator f64 rate = \<lparr>gw_Notify = NotificationSimulator_Notify f64 rate\<rparr>"

section \<open>The simulators keep the contract of a gateway\<close>

lemma wpM_next_attempt [wp_simps]:
  "wpM (next_attempt stg oid) Q E w = Q (attempts w stg oid + 1)
     (w\<lparr>attempts := (attempts w)(stg := (attempts w stg)(oid := attempts w stg oid + 1))\<rparr>)"
  by (simp add: wpM_def next_attempt_def Let_def)

lemma wpM_new_tx [wp_simps]:
  "wpM (new_tx oid) Q E w = Q (True, ''tx-'' @ oid @ ''-'' @ itoa (clock w (ticks w)))
     (w\<lparr>ticks := Suc (ticks w)\<rparr>)"
  by (simp add: new_tx_def wp_simps)

text \<open>
  A simulator counts one call and may read the clock, and does nothing else: this is the
  obligation of each interpretation, for any store that does not look at the counters.
\<close>

definition one_call :: "string \<Rightarrow> string \<Rightarrow> 'a env_scheme \<Rightarrow> 'a env_scheme \<Rightarrow> bool" where
  "one_call stg oid w v \<longleftrightarrow>
     (\<exists>t \<ge> ticks w. v = w\<lparr>attempts := (attempts w)(stg := (attempts w stg)(oid := attempts w stg oid + 1)),
       ticks := t\<rparr>)"

lemma one_callI:
  assumes "a = (attempts w)(stg := (attempts w stg)(oid := attempts w stg oid + 1))"
  shows "one_call stg oid w (w\<lparr>attempts := a\<rparr>)"
    "one_call stg oid w (w\<lparr>attempts := a, ticks := Suc (ticks w)\<rparr>)"
proof -
  show "one_call stg oid w (w\<lparr>attempts := a\<rparr>)"
    unfolding one_call_def assms by (intro exI [of _ "ticks w"]) simp
  show "one_call stg oid w (w\<lparr>attempts := a, ticks := Suc (ticks w)\<rparr>)"
    unfolding one_call_def assms by (intro exI [of _ "Suc (ticks w)"]) simp
qed

lemma PaymentSimulator_Process_one_call:
  "wpM (attemptM (PaymentSimulator_Process f64 rate oid)) (\<lambda>_. one_call ''payment'' oid w) (\<lambda>_ _. False) w"
  by (cases "matchScenario oid ''payment''") (auto simp: PaymentSimulator_Process_def wp_simps intro!: one_callI)

lemma PaymentSimulator_Refund_one_call:
  "wpM (attemptM (PaymentSimulator_Refund f64 rate oid tid)) (\<lambda>_. one_call ''refund'' oid w) (\<lambda>_ _. False) w"
  by (cases "matchScenario oid ''payment''") (auto simp: PaymentSimulator_Refund_def wp_simps intro!: one_callI)

lemma InventorySimulator_Reserve_one_call:
  "wpM (attemptM (InventorySimulator_Reserve f64 rate oid)) (\<lambda>_. one_call ''inventory'' oid w) (\<lambda>_ _. False) w"
  by (cases "matchScenario oid ''inventory''") (auto simp: InventorySimulator_Reserve_def wp_simps intro!: one_callI)

lemma NotificationSimulator_Notify_one_call:
  "wpM (attemptM (NotificationSimulator_Notify f64 rate oid)) (\<lambda>_. one_call ''notification'' oid w) (\<lambda>_ _. False) w"
  by (cases "matchScenario oid ''notification''") (auto simp: NotificationSimulator_Notify_def wp_simps intro!: one_callI)

section \<open>What the scenarios mean\<close>

lemma matchScenario_fail: "matchScenario (a @ stg @ ''-fail'' @ b) stg = scenarioFail"
  by (auto simp: matchScenario_def contains_iff)

lemma matchScenario_retry_once:
  assumes "\<not> contains oid (stg @ ''-fail'')" and "contains oid (stg @ ''-retry-once'')"
  shows "matchScenario oid stg = scenarioRetryOnce"
  using assms by (simp add: matchScenario_def)

end
