(* ===== verification/WorkersCorrect.thy ===== *)
theory WorkersCorrect
  imports OrchestratorCorrect Gateways
begin

text \<open>
  The workers of \<open>cmd/worker-*\<close> over the Postgres unit of work, for any gateways that keep the
  contract, and the contract of the messages between them and the orchestrator.
\<close>

section \<open>The simulators in production\<close>

text \<open>A gateway that counts one call and may read the clock keeps the contract over Postgres.\<close>

lemma one_call_contract:
  assumes "\<And>w. wpM (attemptM call) (\<lambda>_. one_call stg oid w) (\<lambda>_ _. False) w"
  shows "worker_contract pg_saga_tx pg_event_log pg_view pg_healthy call stg oid WithTx"
proof unfold_locales
  show "wpM (attemptM call)
     (\<lambda>_ v. pg_view v = pg_view w \<and> env_advances w v \<and> drawn v = drawn w \<and>
        (pg_healthy w \<longrightarrow> pg_healthy v) \<and> at_most_one_call stg oid w v) (\<lambda>_ _. False) w" for w
    using assms
    by (rule wpM_conseq)
      (auto simp: one_call_def env_advances_def at_most_one_call_def pg_view_def pg_healthy_def)
qed

interpretation process: worker_contract pg_saga_tx pg_event_log pg_view pg_healthy
  "PaymentSimulator_Process f64 rate oid" "''payment''" oid WithTx for f64 rate oid
  by (rule one_call_contract) (rule PaymentSimulator_Process_one_call)

interpretation refund: worker_contract pg_saga_tx pg_event_log pg_view pg_healthy
  "PaymentSimulator_Refund f64 rate oid tid" "''refund''" oid WithTx for f64 rate oid tid
  by (rule one_call_contract) (rule PaymentSimulator_Refund_one_call)

interpretation reserve: worker_contract pg_saga_tx pg_event_log pg_view pg_healthy
  "InventorySimulator_Reserve f64 rate oid" "''inventory''" oid WithTx for f64 rate oid
  by (rule one_call_contract) (rule InventorySimulator_Reserve_one_call)

interpretation notify: worker_contract pg_saga_tx pg_event_log pg_view pg_healthy
  "NotificationSimulator_Notify f64 rate oid" "''notification''" oid WithTx for f64 rate oid
  by (rule one_call_contract) (rule NotificationSimulator_Notify_one_call)

section \<open>The workers behind their topics\<close>

record 'w gateways =
  payments :: "'w payment_gateway"
  inventory :: "'w inventory_gateway"
  notifications :: "'w notification_gateway"

definition simulators :: "(int \<Rightarrow> rat) \<Rightarrow> 'a pgenv_scheme gateways" where
  "simulators f64 = \<lparr>payments = PaymentSimulator f64 (85 / 100),
     inventory = InventorySimulator f64 (9 / 10),
     notifications = NotificationSimulator f64 (95 / 100)\<rparr>"

text \<open>A command reaches the worker that consumes its topic (the main functions of the workers).\<close>

definition worker_Handle ::
  "'a pgenv_scheme gateways \<Rightarrow> event \<Rightarrow> ('a pgenv_scheme, go_error, unit) io" where
  "worker_Handle g e =
     (case TopicForEventType (EventType e) of
        None \<Rightarrow> returnM ()
      | Some topic \<Rightarrow>
          if topic \<in> set worker_payment_topics
          then payment_Handle \<lparr>pay_gateway = payments g, pay_uow = WithTx\<rparr> e
          else if topic \<in> set worker_inventory_topics
          then inventory_Handle \<lparr>inv_gateway = inventory g, inv_uow = WithTx\<rparr> e
          else if topic \<in> set worker_notification_topics
          then notification_Handle \<lparr>ntf_gateway = notifications g, ntf_uow = WithTx\<rparr> e
          else returnM ())"

definition gateways_ok :: "'a pgenv_scheme gateways \<Rightarrow> bool" where
  "gateways_ok g \<longleftrightarrow>
     (\<forall>oid tid.
        worker_contract pg_saga_tx pg_event_log pg_view pg_healthy
          (gw_Process (payments g) oid) ''payment'' oid WithTx \<and>
        worker_contract pg_saga_tx pg_event_log pg_view pg_healthy
          (gw_Refund (payments g) oid tid) ''refund'' oid WithTx \<and>
        worker_contract pg_saga_tx pg_event_log pg_view pg_healthy
          (gw_Reserve (inventory g) oid) ''inventory'' oid WithTx \<and>
        worker_contract pg_saga_tx pg_event_log pg_view pg_healthy
          (gw_Notify (notifications g) oid) ''notification'' oid WithTx)"

lemma simulators_ok: "gateways_ok (simulators f64)"
  unfolding gateways_ok_def simulators_def PaymentSimulator_def InventorySimulator_def
    NotificationSimulator_def
  by (simp add: process.worker_contract_axioms refund.worker_contract_axioms
      reserve.worker_contract_axioms notify.worker_contract_axioms)

section \<open>Commands and their results\<close>

text \<open>The four commands with the status each must carry, and the result each is answered with.\<close>

definition valid_command :: "event \<Rightarrow> bool" where
  "valid_command e \<longleftrightarrow>
     (EventType e = EventPaymentCommand \<and> StatusAtual e = StatusPaymentPending) \<or>
     (EventType e = EventPaymentCompensate \<and> StatusAtual e = StatusPaymentRefundPending \<and>
        TransactionID e \<noteq> '''') \<or>
     (EventType e = EventInventoryCommand \<and> StatusAtual e = StatusPaymentApproved) \<or>
     (EventType e = EventNotificationCommand \<and> StatusAtual e = StatusInventoryReserved)"

fun worker_of :: "event_type \<Rightarrow> string" where
  "worker_of EventInventoryCommand = componentInventory"
| "worker_of EventNotificationCommand = componentNotification"
| "worker_of _ = componentPayment"

fun result_type :: "event_type \<Rightarrow> event_type" where
  "result_type EventPaymentCommand = EventPaymentResult"
| "result_type EventPaymentCompensate = EventPaymentCompensateResult"
| "result_type EventInventoryCommand = EventInventoryResult"
| "result_type EventNotificationCommand = EventNotificationResult"
| "result_type t = t"

fun stage_of :: "event_type \<Rightarrow> string" where
  "stage_of EventPaymentCompensate = ''refund''"
| "stage_of EventInventoryCommand = ''inventory''"
| "stage_of EventNotificationCommand = ''notification''"
| "stage_of _ = ''payment''"

text \<open>\<open>out\<close> is a result for command \<open>e\<close>: of its type and order, and with a status that fits.\<close>

definition answers :: "event \<Rightarrow> event \<Rightarrow> bool" where
  "answers e out \<longleftrightarrow> EventType out = result_type (EventType e) \<and> OrderID out = OrderID e \<and>
     SagaID out = SagaID e \<and> StatusAnterior out = StatusAtual e \<and> SchemaVersion out = 1 \<and>
     validateResultStatus (EventType out) (StatusAtual out) = Inr ()"

definition command_done :: "event \<Rightarrow> 'a pgenv_scheme \<Rightarrow> 'a pgenv_scheme \<Rightarrow> bool" where
  "command_done e w v \<longleftrightarrow>
     (if abs_has (EventID e) (worker_of (EventType e)) (pg_view w)
      then pg_view v = pg_view w \<and> attempts v = attempts w
      else \<exists>req resp out. answers e out \<and> EventID out = event_id_at (entropy w) (drawn w) \<and>
        drawn v = Suc (drawn w) \<and>
        pg_view v = worker_effect (worker_of (EventType e)) e req resp out (pg_view w))"

lemma worked_command_done:
  assumes "worked pg_view (worker_of (EventType e)) e req call resp result w v"
    and "\<And>eid now r. answers e (result eid now r) \<and> EventID (result eid now r) = eid"
  shows "command_done e w v"
  using assms unfolding worked_def command_done_def by (auto split: if_splits) blast

lemma answers_result_of:
  assumes "valid_command e" and "t = result_type (EventType e)"
    and "validateResultStatus t ok = Inr ()"
  shows "answers e (result_of e t ok tid tid_ok eid now answer)"
proof -
  have "validateResultStatus t StatusRetrying = Inr ()" "validateResultStatus t StatusFailed = Inr ()"
    using assms(1,2) by (auto simp: valid_command_def validateResultStatus_def)
  with assms(2,3) show ?thesis
    by (auto simp: answers_def result_of_def CurrentSchemaVersion_def split: sum.splits)
qed

lemma worker_run:
  assumes contract: "worker_contract pg_saga_tx pg_event_log pg_view pg_healthy call
      (stage_of (EventType e)) (OrderID e) WithTx"
    and "valid_command e"
    and result: "\<And>eid now r. answers e (result eid now r) \<and> EventID (result eid now r) = eid"
  shows "wpM (WithTx (\<lambda>tx. worker_step tx (worker_of (EventType e)) e req call resp result))
     (\<lambda>_ v. command_done e w v \<and> env_advances w v \<and>
        at_most_one_call (stage_of (EventType e)) (OrderID e) w v \<and> (pg_healthy w \<longrightarrow> pg_healthy v))
     (\<lambda>err v. work_failed pg_view pg_healthy (stage_of (EventType e)) (OrderID e)
        (command_done e w v) w err v) w"
proof -
  obtain topic where "TopicForEventType (result_type (EventType e)) = Some topic"
    using assms(2) by (auto simp: valid_command_def)
  then have topic: "\<And>eid now r. TopicForEventType (EventType (result eid now r)) = Some topic"
    using result by (simp add: answers_def)
  have effect: "command_done e w v"
    if "worked pg_view (worker_of (EventType e)) e req call resp result w v" for v
    using that result by (rule worked_command_done)
  show ?thesis
    using worker_contract.with_tx_worker [OF contract, OF topic]
    by (rule wpM_conseq) (use effect in \<open>auto simp: work_failed_def\<close>)
qed

lemma result_ids:
  "valid_command e \<Longrightarrow> EventType e = EventPaymentCommand \<Longrightarrow>
     answers e (process_result e eid now r) \<and> EventID (process_result e eid now r) = eid"
  "valid_command e \<Longrightarrow> EventType e = EventPaymentCompensate \<Longrightarrow>
     answers e (refund_result e eid now r') \<and> EventID (refund_result e eid now r') = eid"
  "valid_command e \<Longrightarrow> EventType e = EventInventoryCommand \<Longrightarrow>
     answers e (reserve_result e eid now r') \<and> EventID (reserve_result e eid now r') = eid"
  "valid_command e \<Longrightarrow> EventType e = EventNotificationCommand \<Longrightarrow>
     answers e (notify_result e eid now r') \<and> EventID (notify_result e eid now r') = eid"
  by (auto simp: result_defs validateResultStatus_def intro!: answers_result_of)

lemma worker_topics:
  "TopicPaymentCommand \<in> set worker_payment_topics"
  "TopicInventoryCommand \<notin> set worker_payment_topics"
  "TopicInventoryCommand \<in> set worker_inventory_topics"
  "TopicNotificationCommand \<notin> set worker_payment_topics"
  "TopicNotificationCommand \<notin> set worker_inventory_topics"
  "TopicNotificationCommand \<in> set worker_notification_topics"
  by (simp_all add: worker_payment_topics_def worker_inventory_topics_def
      worker_notification_topics_def topic_defs)

lemma worker_Handle_wp:
  assumes "gateways_ok g" and "valid_command e"
  shows "wpM (worker_Handle g e)
     (\<lambda>_ v. command_done e w v \<and> env_advances w v \<and>
        at_most_one_call (stage_of (EventType e)) (OrderID e) w v \<and> (pg_healthy w \<longrightarrow> pg_healthy v))
     (\<lambda>err v. work_failed pg_view pg_healthy (stage_of (EventType e)) (OrderID e)
        (command_done e w v) w err v) w"
proof -
  note contract = assms(1) [unfolded gateways_ok_def, rule_format]
  note run = worker_run [OF _ assms(2)]
  from assms(2) consider
      "EventType e = EventPaymentCommand" "StatusAtual e = StatusPaymentPending"
    | "EventType e = EventPaymentCompensate" "StatusAtual e = StatusPaymentRefundPending"
      "TransactionID e \<noteq> ''''"
    | "EventType e = EventInventoryCommand" "StatusAtual e = StatusPaymentApproved"
    | "EventType e = EventNotificationCommand" "StatusAtual e = StatusInventoryReserved"
    by (auto simp: valid_command_def)
  then show ?thesis
  proof cases
    case 1
    show ?thesis
      using run [of "gw_Process (payments g) (OrderID e)" "process_result e"]
        contract [of "OrderID e"] result_ids(1) [OF assms(2)] 1
      by (simp add: worker_Handle_def worker_topics payment_Handle_def payment_process_eq)
  next
    case 2
    show ?thesis
      using run [of "gw_Refund (payments g) (OrderID e) (TransactionID e)" "refund_result e"]
        contract [of "OrderID e" "TransactionID e"] result_ids(2) [OF assms(2)] 2
      by (simp add: worker_Handle_def worker_topics payment_Handle_def payment_refund_eq)
  next
    case 3
    show ?thesis
      using run [of "gw_Reserve (inventory g) (OrderID e)" "reserve_result e"]
        contract [of "OrderID e"] result_ids(3) [OF assms(2)] 3
      by (simp add: worker_Handle_def worker_topics inventory_Handle_def inventory_reserve_eq)
  next
    case 4
    show ?thesis
      using run [of "gw_Notify (notifications g) (OrderID e)" "notify_result e"]
        contract [of "OrderID e"] result_ids(4) [OF assms(2)] 4
      by (simp add: worker_Handle_def worker_topics notification_Handle_def notification_notify_eq)
  qed
qed

section \<open>Properties\<close>


definition pay_order :: event where
  "pay_order = outgoing ''c1'' 7 ''o'' EventPaymentCommand StatusPending StatusPaymentPending '''' fmempty"


text \<open>An event that is no valid command is ignored or rejected, with no effect at all.\<close>

lemma worker_Handle_invalid:
  assumes "\<not> valid_command e"
  shows "worker_Handle g e = returnM () \<or> (\<exists>c. worker_Handle g e = failM (Wrapf c ErrNonRetryable))"
  using assms
  by (cases "EventType e")
    (auto simp: worker_Handle_def worker_payment_topics_def worker_inventory_topics_def
      worker_notification_topics_def topic_defs payment_Handle_def inventory_Handle_def
      notification_Handle_def valid_command_def)

text \<open>
  A worker acts on nothing but its commands: an event of another type is ignored, and a
  command with a status that does not fit, or a refund without a transaction, is rejected with an
  error for the dead-letter topic; either way no gateway is called and nothing is stored.
\<close>

theorem workers_ignore_or_reject_the_rest:
  assumes "\<not> valid_command e"
  shows "worker_Handle g e w =
    (if TopicForEventType (EventType e) \<in> Some ` {TopicPaymentCommand, TopicInventoryCommand,
        TopicNotificationCommand}
     then (Inl (case EventType e of
         EventPaymentCommand \<Rightarrow> Wrapf ''comando de pagamento invalido'' ErrNonRetryable
       | EventInventoryCommand \<Rightarrow> Wrapf ''comando de estoque invalido'' ErrNonRetryable
       | EventNotificationCommand \<Rightarrow> Wrapf ''comando de notificacao invalido'' ErrNonRetryable
       | _ \<Rightarrow> Wrapf (if StatusAtual e = StatusPaymentRefundPending
             then ''comando de estorno invalido: transaction_id ausente''
             else ''comando de estorno invalido'') ErrNonRetryable), w)
     else (Inr (), w))"
  using assms
  by (cases "EventType e")
    (auto simp: worker_Handle_def worker_payment_topics_def worker_inventory_topics_def
      worker_notification_topics_def topic_defs payment_Handle_def inventory_Handle_def
      notification_Handle_def valid_command_def)

lemma workers_ignore_or_reject_the_rest_witness:
  "worker_Handle (simulators (\<lambda>_. 0)) (pay_order\<lparr>StatusAtual := StatusFailed\<rparr>) (empty_world (\<lambda>_. NoFault)) =
     (Inl (Wrapf ''comando de pagamento invalido'' ErrNonRetryable), empty_world (\<lambda>_. NoFault))"
  by (subst workers_ignore_or_reject_the_rest)
    (simp_all add: valid_command_def pay_order_def outgoing_def)

text \<open>
  The orchestrator and the workers speak the same protocol: whatever command announces the
  stage of a legal saga, its worker takes it; and whatever the worker answers, the orchestrator
  has a reaction to it in that stage.
\<close>

theorem protocol_closed:
  assumes "saga_ok maxR s" and "\<not> terminal_status (Current s)" and "announced_by s cmd"
    and "answers cmd out"
  shows "valid_command cmd \<and> react maxR s out \<noteq> None"
proof -
  have valid: "valid_command cmd"
    using assms(1-3) by (auto simp: saga_ok_def live_status_def announced_by_def valid_command_def
      terminal_status_def)
  have t: "EventType out \<in> result_types"
    using assms(4) valid by (auto simp: answers_def valid_command_def result_types_def)
  moreover have "expectedStatusForResult (EventType out) = Inr (Current s)"
    using assms(3,4) valid
    by (auto simp: answers_def valid_command_def expectedStatusForResult_def announced_by_def
        split: if_splits)
  ultimately show ?thesis
    using assms(4) valid react_None_iff [OF t] by (auto simp: answers_def)
qed

lemma protocol_closed_witness:
  "valid_command pay_order \<and>
     react 3 (new_saga ''o'') (process_result pay_order ''r1'' 9 (Inr (True, ''tx''))) \<noteq> None"
  by (rule protocol_closed [OF new_saga_ok])
    (simp_all add: pay_order_def new_saga_def announced_by_def terminal_status_def answers_def
      process_result_def result_of_def outgoing_def validateResultStatus_def CurrentSchemaVersion_def)

end
