(* ===== verification/SystemSpec.thy ===== *)
theory SystemSpec
  imports SagaLife WorkersCorrect
begin

text \<open>
  The orchestrator and the workers together, on the abstract store: orders are created, any
  message sent so far may be delivered to its consumer any number of times in any order, and
  each consumer does what its specification says (\<open>orch_spec\<close>, \<open>worker_effect\<close>).

  The invariant is a token: of all messages of an order only the last one sent is still to be
  acted on; it is the command of the stage its saga is in, the result of that command, or the
  outcome.
\<close>

section \<open>The abstract system\<close>

text \<open>\<open>outs\<close> are the events behind the outbox messages and \<open>created\<close> those of the coordinator.\<close>

record system =
  used_ids :: "string set"
  store :: abs_db
  created :: "event list"
  outs :: "event list"

definition init_system :: system where
  "init_system = \<lparr>used_ids = {}, store = empty_db, created = [], outs = []\<rparr>"

definition created_event :: "string \<Rightarrow> int \<Rightarrow> string \<Rightarrow> event" where
  "created_event eid now oid = outgoing eid now oid EventOrderCreated NoStatus StatusPending '''' fmempty"

text \<open>The event with which a handler of the orchestrator answers an accepted event.\<close>

definition reply :: "int \<Rightarrow> string \<Rightarrow> int \<Rightarrow> event \<Rightarrow> abs_db \<Rightarrow> event" where
  "reply maxR eid now e d =
     (case a_sagas d (OrderID e) of
        None \<Rightarrow> start_command eid now (OrderID e)
      | Some s \<Rightarrow> (case react maxR s e of
            Some r \<Rightarrow> reaction_event eid now s r
          | None \<Rightarrow> start_command eid now (OrderID e)))"

inductive sys_run :: "int \<Rightarrow> system \<Rightarrow> bool" for maxR where
  sys_init: "sys_run maxR init_system"
| sys_create: "sys_run maxR S \<Longrightarrow> eid \<notin> used_ids S \<Longrightarrow>
    sys_run maxR (S\<lparr>used_ids := insert eid (used_ids S),
      created := created S @ [created_event eid now oid]\<rparr>)"
| sys_orch: "sys_run maxR S \<Longrightarrow> eid \<notin> used_ids S \<Longrightarrow> e \<in> set (created S @ outs S) \<Longrightarrow>
    orch_spec maxR eid now e (store S) = Accept d \<Longrightarrow>
    sys_run maxR (S\<lparr>used_ids := insert eid (used_ids S), store := d,
      outs := outs S @ [reply maxR eid now e (store S)]\<rparr>)"
| sys_work: "sys_run maxR S \<Longrightarrow> EventID out \<notin> used_ids S \<Longrightarrow> cmd \<in> set (outs S) \<Longrightarrow>
    valid_command cmd \<Longrightarrow> \<not> abs_has (EventID cmd) (worker_of (EventType cmd)) (store S) \<Longrightarrow>
    answers cmd out \<Longrightarrow>
    sys_run maxR (S\<lparr>used_ids := insert (EventID out) (used_ids S),
      store := worker_effect (worker_of (EventType cmd)) cmd req resp out (store S),
      outs := outs S @ [out]\<rparr>)"
| sys_idle: "sys_run maxR S \<Longrightarrow> used_ids S \<subseteq> ids \<Longrightarrow> sys_run maxR (S\<lparr>used_ids := ids\<rparr>)"

section \<open>The journal under the steps\<close>

lemma abs_has_emit:
  "abs_has i who (emit eid now s r d) \<longleftrightarrow>
     abs_has i who d \<or> (i = eid \<and> who = orchestrator_component)"
  by (auto simp: emit_def Let_def abs_has_append journal_entry_def)

lemma abs_has_reaction:
  "abs_has i who (apply_reaction eid now e s r d) \<longleftrightarrow>
     abs_has i who d \<or> (i \<in> {eid, EventID e} \<and> who = orchestrator_component)"
  by (auto simp: apply_reaction_def abs_has_emit abs_has_append journal_entry_def)

lemma abs_has_start:
  "abs_has i who (apply_start eid now e d) \<longleftrightarrow>
     abs_has i who d \<or> (i \<in> {eid, EventID e} \<and> who = orchestrator_component)"
  by (auto simp: apply_start_def Let_def abs_has_append journal_entry_def)

lemma abs_has_accept:
  "orch_spec maxR eid now e d = Accept d' \<Longrightarrow>
     abs_has i who d' \<longleftrightarrow> abs_has i who d \<or> (i \<in> {eid, EventID e} \<and> who = orchestrator_component)"
  by (auto simp: orch_spec_def abs_has_start abs_has_reaction split: if_splits option.splits)

lemma abs_has_work:
  "abs_has i who' (worker_effect who e req resp out d) \<longleftrightarrow>
     abs_has i who' d \<or> (i \<in> {EventID e, EventID out} \<and> who' = who)"
  by (auto simp: worker_effect_def abs_has_append worker_entry_def)

section \<open>The token\<close>

definition commands :: "event_type set" where
  "commands = {EventPaymentCommand, EventPaymentCompensate, EventInventoryCommand,
     EventNotificationCommand}"

definition handled :: "abs_db \<Rightarrow> event \<Rightarrow> bool" where
  "handled d e \<longleftrightarrow>
     (EventType e \<in> commands \<longrightarrow> abs_has (EventID e) (worker_of (EventType e)) d) \<and>
     (EventType e \<in> result_types \<longrightarrow> abs_has (EventID e) orchestrator_component d)"

definition token :: "int \<Rightarrow> abs_db \<Rightarrow> saga \<Rightarrow> event \<Rightarrow> bool" where
  "token maxR d s e \<longleftrightarrow>
     (if terminal_status (Current s) then EventType e \<in> {EventOrderCompleted, EventOrderFailed}
      else announced_by s e \<and> valid_command e \<and> \<not> abs_has (EventID e) (worker_of (EventType e)) d \<or>
        EventType e \<in> result_types \<and> react maxR s e \<noteq> None \<and>
          \<not> abs_has (EventID e) orchestrator_component d)"

text \<open>The events sent for an order, in order.\<close>

definition chain :: "string \<Rightarrow> event list \<Rightarrow> event list" where
  "chain oid es = filter (\<lambda>e. OrderID e = oid) es"

definition chain_ok :: "int \<Rightarrow> abs_db \<Rightarrow> event list \<Rightarrow> string \<Rightarrow> bool" where
  "chain_ok maxR d es oid \<longleftrightarrow>
     (case a_sagas d oid of
        None \<Rightarrow> chain oid es = []
      | Some s \<Rightarrow> \<exists>old e. chain oid es = old @ [e] \<and> (\<forall>x \<in> set old. handled d x) \<and> token maxR d s e)"

definition sys_inv :: "int \<Rightarrow> system \<Rightarrow> bool" where
  "sys_inv maxR S \<longleftrightarrow>
     spec_run maxR (used_ids S) (store S) \<and>
     a_out (store S) = map message_of (outs S) \<and>
     distinct (map EventID (created S @ outs S)) \<and>
     EventID ` set (created S @ outs S) \<subseteq> used_ids S \<and>
     jr_EventID ` set (a_log (store S)) \<subseteq> used_ids S \<and>
     (\<forall>e \<in> set (created S). EventType e = EventOrderCreated) \<and>
     (\<forall>e \<in> set (outs S). EventType e \<noteq> EventOrderCreated) \<and>
     (\<forall>e \<in> set (created S @ outs S). wf_event e) \<and>
     (\<forall>e \<in> set (outs S). EventType e \<in> commands \<longrightarrow> valid_command e) \<and>
     (\<forall>oid. chain_ok maxR (store S) (outs S) oid)"

lemma canonical_status_known:
  "canTransitionTo a b \<Longrightarrow> canonical_status a \<and> canonical_status b"
  "live_status st \<Longrightarrow> canonical_status st" "terminal_status st \<Longrightarrow> canonical_status st"
proof -
  have known: "canonical_status st" if "\<And>x. st \<noteq> OtherStatus x" for st
    using that by (cases st) (auto simp: known_statuses_def)
  show "canTransitionTo a b \<Longrightarrow> canonical_status a \<and> canonical_status b"
    by (cases a) (auto intro: known)
  show "live_status st \<Longrightarrow> canonical_status st" "terminal_status st \<Longrightarrow> canonical_status st"
    by (auto simp: live_status_def terminal_status_def intro: known)
qed

lemma canonical_type_known: "(\<And>x. t \<noteq> OtherEvent x) \<Longrightarrow> canonical_type t"
  by (cases t) (auto simp: known_event_types_def)

lemma wf_outgoing:
  assumes "canonical_status before" and "canonical_status after" and "\<And>x. t \<noteq> OtherEvent x"
  shows "wf_event (outgoing eid now oid t before after tid m)"
  using assms canonical_type_known [of t]
  by (simp add: wf_event_def outgoing_def CurrentSchemaVersion_def)

lemma wf_start_command: "wf_event (start_command eid now oid)"
  unfolding start_command_def by (rule wf_outgoing) (simp_all add: known_statuses_def)

lemma wf_created_event: "wf_event (created_event eid now oid)"
  unfolding created_event_def by (rule wf_outgoing) (simp_all add: known_statuses_def)

lemma wf_reaction:
  assumes "saga_ok maxR s" and "react maxR s e = Some r"
  shows "wf_event (reaction_event eid now s r)"
proof -
  have live: "live_status (Current s)"
    using assms(2) by (rule react_live)
  then have c: "canonical_status (Current s)" "canonical_status (Previous s)"
      "\<And>x. command_type (Current s) \<noteq> OtherEvent x"
    using assms(1) canonical_status_known by (auto simp: saga_ok_def live_status_def)
  from assms(2) show ?thesis
    by (cases rule: react_Some_cases) (use c in \<open>auto intro!: wf_outgoing simp: known_statuses_def\<close>)
qed

lemma wf_answer:
  assumes "valid_command cmd" and "answers cmd out"
  shows "wf_event out"
proof -
  have "canonical_status (StatusAnterior out)" "canonical_status (StatusAtual out)"
      "canonical_type (EventType out)"
    using assms
    by (auto simp: answers_def valid_command_def validateResultStatus_ok known_statuses_def
        intro!: canonical_constants(2) canonical_type_known)
  then show ?thesis
    using assms(2) by (simp add: wf_event_def answers_def)
qed

lemma command_of_live_saga:
  assumes "saga_ok maxR s" and "\<not> terminal_status (Current s)" and "announced_by s e"
  shows "valid_command e"
  using assms by (auto simp: saga_ok_def live_status_def announced_by_def valid_command_def
      terminal_status_def)

lemma answer_is_expected:
  assumes "valid_command cmd" and "answers cmd out" and "Current s = StatusAtual cmd"
  shows "EventType out \<in> result_types \<and> react maxR s out \<noteq> None"
proof -
  have t: "EventType out \<in> result_types"
    using assms(1,2) by (auto simp: answers_def valid_command_def result_types_def)
  moreover have "expectedStatusForResult (EventType out) = Inr (Current s)"
    using assms by (auto simp: answers_def valid_command_def expectedStatusForResult_def)
  ultimately show ?thesis
    using assms(2) react_None_iff [OF t] by (auto simp: answers_def)
qed

section \<open>The invariant holds\<close>

lemma chain_snoc: "chain oid (es @ [e]) = chain oid es @ (if OrderID e = oid then [e] else [])"
  by (simp add: chain_def)

lemma set_chain: "x \<in> set (chain oid es) \<longleftrightarrow> x \<in> set es \<and> OrderID x = oid"
  by (simp add: chain_def)

lemma event_of_id:
  "distinct (map EventID es) \<Longrightarrow> x \<in> set es \<Longrightarrow> y \<in> set es \<Longrightarrow> EventID x = EventID y \<Longrightarrow> x = y"
  by (simp add: distinct_map inj_on_def)

text \<open>A step of actor \<open>who\<close> on event \<open>tr\<close> that sends \<open>out\<close> records the two and nothing else.\<close>

definition recorded :: "string \<Rightarrow> event \<Rightarrow> event \<Rightarrow> abs_db \<Rightarrow> abs_db \<Rightarrow> bool" where
  "recorded who tr out d d' \<longleftrightarrow>
     (\<forall>i p. abs_has i p d' \<longleftrightarrow> abs_has i p d \<or> (i \<in> {EventID out, EventID tr} \<and> p = who))"

lemma handled_step: "recorded who tr out d d' \<Longrightarrow> handled d e \<Longrightarrow> handled d' e"
  by (auto simp: recorded_def handled_def)

lemma chain_ok_step:
  assumes rec: "recorded who tr out d d'"
    and ids: "distinct (map EventID (cr @ es))" "tr \<in> set (cr @ es)"
      "EventID out \<notin> EventID ` set (cr @ es)"
    and order: "OrderID tr = OrderID out"
    and old: "\<And>p. chain_ok maxR d es p"
    and others: "\<And>p. p \<noteq> OrderID out \<Longrightarrow> a_sagas d' p = a_sagas d p"
    and new: "a_sagas d' (OrderID out) = Some s" "token maxR d' s out"
      "\<forall>x \<in> set (chain (OrderID out) es). handled d' x"
  shows "chain_ok maxR d' (es @ [out]) p"
proof (cases "p = OrderID out")
  case True
  with new show ?thesis
    by (simp add: chain_ok_def chain_snoc)
next
  case False
  have same: "abs_has (EventID x) q d' = abs_has (EventID x) q d" if "x \<in> set (chain p es)" for x q
  proof -
    have x: "x \<in> set (cr @ es)" "OrderID x = p"
      using that by (auto simp: set_chain)
    have "EventID x \<noteq> EventID tr"
      using event_of_id [OF ids(1) x(1) ids(2)] x(2) order False by auto
    moreover have "EventID x \<noteq> EventID out"
      using imageI [OF x(1), of EventID] ids(3) by auto
    ultimately show ?thesis
      using rec by (simp add: recorded_def)
  qed
  show ?thesis
  proof (cases "a_sagas d p")
    case None
    then show ?thesis
      using old [of p] others [OF False] False by (simp add: chain_ok_def chain_snoc)
  next
    case (Some t)
    with old [of p] obtain xs e where xs: "chain p es = xs @ [e]" "\<forall>x \<in> set xs. handled d x"
        "token maxR d t e"
      by (auto simp: chain_ok_def)
    then have "token maxR d' t e" "\<forall>x \<in> set xs. handled d' x"
      using same [of e] handled_step [OF rec] by (auto simp: token_def)
    with xs(1) Some show ?thesis
      using others [OF False] False by (auto simp: chain_ok_def chain_snoc)
  qed
qed

text \<open>Of an order's events only the last can be one that is not handled.\<close>

lemma unhandled_is_last:
  assumes "chain_ok maxR d es (OrderID e)" and "e \<in> set es" and "\<not> handled d e"
  obtains s old where "a_sagas d (OrderID e) = Some s" "chain (OrderID e) es = old @ [e]"
    "\<forall>x \<in> set old. handled d x" "token maxR d s e"
proof -
  have e: "e \<in> set (chain (OrderID e) es)"
    using assms(2) by (simp add: set_chain)
  then obtain s old x where s: "a_sagas d (OrderID e) = Some s"
      and x: "chain (OrderID e) es = old @ [x]" "\<forall>y \<in> set old. handled d y" "token maxR d s x"
    using assms(1) by (auto simp: chain_ok_def split: option.splits)
  moreover have "x = e"
    using e x(1,2) assms(3) by auto
  ultimately show thesis
    using that by blast
qed

lemma commands_not_results: "t \<in> commands \<Longrightarrow> t \<notin> result_types"
  by (auto simp: commands_def result_types_def)

lemma valid_command_type: "valid_command e \<Longrightarrow> EventType e \<in> commands"
  by (auto simp: valid_command_def commands_def)

lemma sys_inv_init: "sys_inv maxR init_system"
  using spec_init by (simp add: sys_inv_def init_system_def chain_ok_def chain_def empty_db_def)

lemma abs_has_in_ids: "abs_has i who d \<Longrightarrow> i \<in> jr_EventID ` set (a_log d)"
  by (auto simp: abs_has_def list_ex_iff)

lemma abs_has_iff_ids: "i \<in> jr_EventID ` set (a_log d) \<longleftrightarrow> (\<exists>who. abs_has i who d)"
  by (auto simp: abs_has_def list_ex_iff)

lemma recorded_ids:
  assumes "recorded who tr out d d'"
  shows "jr_EventID ` set (a_log d') = {EventID out, EventID tr} \<union> jr_EventID ` set (a_log d)"
proof (rule set_eqI)
  fix i
  show "i \<in> jr_EventID ` set (a_log d') \<longleftrightarrow>
      i \<in> {EventID out, EventID tr} \<union> jr_EventID ` set (a_log d)"
    using assms unfolding abs_has_iff_ids Un_iff recorded_def by blast
qed

text \<open>The parts of the invariant that every step that sends \<open>out\<close> keeps in the same way.\<close>

lemma sys_inv_send:
  assumes inv: "sys_inv maxR S" and eid: "EventID out \<notin> used_ids S"
    and tr: "tr \<in> set (created S @ outs S)" "OrderID tr = OrderID out"
    and rec: "recorded who tr out (store S) d"
    and run: "spec_run maxR (insert (EventID out) (used_ids S)) d"
    and out: "a_out d = a_out (store S) @ [message_of out]" "EventType out \<noteq> EventOrderCreated"
      "wf_event out" "EventType out \<in> commands \<longrightarrow> valid_command out"
    and others: "\<And>p. p \<noteq> OrderID out \<Longrightarrow> a_sagas d p = a_sagas (store S) p"
    and new: "a_sagas d (OrderID out) = Some s" "token maxR d s out"
      "\<forall>x \<in> set (chain (OrderID out) (outs S)). handled d x"
  shows "sys_inv maxR (S\<lparr>used_ids := insert (EventID out) (used_ids S), store := d,
    outs := outs S @ [out]\<rparr>)"
proof -
  from inv have used: "EventID ` set (created S @ outs S) \<subseteq> used_ids S"
    and ids: "distinct (map EventID (created S @ outs S))"
    by (auto simp: sys_inv_def)
  with eid have fresh: "EventID out \<notin> EventID ` set (created S @ outs S)"
    by blast
  have "chain_ok maxR d (outs S @ [out]) p" for p
    by (rule chain_ok_step [OF rec ids tr(1) fresh tr(2) _ others new])
      (use inv in \<open>auto simp: sys_inv_def\<close>)
  moreover have "jr_EventID ` set (a_log d) \<subseteq> insert (EventID out) (used_ids S)"
  proof -
    have "EventID tr \<in> used_ids S"
      using tr(1) used by (meson image_subset_iff)
    moreover have "jr_EventID ` set (a_log (store S)) \<subseteq> used_ids S"
      using inv by (simp add: sys_inv_def)
    ultimately show ?thesis
      unfolding recorded_ids [OF rec] by blast
  qed
  moreover have "distinct (map EventID (created S @ outs S @ [out]))"
    using ids fresh by auto
  moreover have "EventID ` set (created S @ outs S @ [out]) \<subseteq> insert (EventID out) (used_ids S)"
    using used by auto
  ultimately show ?thesis
    using inv run out by (simp add: sys_inv_def)
qed

lemma run_inv_of: "sys_inv maxR S \<Longrightarrow> run_inv maxR (used_ids S) (store S)"
  by (simp add: sys_inv_def spec_run_inv)

lemma chain_ok_of: "sys_inv maxR S \<Longrightarrow> chain_ok maxR (store S) (outs S) oid"
  by (simp add: sys_inv_def)

lemma fresh_not_has:
  assumes "sys_inv maxR S" and "eid \<notin> used_ids S"
  shows "\<not> abs_has eid who (store S)"
proof
  assume "abs_has eid who (store S)"
  then have "eid \<in> jr_EventID ` set (a_log (store S))"
    by (rule abs_has_in_ids)
  moreover have "jr_EventID ` set (a_log (store S)) \<subseteq> used_ids S"
    using assms(1) by (simp add: sys_inv_def)
  ultimately show False
    using assms(2) by blast
qed

lemma saga_ok_of: "sys_inv maxR S \<Longrightarrow> a_sagas (store S) oid = Some s \<Longrightarrow> saga_ok maxR s"
  using run_inv_of [of maxR S] by (auto simp: run_inv_def order_inv_def dest!: spec [of _ oid])

text \<open>A message that announces a saga under a fresh identifier is its token.\<close>

lemma token_announced:
  assumes "saga_ok maxR s" and "announced_by s out"
    and "\<not> abs_has (EventID out) (worker_of (EventType out)) d"
  shows "token maxR d s out"
  using assms command_of_live_saga [OF assms(1) _ assms(2)]
  by (auto simp: token_def announced_by_def terminal_status_def split: if_splits)

lemma announced_type: "announced_by s out \<Longrightarrow> saga_ok maxR s \<Longrightarrow> EventType out \<noteq> EventOrderCreated"
  by (auto simp: announced_by_def saga_ok_def live_status_def terminal_status_def split: if_splits)

lemma worker_not_orchestrator: "worker_of t \<noteq> orchestrator_component"
  by (cases t) (simp_all add: componentPayment_def componentInventory_def componentNotification_def)


lemma sys_inv_orch:
  assumes inv: "sys_inv maxR S" and eid: "eid \<notin> used_ids S" and e: "e \<in> set (created S @ outs S)"
    and acc: "orch_spec maxR eid now e (store S) = Accept d"
  shows "sys_inv maxR (S\<lparr>used_ids := insert eid (used_ids S), store := d,
      outs := outs S @ [reply maxR eid now e (store S)]\<rparr>)"
proof -
  let ?out = "reply maxR eid now e (store S)"
  have fresh: "eid \<notin> msg_EventID ` set (a_out (store S))" and "keyed (store S)"
    using run_inv_of [OF inv] eid by (auto simp: run_inv_def)
  have run: "spec_run maxR (insert eid (used_ids S)) d"
    using inv eid acc by (auto simp: sys_inv_def intro: spec_step)
  have unseen: "\<not> abs_has (EventID e) orchestrator_component (store S)"
    using acc by (auto simp: orch_spec_def split: if_splits option.splits)
  have "\<exists>s. one_step eid (OrderID e) s ?out (store S) d \<and> announced_by s ?out \<and> saga_ok maxR s \<and>
      wf_event ?out \<and>
      (\<forall>x \<in> set (chain (OrderID e) (outs S)). handled (store S) x \<or> x = e) \<and>
      EventType e \<notin> commands"
    using acc \<open>keyed (store S)\<close> fresh
  proof (cases rule: accept_cases)
    case start
    then have "chain (OrderID e) (outs S) = []"
      using inv by (auto simp: sys_inv_def chain_ok_def dest!: spec [of _ "OrderID e"])
    with start show ?thesis
      using start_fits [of "OrderID e" eid now] new_saga_ok
      by (intro exI [of _ "new_saga (OrderID e)"])
        (simp add: reply_def fits_def commands_def wf_start_command)
  next
    case (react s r)
    have t: "EventType e \<in> result_types"
      using react(2) by (auto simp: react_def result_types_def split: if_splits)
    then have "e \<in> set (outs S)" "\<not> handled (store S) e"
      using e inv unseen by (auto simp: sys_inv_def handled_def result_types_def)
    then obtain old where "chain (OrderID e) (outs S) = old @ [e]" "\<forall>x \<in> set old. handled (store S) x"
      using unhandled_is_last [OF chain_ok_of [OF inv]] by metis
    with react t show ?thesis
      using reaction_fits [OF react(2), of eid now] next_saga_ok [OF saga_ok_of [OF inv react(1)] react(2)]
      by (intro exI [of _ "next_saga r s"])
        (auto simp: reply_def fits_def intro: wf_reaction [OF saga_ok_of [OF inv react(1)] react(2)]
          dest: commands_not_results)
  qed
  then obtain s where s: "one_step eid (OrderID e) s ?out (store S) d" "announced_by s ?out"
      "saga_ok maxR s" "\<forall>x \<in> set (chain (OrderID e) (outs S)). handled (store S) x \<or> x = e"
      "EventType e \<notin> commands" "wf_event ?out"
    by blast
  then have ids: "EventID ?out = eid" "OrderID ?out = OrderID e"
    by (simp_all add: one_step_def)
  have rec: "recorded orchestrator_component e ?out (store S) d"
    using abs_has_accept [OF acc] by (simp add: recorded_def ids)
  have "\<not> abs_has eid (worker_of (EventType ?out)) d"
    using rec fresh_not_has [OF inv eid] worker_not_orchestrator by (simp add: recorded_def)
  then have tok: "token maxR d s ?out"
    using token_announced [OF s(3,2)] ids(1) by simp
  have "handled d x" if x: "x \<in> set (chain (OrderID ?out) (outs S))" for x
  proof (cases "x = e")
    case True
    then show ?thesis
      using rec s(5) by (simp add: handled_def recorded_def)
  next
    case False
    then show ?thesis
      using x s(4) ids(2) by (auto intro: handled_step [OF rec])
  qed
  moreover have "EventType ?out \<in> commands \<longrightarrow> valid_command ?out"
    using command_of_live_saga [OF s(3) _ s(2)] s(2)
    by (auto simp: announced_by_def terminal_status_def commands_def split: if_splits)
  ultimately show ?thesis
    using sys_inv_send [OF inv _ e _ rec, of s] run s tok ids eid announced_type [OF s(2,3)]
    by (simp add: one_step_def)
qed

lemma worker_effect_out:
  assumes "EventID out \<notin> msg_EventID ` set (a_out d)"
  shows "a_out (worker_effect who e req resp out d) = a_out d @ [message_of out]"
  using assms by (simp add: worker_effect_def abs_publish_fresh)

lemma worker_effect_sagas [simp]: "a_sagas (worker_effect who e req resp out d) = a_sagas d"
  by (simp add: worker_effect_def)

lemma worker_effect_log:
  "\<exists>rows. a_log (worker_effect who e req resp out d) = a_log d @ rows \<and>
     (\<forall>r \<in> set rows. jr_Component r = who)"
proof -
  have append: "\<exists>rows. a_log (abs_append en d) = a_log d @ rows \<and>
      (\<forall>r \<in> set rows. jr_Component r = le_Component en)" for en d
    by (auto simp: abs_append_def journal_row_of_def)
  have step: "\<exists>rows. a_log (abs_append (worker_entry who x dir a b) d') = a_log d @ rows \<and>
      (\<forall>r \<in> set rows. jr_Component r = who)"
    if "\<exists>rows. a_log d' = a_log d @ rows \<and> (\<forall>r \<in> set rows. jr_Component r = who)" for d' x dir a b
    using that append [of "worker_entry who x dir a b" d'] by (fastforce simp: worker_entry_def)
  show ?thesis
    unfolding worker_effect_def abs_log_simps by (intro step) simp
qed

lemma result_topic_foreign:
  assumes "EventType out \<in> result_types"
  shows "msg_Topic (message_of out) \<notin> orchestrator_out_topics"
  using assms
  by (auto simp: result_types_def message_of_def orchestrator_out_topics_def topic_defs)

lemma worker_effect_foreign:
  assumes "EventID out \<notin> msg_EventID ` set (a_out d)" and "EventType out \<in> result_types"
    and "who \<noteq> orchestrator_component"
  shows "foreign {EventID out} d (worker_effect who e req resp out d)"
  using worker_effect_log [of who e req resp out d] assms(3) result_topic_foreign [OF assms(2)]
  unfolding foreign_def worker_effect_sagas worker_effect_out [OF assms(1)] by auto

lemma sys_inv_work:
  assumes inv: "sys_inv maxR S" and eid: "EventID out \<notin> used_ids S" and cmd: "cmd \<in> set (outs S)"
    and valid: "valid_command cmd"
    and new: "\<not> abs_has (EventID cmd) (worker_of (EventType cmd)) (store S)"
    and answer: "answers cmd out"
  shows "sys_inv maxR (S\<lparr>used_ids := insert (EventID out) (used_ids S),
      store := worker_effect (worker_of (EventType cmd)) cmd req resp out (store S),
      outs := outs S @ [out]\<rparr>)"
proof -
  let ?who = "worker_of (EventType cmd)"
  let ?d = "worker_effect ?who cmd req resp out (store S)"
  have order: "OrderID out = OrderID cmd"
    using answer by (simp add: answers_def)
  have unhandled: "\<not> handled (store S) cmd"
    using new valid_command_type [OF valid] by (simp add: handled_def)
  obtain s old where s: "a_sagas (store S) (OrderID cmd) = Some s"
      "chain (OrderID cmd) (outs S) = old @ [cmd]" "\<forall>x \<in> set old. handled (store S) x"
      "token maxR (store S) s cmd"
    by (rule unhandled_is_last [OF chain_ok_of [OF inv] cmd unhandled])
  have live: "\<not> terminal_status (Current s)" and at: "Current s = StatusAtual cmd"
    using s(4) valid commands_not_results [OF valid_command_type [OF valid]]
    by (auto simp: token_def valid_command_def announced_by_def split: if_splits)
  have fresh: "EventID out \<notin> msg_EventID ` set (a_out (store S))"
    using run_inv_of [OF inv] eid by (auto simp: run_inv_def)
  have result: "EventType out \<in> result_types" "react maxR s out \<noteq> None"
    using answer_is_expected [OF valid answer at] by simp_all
  have rec: "recorded ?who cmd out (store S) ?d"
    by (auto simp: recorded_def abs_has_work)
  have "\<not> abs_has (EventID out) orchestrator_component ?d"
    using fresh_not_has [OF inv eid] worker_not_orchestrator [THEN not_sym]
    by (simp add: abs_has_work)
  then have tok: "token maxR ?d s out"
    using live result by (simp add: token_def)
  have run: "spec_run maxR (insert (EventID out) (used_ids S)) ?d"
    using spec_other [of maxR "used_ids S" "store S" "{EventID out}" ?d] inv eid
      worker_effect_foreign [OF fresh result(1) worker_not_orchestrator]
    by (simp add: sys_inv_def)
  have "handled ?d x" if "x \<in> set (chain (OrderID out) (outs S))" for x
    using that s(2,3) order rec commands_not_results [OF valid_command_type [OF valid]]
    by (auto simp: handled_def recorded_def)
  then show ?thesis
    using sys_inv_send [OF inv eid _ _ rec run, of s] cmd order s(1) tok result(1)
      wf_answer [OF valid answer]
    by (auto simp: worker_effect_out [OF fresh] result_types_def commands_def)
qed

lemma sys_inv_create:
  assumes inv: "sys_inv maxR S" and eid: "eid \<notin> used_ids S"
  shows "sys_inv maxR (S\<lparr>used_ids := insert eid (used_ids S),
      created := created S @ [created_event eid now oid]\<rparr>)"
proof -
  have "spec_run maxR (insert eid (used_ids S)) (store S)"
    using spec_other [of maxR "used_ids S" "store S" "{eid}" "store S"] inv eid
    by (simp add: sys_inv_def)
  then show ?thesis
    using inv eid wf_created_event [of eid now oid] by (auto simp: sys_inv_def created_event_def)
qed

lemma sys_inv_idle:
  assumes "sys_inv maxR S" and "used_ids S \<subseteq> ids"
  shows "sys_inv maxR (S\<lparr>used_ids := ids\<rparr>)"
proof -
  have "spec_run maxR ((ids - used_ids S) \<union> used_ids S) (store S)"
    by (rule spec_other [where d = "store S"]) (use assms in \<open>auto simp: sys_inv_def\<close>)
  then have "spec_run maxR ids (store S)"
    using assms(2) by (simp add: Un_absorb2)
  then show ?thesis
    using assms by (auto simp: sys_inv_def)
qed

lemma sys_run_inv: "sys_run maxR S \<Longrightarrow> sys_inv maxR S"
proof (induction rule: sys_run.induct)
  case sys_init
  show ?case by (rule sys_inv_init)
next
  case sys_create
  then show ?case by (intro sys_inv_create)
next
  case sys_orch
  then show ?case by (intro sys_inv_orch)
next
  case sys_work
  then show ?case by (intro sys_inv_work)
next
  case sys_idle
  then show ?case by (intro sys_inv_idle)
qed

end
