(* ===== verification/System.thy ===== *)
theory System
  imports SystemSpec
begin

text \<open>
  The running system: coordinator, orchestrator and workers over one write database, with the
  bus between them. A message in the outbox is delivered by the relay and Kafka to the service
  that consumes its topic, at any time, in any order and any number of times; its payload is
  decoded and handled by the code of theories Orchestrator and Workers.
\<close>

section \<open>Steps\<close>

text \<open>The service that consumes the topic handles the event decoded from the message.\<close>

definition deliver_message ::
  "int \<Rightarrow> 'a pgenv_scheme gateways \<Rightarrow> message \<Rightarrow> ('a pgenv_scheme, go_error, unit) io" where
  "deliver_message maxR g m =
     (case unmarshal_event (msg_Payload m) of
        Inl err \<Rightarrow> failM (Wrapf ''payload'' ErrNonRetryable)
      | Inr e \<Rightarrow>
          if msg_Topic m \<in> set orchestrator_topics
          then HandleEvent (New_orchestrator WithTx maxR) e
          else if msg_Topic m \<in> set (worker_payment_topics @ worker_inventory_topics @
            worker_notification_topics)
          then worker_Handle g e
          else returnM ())"

text \<open>The state: the world, and the messages the coordinator has put on the bus itself.\<close>

inductive cluster_run ::
  "int \<Rightarrow> 'a pgenv_scheme gateways \<Rightarrow> 'a pgenv_scheme \<Rightarrow> 'a pgenv_scheme \<Rightarrow> message list \<Rightarrow> bool"
  for maxR g w0 where
  cluster_start: "cluster_run maxR g w0 w0 []"
| cluster_create: "cluster_run maxR g w0 w bus \<Longrightarrow>
    cluster_run maxR g w0 (w\<lparr>drawn := Suc (drawn w), ticks := Suc (ticks w)\<rparr>)
      (bus @ [message_of (created_event (event_id_at (entropy w) (drawn w)) (clock w (ticks w)) oid)])"
| cluster_deliver: "cluster_run maxR g w0 w bus \<Longrightarrow> m \<in> set (bus @ a_out (pg_view w)) \<Longrightarrow>
    cluster_run maxR g w0 (snd (deliver_message maxR g m w)) bus"
| cluster_idle: "cluster_run maxR g w0 w bus \<Longrightarrow> pg_view v = pg_view w \<Longrightarrow>
    entropy v = entropy w \<Longrightarrow> drawn w \<le> drawn v \<Longrightarrow> cluster_run maxR g w0 v bus"

text \<open>The step \<open>cluster_create\<close> is the coordinator's \<open>CreateOrder\<close> up to its publication.\<close>

lemma CreateOrder_run:
  "CreateOrder publish oid w =
     publish (created_event (event_id_at (entropy w) (drawn w)) (clock w (ticks w)) oid)
       (w\<lparr>drawn := Suc (drawn w), ticks := Suc (ticks w)\<rparr>)"
  by (simp add: CreateOrder_def tryM_def NewEventID_run time_Now_def created_event_def outgoing_def)

section \<open>Delivery runs the abstract steps\<close>

text \<open>\<open>S\<close> is an abstract system for world \<open>w\<close> of a run from \<open>w0\<close>.\<close>

definition simulates :: "int \<Rightarrow> 'a pgenv_scheme \<Rightarrow> 'a pgenv_scheme \<Rightarrow> message list \<Rightarrow> system \<Rightarrow> bool" where
  "simulates maxR w0 w bus S \<longleftrightarrow> sys_run maxR S \<and> store S = pg_view w \<and>
     map message_of (created S) = bus \<and> entropy w = entropy w0 \<and> drawn w0 \<le> drawn w \<and>
     used_ids S = event_id_at (entropy w0) ` {drawn w0 ..< drawn w}"

lemma fresh_id:
  assumes "distinct_ids w0 v" and "drawn w0 \<le> drawn w" and "drawn w < drawn v"
  shows "event_id_at (entropy w0) (drawn w) \<notin> event_id_at (entropy w0) ` {drawn w0 ..< drawn w}"
  using assms unfolding distinct_ids_def inj_on_def by fastforce

lemma used_Suc:
  "drawn w0 \<le> drawn w \<Longrightarrow> insert (f (drawn w)) (f ` {drawn w0 ..< drawn w}) = f ` {drawn w0 ..< Suc (drawn w)}"
  by (auto simp: less_Suc_eq)

lemma simulates_idle:
  assumes "simulates maxR w0 w bus S" and "pg_view v = pg_view w" "entropy v = entropy w"
    "drawn w \<le> drawn v"
  shows "\<exists>S'. simulates maxR w0 v bus S'"
proof -
  let ?ids = "event_id_at (entropy w0) ` {drawn w0 ..< drawn v}"
  have "used_ids S \<subseteq> ?ids"
    using assms by (auto simp: simulates_def)
  then have "sys_run maxR (S\<lparr>used_ids := ?ids\<rparr>)"
    using assms(1) by (intro sys_idle) (simp_all add: simulates_def)
  then have "simulates maxR w0 v bus (S\<lparr>used_ids := ?ids\<rparr>)"
    using assms by (auto simp: simulates_def)
  then show ?thesis ..
qed

lemma message_decoded:
  "wf_event e \<Longrightarrow> unmarshal_event (msg_Payload (message_of e)) = Inr e"
  by (simp add: message_of_def unmarshal_marshal)

lemma deliver_message_of:
  "wf_event e \<Longrightarrow> deliver_message maxR g (message_of e) =
     (if msg_Topic (message_of e) \<in> set orchestrator_topics
      then HandleEvent (New_orchestrator WithTx maxR) e
      else if msg_Topic (message_of e) \<in> set (worker_payment_topics @ worker_inventory_topics @
            worker_notification_topics)
      then worker_Handle g e
      else returnM ())"
  by (simp add: deliver_message_def message_decoded)

lemma worker_view_effect:
  fixes w :: "'a pgenv_scheme" and g :: "'a pgenv_scheme gateways" and e :: event
  defines "v \<equiv> snd (worker_Handle g e w)"
  assumes "gateways_ok g" and "valid_command e"
  shows "env_advances w v \<and> (pg_view v = pg_view w \<or>
    \<not> abs_has (EventID e) (worker_of (EventType e)) (pg_view w) \<and> command_done e w v)"
proof -
  have "wpM (worker_Handle g e)
     (\<lambda>_ u. env_advances w u \<and> (pg_view u = pg_view w \<or>
        \<not> abs_has (EventID e) (worker_of (EventType e)) (pg_view w) \<and> command_done e w u))
     (\<lambda>_ u. env_advances w u \<and> (pg_view u = pg_view w \<or>
        \<not> abs_has (EventID e) (worker_of (EventType e)) (pg_view w) \<and> command_done e w u)) w"
    using worker_Handle_wp [OF assms(2,3)]
    by (rule wpM_conseq) (auto simp: work_failed_def command_done_def)
  then show ?thesis
    unfolding v_def wpM_def by (auto split: prod.splits sum.splits)
qed

text \<open>The orchestrator's step on an event of the system.\<close>

lemma simulates_orch:
  assumes sim: "simulates maxR w0 w bus S" and e: "e \<in> set (created S @ outs S)"
    and ids: "distinct_ids w0 v" and v: "v = snd (HandleEvent (New_orchestrator WithTx maxR) e w)"
  shows "\<exists>S'. simulates maxR w0 v bus S'"
proof -
  have eff: "env_advances w v" "pg_view v = pg_view w \<or>
      spec_of maxR w e = Accept (pg_view v) \<and> drawn v = Suc (drawn w)"
    using handle_effect [of w maxR e] v by simp_all
  show ?thesis
  proof (cases "pg_view v = pg_view w")
    case True
    with sim eff(1) show ?thesis
      by (intro simulates_idle) (auto simp: env_advances_def)
  next
    case False
    let ?eid = "event_id_at (entropy w0) (drawn w)"
    let ?S = "S\<lparr>used_ids := insert ?eid (used_ids S), store := pg_view v,
        outs := outs S @ [reply maxR ?eid (clock w (ticks w)) e (store S)]\<rparr>"
    have acc: "orch_spec maxR ?eid (clock w (ticks w)) e (store S) = Accept (pg_view v)"
      and dr: "drawn v = Suc (drawn w)" "drawn w0 \<le> drawn w"
      using False eff(2) sim by (auto simp: simulates_def)
    have "?eid \<notin> used_ids S"
      using fresh_id [OF ids dr(2)] dr(1) sim by (simp add: simulates_def)
    then have "sys_run maxR ?S"
      using sim e acc by (intro sys_orch) (auto simp: simulates_def)
    then have "simulates maxR w0 v bus ?S"
      using sim dr eff(1) used_Suc [OF dr(2), of "event_id_at (entropy w0)"]
      by (auto simp: simulates_def env_advances_def)
    then show ?thesis ..
  qed
qed

text \<open>A worker's step on a command of the system.\<close>

lemma simulates_work:
  assumes sim: "simulates maxR w0 w bus S" and e: "e \<in> set (outs S)" and valid: "valid_command e"
    and ok: "gateways_ok g" and ids: "distinct_ids w0 v" and v: "v = snd (worker_Handle g e w)"
  shows "\<exists>S'. simulates maxR w0 v bus S'"
proof -
  have eff: "env_advances w v" "pg_view v = pg_view w \<or>
      \<not> abs_has (EventID e) (worker_of (EventType e)) (pg_view w) \<and> command_done e w v"
    using worker_view_effect [OF ok valid, of w] v by simp_all
  show ?thesis
  proof (cases "pg_view v = pg_view w")
    case True
    with sim eff(1) show ?thesis
      by (intro simulates_idle) (auto simp: env_advances_def)
  next
    case False
    then obtain req resp out where out: "answers e out"
        "EventID out = event_id_at (entropy w) (drawn w)" "drawn v = Suc (drawn w)"
        "pg_view v = worker_effect (worker_of (EventType e)) e req resp out (pg_view w)"
      and new: "\<not> abs_has (EventID e) (worker_of (EventType e)) (store S)"
      using eff(2) sim by (auto simp: command_done_def simulates_def)
    let ?S = "S\<lparr>used_ids := insert (EventID out) (used_ids S), store := pg_view v,
        outs := outs S @ [out]\<rparr>"
    have dr: "drawn w0 \<le> drawn w" and ent: "entropy w = entropy w0"
      using sim by (auto simp: simulates_def)
    have "EventID out \<notin> used_ids S"
      using fresh_id [OF ids dr] out(2,3) sim ent by (simp add: simulates_def)
    then have "sys_run maxR ?S"
      using sim e valid new out(1) unfolding out(4)
      by (subst simulates_def [THEN iffD1, THEN conjunct2, THEN conjunct1, OF sim, symmetric])
        (intro sys_work, auto simp: simulates_def)
    then have "simulates maxR w0 v bus ?S"
      using sim dr eff(1) out(2,3) ent used_Suc [OF dr, of "event_id_at (entropy w0)"]
      by (auto simp: simulates_def env_advances_def)
    then show ?thesis ..
  qed
qed

lemma topic_of_command:
  "msg_Topic (message_of e) \<in> set (worker_payment_topics @ worker_inventory_topics @
     worker_notification_topics) \<Longrightarrow> EventType e \<in> commands"
  by (cases "EventType e")
    (auto simp: message_of_def worker_payment_topics_def worker_inventory_topics_def
      worker_notification_topics_def topic_defs commands_def)

lemma sent_event:
  assumes sim: "simulates maxR w0 w bus S" and m: "m \<in> set (bus @ a_out (pg_view w))"
  obtains e where "m = message_of e" "e \<in> set (created S @ outs S)" "wf_event e"
    "EventType e \<in> commands \<Longrightarrow> e \<in> set (outs S) \<and> valid_command e"
proof -
  have inv: "sys_inv maxR S"
    using sim by (simp add: simulates_def sys_run_inv)
  have "m \<in> set (map message_of (created S @ outs S))"
    using m sim inv by (simp add: simulates_def sys_inv_def)
  then obtain e where "m = message_of e" "e \<in> set (created S @ outs S)"
    by auto
  then show thesis
    using inv by (intro that [of e]) (auto simp: sys_inv_def commands_def)
qed

lemma simulates_deliver:
  assumes sim: "simulates maxR w0 w bus S" and m: "m \<in> set (bus @ a_out (pg_view w))"
    and ok: "gateways_ok g" and ids: "distinct_ids w0 (snd (deliver_message maxR g m w))"
  shows "\<exists>S'. simulates maxR w0 (snd (deliver_message maxR g m w)) bus S'"
proof -
  obtain e where e: "m = message_of e" "e \<in> set (created S @ outs S)" "wf_event e"
      "EventType e \<in> commands \<Longrightarrow> e \<in> set (outs S) \<and> valid_command e"
    by (rule sent_event [OF sim m]) blast
  note run = deliver_message_of [OF e(3), of maxR g]
  show ?thesis
  proof (cases "msg_Topic m \<in> set orchestrator_topics")
    case True
    then show ?thesis
      using simulates_orch [OF sim e(2) ids] run e(1) by simp
  next
    case no_orch: False
    show ?thesis
    proof (cases "msg_Topic m \<in> set (worker_payment_topics @ worker_inventory_topics @
        worker_notification_topics)")
      case True
      then have "e \<in> set (outs S)" "valid_command e"
        using topic_of_command [of e] e(1,4) by auto
      then show ?thesis
        using simulates_work [OF sim _ _ ok ids] run e(1) no_orch True by simp
    next
      case False
      then have "snd (deliver_message maxR g m w) = w"
        using run e(1) no_orch by (simp add: returnM_def)
      with sim show ?thesis
        by auto
    qed
  qed
qed

lemma worker_Handle_advances:
  assumes "gateways_ok g"
  shows "env_advances w (snd (worker_Handle g e w))"
proof (cases "valid_command e")
  case True
  then show ?thesis
    using worker_view_effect [OF assms] by blast
next
  case False
  then show ?thesis
    using worker_Handle_invalid [OF False, of g] by auto
qed

lemma deliver_message_advances:
  assumes "gateways_ok g"
  shows "env_advances w (snd (deliver_message maxR g m w))"
  using worker_Handle_advances [OF assms] handle_effect [of w maxR]
  by (auto simp: deliver_message_def split: sum.splits)

lemma cluster_simulated:
  assumes "cluster_run maxR g w0 w bus" and "gateways_ok g" and "pg_view w0 = empty_db"
    and "distinct_ids w0 w"
  shows "\<exists>S. simulates maxR w0 w bus S"
  using assms(1,4)
proof (induction rule: cluster_run.induct)
  case cluster_start
  show ?case
    by (rule exI [of _ init_system]) (auto simp: simulates_def init_system_def assms(3) intro: sys_init [unfolded init_system_def])
next
  case (cluster_create w bus oid)
  let ?v = "w\<lparr>drawn := Suc (drawn w), ticks := Suc (ticks w)\<rparr>"
  let ?eid = "event_id_at (entropy w0) (drawn w)"
  obtain S where S: "simulates maxR w0 w bus S"
    using cluster_create.IH distinct_ids_mono [OF cluster_create.prems] by auto
  then have dr: "drawn w0 \<le> drawn w" and ent: "entropy w = entropy w0"
    by (simp_all add: simulates_def)
  let ?S = "S\<lparr>used_ids := insert ?eid (used_ids S),
      created := created S @ [created_event ?eid (clock w (ticks w)) oid]\<rparr>"
  have "?eid \<notin> used_ids S"
    using fresh_id [OF cluster_create.prems dr] S by (simp add: simulates_def)
  then have "sys_run maxR ?S"
    using S by (intro sys_create) (simp add: simulates_def)
  then have "simulates maxR w0 ?v
      (bus @ [message_of (created_event (event_id_at (entropy w) (drawn w)) (clock w (ticks w)) oid)]) ?S"
    using S ent dr used_Suc [OF dr, of "event_id_at (entropy w0)"] by (auto simp: simulates_def)
  then show ?case ..
next
  case (cluster_deliver w bus m)
  let ?v = "snd (deliver_message maxR g m w)"
  have "drawn w \<le> drawn ?v"
    using deliver_message_advances [OF assms(2)] by (auto simp: env_advances_def)
  then obtain S where "simulates maxR w0 w bus S"
    using cluster_deliver.IH distinct_ids_mono [OF cluster_deliver.prems] by blast
  then show ?case
    using cluster_deliver.hyps(2) assms(2) cluster_deliver.prems by (intro simulates_deliver)
next
  case (cluster_idle w bus v)
  then obtain S where "simulates maxR w0 w bus S"
    using distinct_ids_mono by blast
  then show ?case
    using cluster_idle.hyps by (intro simulates_idle)
qed

section \<open>No dead letters\<close>

lemma result_not_rejected:
  assumes inv: "sys_inv maxR S" and e: "e \<in> set (outs S)"
  shows "orch_spec maxR eid now e (store S) \<noteq> Reject"
proof (cases "EventType e \<in> result_types \<and> \<not> abs_has (EventID e) orchestrator_component (store S)")
  case True
  then have "\<not> handled (store S) e"
    by (simp add: handled_def)
  then obtain s old where s: "a_sagas (store S) (OrderID e) = Some s" "token maxR (store S) s e"
    using unhandled_is_last [OF chain_ok_of [OF inv] e] by metis
  have "EventType e \<notin> commands"
    using True commands_not_results by blast
  then have "react maxR s e \<noteq> None"
    using s(2) True valid_command_type [of e]
    by (auto simp: token_def result_types_def split: if_splits)
  then show ?thesis
    using s(1) True e inv by (auto simp: orch_spec_def sys_inv_def)
next
  case False
  have "a_sagas (store S) (OrderID e) \<noteq> None"
    using chain_ok_of [OF inv, of "OrderID e"] e
    by (auto simp: chain_ok_def chain_def filter_empty_conv split: option.splits)
  then show ?thesis
    using False e inv by (auto simp: orch_spec_def sys_inv_def)
qed

lemma outbox_event:
  assumes sim: "simulates maxR w0 w bus S" and m: "m \<in> set (a_out (pg_view w))"
  obtains e where "m = message_of e" "e \<in> set (outs S)" "wf_event e"
    "EventType e \<in> commands \<Longrightarrow> valid_command e"
proof -
  have inv: "sys_inv maxR S"
    using sim by (simp add: simulates_def sys_run_inv)
  then obtain e where "m = message_of e" "e \<in> set (outs S)"
    using m sim by (auto simp: simulates_def sys_inv_def)
  then show thesis
    using inv by (intro that [of e]) (auto simp: sys_inv_def)
qed

text \<open>
  C9: the services never reject each other's messages: a message in the outbox, command, result
  or outcome, whenever it is delivered and however often, is never sent to a dead-letter topic by
  the service that consumes it; the only errors are those of the infrastructure.
\<close>

theorem no_dead_letters:
  assumes "cluster_run maxR g w0 w bus" and "gateways_ok g" and "pg_view w0 = empty_db"
    and "distinct_ids w0 w" and "m \<in> set (a_out (pg_view w))"
  shows "wpM (deliver_message maxR g m) (\<lambda>_ _. True)
    (\<lambda>err _. \<not> errors_is err ErrNonRetryable \<and> \<not> pg_healthy w) w"
proof -
  obtain S where S: "simulates maxR w0 w bus S"
    using cluster_simulated [OF assms(1-4)] by blast
  obtain e where e: "m = message_of e" "e \<in> set (outs S)" "wf_event e"
      "EventType e \<in> commands \<Longrightarrow> valid_command e"
    by (rule outbox_event [OF S assms(5)]) blast
  have "spec_of maxR w e \<noteq> Reject"
    using result_not_rejected [of maxR S e] e(2) S by (simp add: simulates_def sys_run_inv)
  then have orch: "wpM (orchestrate maxR e) (\<lambda>_ _. True)
      (\<lambda>err _. \<not> errors_is err ErrNonRetryable \<and> \<not> pg_healthy w) w"
    by (intro wpM_conseq [OF orchestrate_wp]) (auto simp: failed_as_def transient_def)
  have work: "wpM (worker_Handle g e) (\<lambda>_ _. True)
      (\<lambda>err _. \<not> errors_is err ErrNonRetryable \<and> \<not> pg_healthy w) w" if "EventType e \<in> commands"
    using e(4) [OF that]
    by (intro wpM_conseq [OF worker_Handle_wp [OF assms(2)]]) (auto simp: work_failed_def transient_def)
  show ?thesis
    using orch work topic_of_command [of e]
    by (auto simp: e(1) deliver_message_of [OF e(3)] wpM_returnM)
qed

section \<open>Every order ends\<close>

text \<open>What is left for an order: two deliveries per result its saga can still take.\<close>

definition order_messages :: "string \<Rightarrow> abs_db \<Rightarrow> message list" where
  "order_messages oid d = filter (\<lambda>m. msg_Key m = oid) (a_out d)"

definition left :: "int \<Rightarrow> string \<Rightarrow> abs_db \<Rightarrow> int" where
  "left maxR oid d =
     (case a_sagas d oid of
        None \<Rightarrow> 0
      | Some s \<Rightarrow>
          if terminal_status (Current s) then 0
          else 2 * budget maxR s -
            (if msg_Topic (last (order_messages oid d)) \<in> orchestrator_out_topics then 0 else 1))"

definition finished :: "string \<Rightarrow> abs_db \<Rightarrow> bool" where
  "finished oid d \<longleftrightarrow> (\<exists>s. a_sagas d oid = Some s \<and> terminal_status (Current s))"

text \<open>Handing the last message of an order to its consumer, \<open>n\<close> times.\<close>

fun drive :: "int \<Rightarrow> 'a pgenv_scheme gateways \<Rightarrow> string \<Rightarrow> nat \<Rightarrow> 'a pgenv_scheme \<Rightarrow> 'a pgenv_scheme" where
  "drive maxR g oid 0 w = w"
| "drive maxR g oid (Suc n) w =
     drive maxR g oid n
       (snd (deliver_message maxR g (last (order_messages oid (pg_view w))) w))"

lemma budget_positive: "saga_ok maxR s \<Longrightarrow> \<not> terminal_status (Current s) \<Longrightarrow> 0 < budget maxR s"
  by (auto simp: saga_ok_def budget_def live_status_def)

lemma order_messages_chain:
  assumes "sys_inv maxR S"
  shows "order_messages oid (store S) = map message_of (chain oid (outs S))"
  using assms by (simp add: sys_inv_def order_messages_def chain_def filter_map comp_def)

lemma left_accept:
  assumes inv: "sys_inv maxR S" and s: "a_sagas (store S) oid = Some s"
    and live: "\<not> terminal_status (Current s)" and e: "OrderID e = oid"
    and acc: "orch_spec maxR eid now e (store S) = Accept d" and eid: "eid \<notin> used_ids S"
  shows "left maxR oid d < 2 * budget maxR s - 1"
proof -
  have fresh: "eid \<notin> msg_EventID ` set (a_out (store S))" and "keyed (store S)"
    using run_inv_of [OF inv] eid by (auto simp: run_inv_def)
  have ok: "saga_ok maxR s"
    by (rule saga_ok_of [OF inv s])
  from acc \<open>keyed (store S)\<close> fresh show ?thesis
  proof (cases rule: accept_cases)
    case start
    with s e show ?thesis by simp
  next
    case (react s' r)
    then have r: "react maxR s e = Some r" and [simp]: "s' = s"
      using s e by simp_all
    let ?out = "reaction_event eid now s r"
    have d: "a_sagas d oid = Some (next_saga r s)" "last (order_messages oid d) = message_of ?out"
      using react(3) e by (auto simp: one_step_def order_messages_def)
    have "msg_Topic (message_of ?out) \<in> orchestrator_out_topics"
      using reaction_fits [OF r] by (simp add: fits_def)
    then show ?thesis
      using d budget_decreases [OF ok r] budget_positive [OF ok live] budget_nonneg [OF next_saga_ok [OF ok r]]
      by (auto simp: left_def)
  qed
qed

lemma topics_of_types:
  "EventType e \<in> result_types \<Longrightarrow> msg_Topic (message_of e) \<in> set orchestrator_topics"
  "EventType e \<in> commands \<Longrightarrow> msg_Topic (message_of e) \<notin> set orchestrator_topics"
  "EventType e \<in> commands \<Longrightarrow> msg_Topic (message_of e) \<in> orchestrator_out_topics"
  "EventType e \<in> commands \<Longrightarrow> msg_Topic (message_of e) \<in>
     set (worker_payment_topics @ worker_inventory_topics @ worker_notification_topics)"
  by (auto simp: result_types_def commands_def orchestrator_topics_def orchestrator_out_topics_def
      worker_payment_topics_def worker_inventory_topics_def worker_notification_topics_def
      message_of_def topic_defs)

text \<open>The command of a stage is answered, and the answer is taken in.\<close>

lemma drive_command:
  assumes ok: "gateways_ok g" and healthy: "pg_healthy w" and e: "wf_event e" "valid_command e"
    and new: "\<not> abs_has (EventID e) (worker_of (EventType e)) (pg_view w)"
    and v: "v = snd (deliver_message maxR g (message_of e) w)"
  obtains req resp out where "answers e out" "EventID out = event_id_at (entropy w) (drawn w)"
    "pg_view v = worker_effect (worker_of (EventType e)) e req resp out (pg_view w)"
    "pg_healthy v" "drawn v = Suc (drawn w)" "env_advances w v"
proof -
  have "wpM (worker_Handle g e) (\<lambda>_ u. command_done e w u \<and> pg_healthy u \<and> env_advances w u)
      (\<lambda>_ _. False) w"
    using worker_Handle_wp [OF ok e(2)]
    by (rule wpM_conseq) (auto simp: work_failed_def healthy)
  from wpM_never_errorD [OF this] show thesis
    using that new v topics_of_types [of e] valid_command_type [OF e(2)]
    by (auto simp: deliver_message_of [OF e(1)] command_done_def)
qed

lemma drive_result:
  assumes healthy: "pg_healthy w" and e: "wf_event e" "EventType e \<in> result_types"
    and acc: "spec_of maxR w e = Accept d"
    and v: "v = snd (deliver_message maxR g (message_of e) w)"
  shows "pg_view v = d \<and> pg_healthy v \<and> drawn v = Suc (drawn w) \<and> env_advances w v"
proof -
  have "wpM (orchestrate maxR e)
      (\<lambda>_ u. pg_view u = d \<and> pg_healthy u \<and> drawn u = Suc (drawn w) \<and> env_advances w u)
      (\<lambda>_ _. False) w"
    using orchestrate_wp by (rule wpM_conseq) (auto simp: failed_as_def done_as_def healthy acc)
  from wpM_never_errorD [OF this] show ?thesis
    using v topics_of_types(1) [OF e(2)] by (auto simp: deliver_message_of [OF e(1)])
qed

lemma accept_keeps_sagas:
  assumes "orch_spec maxR eid now e d = Accept d'" and "a_sagas d oid \<noteq> None" and "keyed d"
  shows "a_sagas d' oid \<noteq> None"
  using assms by (auto simp: orch_spec_def saga_after_start saga_after_reaction keyed_def
      split: if_splits option.splits)

lemma message_of_eqD: "message_of a = message_of b \<Longrightarrow> wf_event a \<Longrightarrow> wf_event b \<Longrightarrow> a = b"
  by (metis message_decoded sum.inject(2))

lemma last_message:
  assumes "simulates maxR w0 w bus S" and "a_sagas (pg_view w) oid = Some s"
  obtains e where "last (order_messages oid (pg_view w)) = message_of e" "e \<in> set (outs S)"
    "OrderID e = oid" "wf_event e" "message_of e \<in> set (bus @ a_out (pg_view w))"
    "token maxR (pg_view w) s e"
proof -
  have inv: "sys_inv maxR S" and st: "store S = pg_view w"
    using assms(1) by (auto simp: simulates_def sys_run_inv)
  obtain old e where e: "chain oid (outs S) = old @ [e]" "token maxR (pg_view w) s e"
    using chain_ok_of [OF inv, of oid] assms(2) st by (auto simp: chain_ok_def)
  then have mem: "e \<in> set (outs S)" "OrderID e = oid"
    using set_chain [of e oid "outs S"] by auto
  have last: "last (order_messages oid (pg_view w)) = message_of e"
    using order_messages_chain [OF inv, of oid] e(1) st by simp
  have "wf_event e" "message_of e \<in> set (bus @ a_out (pg_view w))"
    using inv mem(1) st by (auto simp: sys_inv_def)
  then show thesis
    using that last mem e(2) by blast
qed

lemma drive_step:
  assumes sim: "simulates maxR w0 w bus S" and ok: "gateways_ok g" and healthy: "pg_healthy w"
    and s: "a_sagas (pg_view w) oid = Some s" and live: "\<not> terminal_status (Current s)"
    and ids: "distinct_ids w0 (w\<lparr>drawn := Suc (drawn w)\<rparr>)"
    and v: "v = snd (deliver_message maxR g (last (order_messages oid (pg_view w))) w)"
  shows "pg_healthy v \<and> drawn v = Suc (drawn w) \<and> left maxR oid (pg_view v) < left maxR oid (pg_view w) \<and>
    a_sagas (pg_view v) oid \<noteq> None \<and> (\<exists>S'. simulates maxR w0 v bus S')"
proof -
  have inv: "sys_inv maxR S" and st: "store S = pg_view w" and ent: "entropy w = entropy w0"
    and used: "used_ids S = event_id_at (entropy w0) ` {drawn w0 ..< drawn w}"
    and dr: "drawn w0 \<le> drawn w"
    using sim by (auto simp: simulates_def sys_run_inv)
  obtain e where last: "last (order_messages oid (pg_view w)) = message_of e"
      and mem: "e \<in> set (outs S)" "OrderID e = oid" and wf: "wf_event e"
      and m: "message_of e \<in> set (bus @ a_out (pg_view w))" and tok: "token maxR (pg_view w) s e"
    by (rule last_message [OF sim s])
  have fresh: "event_id_at (entropy w0) (drawn w) \<notin> used_ids S"
    using fresh_id [OF ids dr] used by simp
  have next_sim: "\<exists>S'. simulates maxR w0 v bus S'" if "drawn v = Suc (drawn w)"
    using simulates_deliver [OF sim m ok] v last ids that by (simp add: distinct_ids_def)
  from tok live consider
      (command) "valid_command e" "\<not> abs_has (EventID e) (worker_of (EventType e)) (pg_view w)"
    | (result) "EventType e \<in> result_types" "react maxR s e \<noteq> None"
        "\<not> abs_has (EventID e) orchestrator_component (pg_view w)"
    by (auto simp: token_def)
  then show ?thesis
  proof cases
    case command
    obtain req resp out where out: "answers e out" "EventID out = event_id_at (entropy w) (drawn w)"
        "pg_view v = worker_effect (worker_of (EventType e)) e req resp out (pg_view w)"
        "pg_healthy v" "drawn v = Suc (drawn w)"
      by (rule drive_command [OF ok healthy wf command v [unfolded last]])
    have "EventID out \<notin> msg_EventID ` set (a_out (pg_view w))"
      using run_inv_of [OF inv] fresh out(2) st ent by (auto simp: run_inv_def)
    then have "last (order_messages oid (pg_view v)) = message_of out"
      using out(1,3) mem(2) by (simp add: order_messages_def worker_effect_out answers_def)
    moreover have "EventType out \<in> result_types"
      using out(1) command(1) by (auto simp: answers_def valid_command_def result_types_def)
    ultimately have "left maxR oid (pg_view v) = 2 * budget maxR s - 1"
      using s live out(3) result_topic_foreign [of out] by (simp add: left_def)
    moreover have "left maxR oid (pg_view w) = 2 * budget maxR s"
      using s live last topics_of_types(3) valid_command_type [OF command(1)] by (simp add: left_def)
    ultimately show ?thesis
      using out(3,4,5) s next_sim by simp
  next
    case result
    then obtain d where acc: "spec_of maxR w e = Accept d"
      using s mem by (auto simp: orch_spec_def result_types_def)
    from drive_result [OF healthy wf result(1) acc v [unfolded last]]
    have out: "pg_view v = d" "pg_healthy v" "drawn v = Suc (drawn w)"
      by simp_all
    have "left maxR oid d < 2 * budget maxR s - 1"
      using left_accept [OF inv _ live mem(2) _ fresh] s acc st ent by simp
    moreover have "left maxR oid (pg_view w) = 2 * budget maxR s - 1"
      using s live last result_topic_foreign [OF result(1)] by (simp add: left_def)
    ultimately show ?thesis
      using out s next_sim accept_keeps_sagas [OF acc _ keyed_pg_view, of oid] by simp
  qed
qed

lemma left_nonneg:
  "saga_ok maxR s \<Longrightarrow> a_sagas d oid = Some s \<Longrightarrow> 0 \<le> left maxR oid d \<and>
     (left maxR oid d = 0 \<longleftrightarrow> terminal_status (Current s)) \<and> left maxR oid d \<le> 2 * result_limit maxR"
  using budget_positive [of maxR s]
  by (cases "Current s") (auto simp: left_def budget_def saga_ok_def result_limit_def live_status_def)

lemma drive_ends:
  assumes "gateways_ok g" and "simulates maxR w0 w bus S" and "pg_healthy w"
    and "a_sagas (pg_view w) oid \<noteq> None" and "left maxR oid (pg_view w) \<le> int k"
    and "distinct_ids w0 (w\<lparr>drawn := drawn w + k\<rparr>)"
  shows "\<exists>n \<le> k. finished oid (pg_view (drive maxR g oid n w))"
  using assms(2-)
proof (induction k arbitrary: w S)
  case 0
  then obtain s where s: "a_sagas (pg_view w) oid = Some s"
    by auto
  then have "saga_ok maxR s"
    using saga_ok_of [of maxR S oid s] 0(1) by (simp add: simulates_def sys_run_inv)
  from left_nonneg [OF this s] have "terminal_status (Current s)"
    using 0(4) by auto
  with s show ?case
    by (auto simp: finished_def)
next
  case (Suc k)
  then obtain s where s: "a_sagas (pg_view w) oid = Some s"
    by auto
  show ?case
  proof (cases "terminal_status (Current s)")
    case True
    with s show ?thesis
      by (intro exI [of _ 0]) (simp add: finished_def)
  next
    case False
    let ?v = "snd (deliver_message maxR g (last (order_messages oid (pg_view w))) w)"
    have "distinct_ids w0 (w\<lparr>drawn := Suc (drawn w)\<rparr>)"
      by (rule distinct_ids_mono [OF Suc.prems(5)]) simp
    from drive_step [OF Suc.prems(1) assms(1) Suc.prems(2) s False this refl]
    obtain S' where v: "pg_healthy ?v" "drawn ?v = Suc (drawn w)"
        "left maxR oid (pg_view ?v) < left maxR oid (pg_view w)" "a_sagas (pg_view ?v) oid \<noteq> None"
        "simulates maxR w0 ?v bus S'"
      by blast
    have "distinct_ids w0 (?v\<lparr>drawn := drawn ?v + k\<rparr>)"
      using Suc.prems(5) v(2) by (simp add: distinct_ids_def)
    moreover have "left maxR oid (pg_view ?v) \<le> int k"
      using v(3) Suc.prems(4) by simp
    ultimately obtain n where "n \<le> k" "finished oid (pg_view (drive maxR g oid n ?v))"
      using Suc.IH [OF v(5,1,4)] by blast
    then show ?thesis
      by (intro exI [of _ "Suc n"]) simp
  qed
qed

text \<open>
  C10: every order ends: from any state the running system can be in, however it got there, once
  the infrastructure answers, delivering the last message of an order to its consumer at most
  \<open>6 * (maxRetries + 1)\<close> times completes or fails the order. No order is ever stuck, and no
  gateway answers can keep it running.
\<close>

theorem every_order_ends:
  assumes "cluster_run maxR g w0 w bus" and "gateways_ok g" and "pg_view w0 = empty_db"
    and "pg_healthy w" and "a_sagas (pg_view w) oid \<noteq> None"
    and "distinct_ids w0 (w\<lparr>drawn := drawn w + nat (6 * (max 0 maxR + 1))\<rparr>)"
  shows "\<exists>n \<le> nat (6 * (max 0 maxR + 1)). finished oid (pg_view (drive maxR g oid n w))"
proof -
  have "distinct_ids w0 w"
    using distinct_ids_mono [OF assms(6)] by simp
  then obtain S where S: "simulates maxR w0 w bus S"
    using cluster_simulated [OF assms(1-3)] by blast
  obtain s where s: "a_sagas (pg_view w) oid = Some s"
    using assms(5) by auto
  then have "saga_ok maxR s"
    using saga_ok_of [of maxR S oid s] S by (simp add: simulates_def sys_run_inv)
  then have "left maxR oid (pg_view w) \<le> int (nat (6 * (max 0 maxR + 1)))"
    using left_nonneg [OF _ s] by (simp add: result_limit_def)
  then show ?thesis
    using drive_ends [OF assms(2) S assms(4,5)] assms(6) by simp
qed

section \<open>An example run\<close>

text \<open>An order is created and its first message delivered, with the production simulators.\<close>

definition one_order :: pgenv where
  "one_order = (empty_world (\<lambda>_. NoFault))\<lparr>drawn := 1, ticks := 1\<rparr>"

definition created_message :: message where
  "created_message = message_of (created_event
     (event_id_at (entropy (empty_world (\<lambda>_. NoFault))) 0) 0 ''o'')"

definition started :: "(int \<Rightarrow> rat) \<Rightarrow> pgenv" where
  "started f64 = snd (deliver_message 3 (simulators f64) created_message one_order)"

lemma started_eq:
  "started f64 = snd (HandleEvent (New_orchestrator WithTx 3)
     (created_event (event_id_at (entropy (empty_world (\<lambda>_. NoFault))) 0) 0 ''o'') one_order)"
proof -
  have "msg_Topic (message_of (created_event eid now oid)) \<in> set orchestrator_topics" for eid now oid
    by (simp add: orchestrator_topics_def created_event_def message_of_def)
  then show ?thesis
    by (simp add: started_def created_message_def deliver_message_of [OF wf_created_event])
qed

lemma started_run:
  "cluster_run 3 (simulators f64) (empty_world (\<lambda>_. NoFault)) (started f64) [created_message]"
proof -
  have "cluster_run 3 (simulators f64) (empty_world (\<lambda>_. NoFault)) one_order [created_message]"
    using cluster_create [OF cluster_start, of 3 "simulators f64" "empty_world (\<lambda>_. NoFault)" "''o''"]
    by (simp add: one_order_def created_message_def empty_world_def)
  then show ?thesis
    unfolding started_def by (rule cluster_deliver) simp
qed

lemma started_state:
  "drawn (started f64) = 2" "pg_healthy (started f64)"
  "a_sagas (pg_view (started f64)) ''o'' \<noteq> None"
  by (simp_all add: started_eq one_order_def created_event_def run_defs journal_row_of_def pg_view_def
      pg_healthy_def)

lemma every_order_ends_witness:
  "\<exists>n \<le> 24. finished ''o'' (pg_view (drive 3 (simulators (\<lambda>_. 0)) ''o'' n (started (\<lambda>_. 0))))"
proof -
  have "nat (6 * (max 0 (3::int) + 1)) = 24"
    by simp
  moreover have "distinct_ids (empty_world (\<lambda>_. NoFault)) ((started (\<lambda>_. 0))\<lparr>drawn := drawn (started (\<lambda>_. 0)) + 24\<rparr>)"
    by (rule distinct_ids_empty_world) (simp add: started_state)
  ultimately show ?thesis
    using every_order_ends [OF started_run simulators_ok _ started_state(2,3)] by simp
qed

lemma no_dead_letters_witness:
  "let w = started (\<lambda>_. 0); m = hd (a_out (pg_view w)) in
   wpM (deliver_message 3 (simulators (\<lambda>_. 0)) m) (\<lambda>_ _. True)
     (\<lambda>err _. \<not> errors_is err ErrNonRetryable \<and> \<not> pg_healthy w) w"
  unfolding Let_def
  by (rule no_dead_letters [OF started_run simulators_ok])
    (simp_all add: distinct_ids_empty_world started_state, simp add: started_eq one_order_def
      created_event_def run_defs journal_row_of_def pg_view_def)

end
