(* ===== verification/Consumer.thy ===== *)
theory Consumer
  imports Topics Config
begin

text \<open>
  The Kafka consumer of \<open>internal/infrastructure/kafka/consumer.go\<close>: one consuming goroutine
  (\<open>consumeWorker\<close>) with its batch of pending commits, the dead-letter queue, the reconnection
  of a reader the watchdog has cancelled, and the watchdog itself.

  The Kafka client is not part of the repository. What it answers is an input: the plans of the
  record \<open>kafka_env\<close> give the answer of every call, any answers at all, and \<open>trace\<close> is
  the list of the calls made so far, the observable behaviour of the goroutine. The world of the
  handler is the component \<open>svc\<close>. Logs and traces are left out.
\<close>

section \<open>Messages and the outside world\<close>

datatype payload = JsonText json | NotJson string

record kafka_message =
  km_Topic :: string
  km_Partition :: int
  km_Offset :: int
  km_Key :: string
  km_Value :: payload

text \<open>\<open>json.Unmarshal(msg.Value, &event)\<close>\<close>

definition decode :: "payload \<Rightarrow> go_error + event" where
  "decode v = (case v of JsonText j \<Rightarrow> unmarshal_event j
     | NotJson s \<Rightarrow> Inl (ErrText ''invalid character''))"

text \<open>
  \<open>FetchMessage(fetchCtx)\<close> gives a message, an error while \<open>fetchCtx\<close> is alive, or an error
  after \<open>fetchCtx\<close> has been cancelled: by the watchdog, or because its parent is done.
\<close>

datatype fetch_result = Fetched kafka_message | FetchError go_error | FetchCancelled

datatype call =
    OpenReader nat
  | CloseReader nat
  | Fetch nat fetch_result
  | Handle event "go_error option"
  | WriteDLQ kafka_message "go_error option"
  | CommitOffsets nat "kafka_message list" "go_error option"
  | Wait int "go_error option"

record 'w kafka_env = env +
  svc :: 'w
  readers :: nat
  fetch_plan :: "nat \<Rightarrow> fetch_result"
  error_plan :: "nat \<Rightarrow> go_error option"
  trace :: "call list"

type_synonym 'w event_handler = "event \<Rightarrow> ('w, go_error, unit) io"

definition log_call :: "call \<Rightarrow> 'w kafka_env \<Rightarrow> 'w kafka_env" where
  "log_call c w = w\<lparr>trace := trace w @ [c]\<rparr>"

definition FetchMessage :: "nat \<Rightarrow> ('w kafka_env, 'e, fetch_result) io" where
  "FetchMessage r w =
     (let res = fetch_plan w (length (trace w)) in (Inr res, log_call (Fetch r res) w))"

definition CommitMessages ::
  "nat \<Rightarrow> kafka_message list \<Rightarrow> ('w kafka_env, 'e, go_error option) io" where
  "CommitMessages r ms w =
     (let res = error_plan w (length (trace w)) in (Inr res, log_call (CommitOffsets r ms res) w))"

definition WriteMessages :: "kafka_message \<Rightarrow> ('w kafka_env, 'e, go_error option) io" where
  "WriteMessages m w =
     (let res = error_plan w (length (trace w)) in (Inr res, log_call (WriteDLQ m res) w))"

definition Reader_Close :: "nat \<Rightarrow> ('w kafka_env, 'e, unit) io" where
  "Reader_Close r w = (Inr (), log_call (CloseReader r) w)"

text \<open>\<open>newReader\<close>: a reader with the next number, appended to the readers of the consumer.\<close>

definition newReader :: "('w kafka_env, 'e, nat) io" where
  "newReader w = (Inr (readers w), (log_call (OpenReader (readers w)) w)\<lparr>readers := Suc (readers w)\<rparr>)"

definition waitForRetry :: "int \<Rightarrow> ('w kafka_env, 'e, go_error option) io" where
  "waitForRetry delay w =
     (let res = error_plan w (length (trace w)) in (Inr res, log_call (Wait delay res) w))"

definition run_handler :: "'w event_handler \<Rightarrow> event \<Rightarrow> ('w kafka_env, 'e, go_error option) io" where
  "run_handler handler e w =
     (case handler e (svc w) of (r, v) \<Rightarrow>
        let res = (case r of Inl err \<Rightarrow> Some err | Inr _ \<Rightarrow> None)
        in (Inr res, log_call (Handle e res) (w\<lparr>svc := v\<rparr>)))"

section \<open>Configuration and the commit batcher\<close>

record ConsumerConfig =
  Brokers :: "string list"
  GroupID :: string
  ServiceName :: string
  Workers :: int
  CommitBatch :: int
  CommitInterval :: int
  Topic :: string
  Topics :: "string list"
  DLQWriter :: bool

text \<open>\<open>DLQWriter\<close> tells whether a writer is configured.\<close>

record Consumer =
  cfg :: ConsumerConfig
  workers :: int
  commitBatch :: int
  commitInterval :: int
  dlq :: bool
  serviceName :: string

definition NewConsumer ::
  "(string \<Rightarrow> int option) \<Rightarrow> environ \<Rightarrow> ConsumerConfig \<Rightarrow> Consumer" where
  "NewConsumer parse_duration getenv c =
     (let n = (if Workers c < 1 then 1 else Workers c);
          batch = (if CommitBatch c < 1 then CommitBatchFromEnv getenv else CommitBatch c);
          interval = (if CommitInterval c < 10 * Millisecond
            then CommitIntervalFromEnv parse_duration getenv else CommitInterval c);
          name = (if ServiceName c = '''' then ''consumer'' else ServiceName c)
      in \<lparr>cfg = c, workers = n, commitBatch = batch, commitInterval = interval,
          dlq = DLQWriter c, serviceName = name\<rparr>)"

record commitBatcher =
  cb_batch :: int
  cb_interval :: int
  cb_pending :: int
  cb_last :: int

definition newCommitBatcher :: "int \<Rightarrow> int \<Rightarrow> int \<Rightarrow> commitBatcher" where
  "newCommitBatcher batch interval now =
     \<lparr>cb_batch = batch, cb_interval = interval, cb_pending = 0, cb_last = now\<rparr>"

definition batcher_add :: "commitBatcher \<Rightarrow> commitBatcher" where
  "batcher_add b = b\<lparr>cb_pending := cb_pending b + 1\<rparr>"

definition shouldFlush :: "commitBatcher \<Rightarrow> int \<Rightarrow> bool" where
  "shouldFlush b now \<longleftrightarrow> cb_pending b \<ge> cb_batch b \<or> now - cb_last b \<ge> cb_interval b"

definition batcher_reset :: "commitBatcher \<Rightarrow> int \<Rightarrow> commitBatcher" where
  "batcher_reset b now = b\<lparr>cb_pending := 0, cb_last := now\<rparr>"

section \<open>Errors and the dead-letter queue\<close>

definition consumerRetryDelay :: int where
  "consumerRetryDelay = 2 * Second"

definition shouldRetryFetch :: "go_error \<Rightarrow> bool" where
  "shouldRetryFetch err \<longleftrightarrow>
     errors_is err (ErrKafka UnknownTopicOrPartition) \<or>
     errors_is err (ErrKafka LeaderNotAvailable) \<or>
     errors_is err (ErrKafka NotLeaderForPartition) \<or>
     errors_is err (ErrKafka BrokerNotAvailable) \<or>
     errors_is err (ErrKafka GroupCoordinatorNotAvailable) \<or>
     errors_is err (ErrKafka NotCoordinatorForGroup) \<or>
     errors_is err (ErrKafka GroupLoadInProgress) \<or>
     errors_is err (ErrKafka RebalanceInProgress) \<or>
     errors_is err (ErrKafka UnknownMemberId)"

definition shouldRetryCommit :: "go_error \<Rightarrow> bool" where
  "shouldRetryCommit err = shouldRetryFetch err"

definition validateSchemaVersion :: "event \<Rightarrow> go_error option" where
  "validateSchemaVersion e =
     (if SchemaVersion e \<noteq> CurrentSchemaVersion then Some (ErrText ''schema_version nao suportado'')
      else None)"

text \<open>The copy of a message that goes to the dead-letter topic: its key and its value.\<close>

definition dlq_copy :: "kafka_message \<Rightarrow> kafka_message" where
  "dlq_copy msg = \<lparr>km_Topic = DLQTopicFor (km_Topic msg), km_Partition = 0, km_Offset = 0,
     km_Key = km_Key msg, km_Value = km_Value msg\<rparr>"

text \<open>The result is whether the message was moved; the commit's error is only logged.\<close>

definition moveToDLQ ::
  "bool \<Rightarrow> nat \<Rightarrow> kafka_message \<Rightarrow> go_error \<Rightarrow> ('w kafka_env, 'e, go_error + bool) io" where
  "moveToDLQ has_dlq reader msg err =
     (if \<not> has_dlq \<or> \<not> errors_is err ErrNonRetryable then returnM (Inr False)
      else
      tryM (WriteMessages (dlq_copy msg)) (\<lambda>writeErr.
      case writeErr of
        Some e \<Rightarrow> returnM (Inl (Wrapf ''erro ao mover mensagem para a DLQ'' e))
      | None \<Rightarrow>
          tryM (record_metric (RecordDLQ (km_Topic msg))) (\<lambda>_.
          tryM (CommitMessages reader [msg]) (\<lambda>commitErr. returnM (Inr True)))))"

section \<open>The consuming loop\<close>

text \<open>
  The variables of \<open>consumeWorker\<close>: the current reader, the channel that stops the current
  watchdog and the channels closed so far, the batcher and the pending commits. Readers and
  channels are numbered; channel 0 is the one made before the loop, to which the deferred
  \<open>close(stallStop)\<close> is bound.
\<close>

record worker_state =
  reader :: nat
  stallStop :: nat
  closedChans :: "nat list"
  batcher :: commitBatcher
  pendingCommits :: "kafka_message list"

definition flush :: "worker_state \<Rightarrow> ('w kafka_env, 'e, go_error option \<times> worker_state) io" where
  "flush l =
     (if pendingCommits l = [] then returnM (None, l)
      else
      tryM (CommitMessages (reader l) (pendingCommits l)) (\<lambda>err.
      tryM time_Now (\<lambda>now.
      returnM (err, l\<lparr>batcher := batcher_reset (batcher l) now, pendingCommits := []\<rparr>))))"

text \<open>Before the loop: the first reader, its watchdog, the batcher.\<close>

definition start_worker :: "Consumer \<Rightarrow> ('w kafka_env, 'e, worker_state) io" where
  "start_worker c =
     tryM newReader (\<lambda>r.
     tryM time_Now (\<lambda>now.
     returnM \<lparr>reader = r, stallStop = 0, closedChans = [],
       batcher = newCommitBatcher (commitBatch c) (commitInterval c) now, pendingCommits = []\<rparr>))"

text \<open>The branch of a cancelled fetch: flush, close the reader and its watchdog, start anew.\<close>

definition reconnect :: "Consumer \<Rightarrow> worker_state \<Rightarrow> ('w kafka_env, 'e, worker_state) io" where
  "reconnect c l =
     tryM (flush l) (\<lambda>(_, l).
     tryM (record_metric (RecordConsumerReconnect (serviceName c))) (\<lambda>_.
     tryM (Reader_Close (reader l)) (\<lambda>_.
     tryM newReader (\<lambda>r.
     returnM (l\<lparr>reader := r, closedChans := stallStop l # closedChans l,
       stallStop := Suc (stallStop l)\<rparr>)))))"

text \<open>
  One iteration of the loop. An error of the action is a \<open>return\<close> out of the loop, with the
  variables at that point for the deferred calls.
\<close>

definition consumer_step ::
  "Consumer \<Rightarrow> 'w event_handler \<Rightarrow> worker_state \<Rightarrow>
     ('w kafka_env, go_error \<times> worker_state, worker_state) io" where
  "consumer_step c handler l =
     tryM (FetchMessage (reader l)) (\<lambda>fetched.
     case fetched of
       FetchCancelled \<Rightarrow> reconnect c l
     | FetchError err \<Rightarrow>
         if shouldRetryFetch err
         then tryM (waitForRetry consumerRetryDelay) (\<lambda>waitErr.
           case waitErr of
             Some e \<Rightarrow> tryM (flush l) (\<lambda>(_, l). failM (e, l))
           | None \<Rightarrow> returnM l)
         else tryM (flush l) (\<lambda>(_, l). failM (Wrapf ''erro ao ler mensagem'' err, l))
     | Fetched msg \<Rightarrow>
        (case decode (km_Value msg) of
           Inl err \<Rightarrow>
             tryM (moveToDLQ (dlq c) (reader l) msg
                     (Wrapf ''erro ao desserializar evento'' ErrNonRetryable)) (\<lambda>moved.
             case moved of
               Inl moveErr \<Rightarrow> failM (moveErr, l)
             | Inr True \<Rightarrow> returnM l
             | Inr False \<Rightarrow> failM (Wrapf ''erro ao desserializar evento'' err, l))
         | Inr event \<Rightarrow>
         (case validateSchemaVersion event of
            Some err \<Rightarrow>
              tryM (moveToDLQ (dlq c) (reader l) msg (Wrapf (error_text err) ErrNonRetryable)) (\<lambda>moved.
              case moved of
                Inl moveErr \<Rightarrow> failM (moveErr, l)
              | Inr True \<Rightarrow> returnM l
              | Inr False \<Rightarrow> failM (err, l))
          | None \<Rightarrow>
          tryM (record_metric (RecordReceived (serviceName c) (event_type_text (EventType event)))) (\<lambda>_.
          tryM time_Now (\<lambda>start.
          tryM (run_handler handler event) (\<lambda>result.
          case result of
            Some err \<Rightarrow>
              tryM (record_metric (RecordError (serviceName c) (event_type_text (EventType event)))) (\<lambda>_.
              tryM (moveToDLQ (dlq c) (reader l) msg (Wrapf ''erro ao processar evento'' err)) (\<lambda>moved.
              case moved of
                Inl moveErr \<Rightarrow> failM (moveErr, l)
              | Inr True \<Rightarrow> returnM l
              | Inr False \<Rightarrow> failM (err, l)))
          | None \<Rightarrow>
              tryM time_Now (\<lambda>finish.
              tryM (record_metric (RecordProcessed (serviceName c) (event_type_text (EventType event))
                      (finish - start))) (\<lambda>_.
              let l = l\<lparr>pendingCommits := pendingCommits l @ [msg],
                    batcher := batcher_add (batcher l)\<rparr> in
              tryM time_Now (\<lambda>now.
              if shouldFlush (batcher l) now then tryM (flush l) (\<lambda>(err, l). returnM l)
              else returnM l)))))))))"

fun consumer_loop ::
  "Consumer \<Rightarrow> 'w event_handler \<Rightarrow> nat \<Rightarrow> worker_state \<Rightarrow>
     ('w kafka_env, go_error \<times> worker_state, worker_state) io" where
  "consumer_loop c handler 0 l = returnM l"
| "consumer_loop c handler (Suc n) l = tryM (consumer_step c handler l) (consumer_loop c handler n)"

text \<open>
  The deferred calls run in reverse order: the channel bound at the \<open>defer\<close> is closed, which
  panics when it is closed already, and the current reader is closed in either case.
\<close>

datatype worker_outcome = Running worker_state | Returned go_error | Panicked string

definition deferred :: "go_error \<Rightarrow> worker_state \<Rightarrow> 'w kafka_env \<Rightarrow> worker_outcome \<times> 'w kafka_env" where
  "deferred err l w =
     (let outcome = (if 0 \<in> set (closedChans l) then Panicked ''close of closed channel''
            else Returned err)
      in (outcome, log_call (CloseReader (reader l)) w))"

text \<open>What \<open>consumeWorker\<close> has done after at most \<open>n\<close> iterations of its loop.\<close>

definition consumeWorker ::
  "Consumer \<Rightarrow> 'w event_handler \<Rightarrow> nat \<Rightarrow> 'w kafka_env \<Rightarrow> worker_outcome \<times> 'w kafka_env" where
  "consumeWorker c handler n w =
     (case tryM (start_worker c) (consumer_loop c handler n) w of
        (Inr l, v) \<Rightarrow> (Running l, v)
      | (Inl (err, l), v) \<Rightarrow> deferred err l v)"

section \<open>The watchdog\<close>

definition stallCheckInterval :: int where
  "stallCheckInterval = 15 * Second"

definition stallTimeout :: int where
  "stallTimeout = 45 * Second"

definition stallDetected :: "int \<Rightarrow> int \<Rightarrow> int \<Rightarrow> int \<Rightarrow> bool" where
  "stallDetected current lst elapsed tout \<longleftrightarrow> current \<le> lst \<and> elapsed \<ge> tout"

record watchdog =
  lastFetches :: int
  lastProgress :: int

definition start_watchdog :: "int \<Rightarrow> watchdog" where
  "start_watchdog now = \<lparr>lastFetches = - 1, lastProgress = now\<rparr>"

text \<open>
  One tick: the count of fetches the reader reports, the time, and whether it cancels. The gauge
  shows the time since the last progress before this tick.
\<close>

definition watchdog_tick :: "int \<times> int \<Rightarrow> watchdog \<Rightarrow> bool \<times> watchdog" where
  "watchdog_tick sample wd =
     (case sample of (fetches, now) \<Rightarrow>
        if fetches > lastFetches wd then (False, \<lparr>lastFetches = fetches, lastProgress = now\<rparr>)
        else if stallDetected fetches (lastFetches wd) (now - lastProgress wd) stallTimeout
        then (True, wd\<lparr>lastProgress := now\<rparr>)
        else (False, wd))"

definition watchdog_gauge :: "string \<Rightarrow> int \<times> int \<Rightarrow> watchdog \<Rightarrow> registry \<Rightarrow> registry" where
  "watchdog_gauge name sample wd = SetConsumerLastProgress name (snd sample - lastProgress wd)"

fun watchdogStall :: "(int \<times> int) list \<Rightarrow> watchdog \<Rightarrow> bool list" where
  "watchdogStall [] wd = []"
| "watchdogStall (s # ss) wd = (case watchdog_tick s wd of (b, wd') \<Rightarrow> b # watchdogStall ss wd')"

end
