(* ===== verification/ConsumerCorrect.thy ===== *)
theory ConsumerCorrect
  imports Consumer
begin

text \<open>
  What the consumer promises, whatever the broker, the dead-letter writer and the handler answer.
  A monitor reads the calls of a goroutine in order and accepts exactly the disciplined ones; the
  goroutine's calls are always accepted. A replay of the fetched messages gives the state of the
  handler's world. The last section is about stopping: a cancelled context and the deferred close.
\<close>

section \<open>Runs of the primitives\<close>

lemma log_call_simps [simp]:
  "trace (log_call c w) = trace w @ [c]" "svc (log_call c w) = svc w"
  "readers (log_call c w) = readers w" "fetch_plan (log_call c w) = fetch_plan w"
  "error_plan (log_call c w) = error_plan w" "clock (log_call c w) = clock w"
  "ticks (log_call c w) = ticks w" "metrics (log_call c w) = metrics w"
  "log_call c (w\<lparr>metrics := m\<rparr>) = (log_call c w)\<lparr>metrics := m\<rparr>"
  "log_call c (w\<lparr>ticks := n\<rparr>) = (log_call c w)\<lparr>ticks := n\<rparr>"
  "log_call c (w\<lparr>readers := k\<rparr>) = (log_call c w)\<lparr>readers := k\<rparr>"
  "log_call c (w\<lparr>svc := s\<rparr>) = (log_call c w)\<lparr>svc := s\<rparr>"
  by (simp_all add: log_call_def)

lemma wpM_consumer_calls [wp_simps]:
  "wpM (FetchMessage r) Q E w = (let res = fetch_plan w (length (trace w)) in Q res (log_call (Fetch r res) w))"
  "wpM (CommitMessages r ms) Q2 E w =
     (let res = error_plan w (length (trace w)) in Q2 res (log_call (CommitOffsets r ms res) w))"
  "wpM (WriteMessages m) Q2 E w =
     (let res = error_plan w (length (trace w)) in Q2 res (log_call (WriteDLQ m res) w))"
  "wpM (Reader_Close r) Q3 E w = Q3 () (log_call (CloseReader r) w)"
  "wpM newReader Q4 E w = Q4 (readers w)
     ((log_call (OpenReader (readers w)) w)\<lparr>readers := Suc (readers w)\<rparr>)"
  "wpM (waitForRetry d) Q2 E w =
     (let res = error_plan w (length (trace w)) in Q2 res (log_call (Wait d res) w))"
  "wpM (run_handler h e) Q2 E w =
     (let res = (case fst (h e (svc w)) of Inl err \<Rightarrow> Some err | Inr _ \<Rightarrow> None)
      in Q2 res (log_call (Handle e res) (w\<lparr>svc := snd (h e (svc w))\<rparr>)))"
  by (simp_all add: wpM_def FetchMessage_def CommitMessages_def WriteMessages_def Reader_Close_def
      newReader_def waitForRetry_def run_handler_def Let_def split: prod.splits)

section \<open>The monitor\<close>

text \<open>
  The state of the monitor: the open reader, the messages fetched through it, and the message
  being worked on with the error its handler returned, if it has run.
\<close>

record monitor =
  m_reader :: "nat option"
  m_fetched :: "kafka_message list"
  m_open :: "(kafka_message \<times> go_error option) option"

definition idle :: monitor where
  "idle = \<lparr>m_reader = None, m_fetched = [], m_open = None\<rparr>"

text \<open>The reasons for which a message may go to the dead-letter topic.\<close>

definition definitive :: "kafka_message \<Rightarrow> go_error option \<Rightarrow> bool" where
  "definitive m why =
     (case decode (km_Value m) of
        Inl _ \<Rightarrow> True
      | Inr e \<Rightarrow> SchemaVersion e \<noteq> CurrentSchemaVersion \<or>
          (case why of Some err \<Rightarrow> errors_is err ErrNonRetryable | None \<Rightarrow> False))"

text \<open>
  What is allowed: a new message is fetched, and offsets are committed, only when the message
  before has been handled with success or written to the dead-letter topic; offsets are committed
  through the reader that fetched the messages; a handler only runs on a message that decodes to
  an event of the current schema; only a definitive failure goes to the dead-letter topic.
\<close>

fun observe :: "bool \<Rightarrow> call \<Rightarrow> monitor \<Rightarrow> monitor option" where
  "observe d (OpenReader r) M =
     (if m_reader M = None \<and> m_open M = None
      then Some (M\<lparr>m_reader := Some r, m_fetched := []\<rparr>) else None)"
| "observe d (CloseReader r) M =
     (if m_reader M = Some r then Some (M\<lparr>m_reader := None\<rparr>) else None)"
| "observe d (Fetch r res) M =
     (if m_reader M = Some r \<and> m_open M = None
      then Some (case res of
          Fetched m \<Rightarrow> M\<lparr>m_fetched := m_fetched M @ [m], m_open := Some (m, None)\<rparr>
        | _ \<Rightarrow> M)
      else None)"
| "observe d (Handle e res) M =
     (case m_open M of
        Some (m, None) \<Rightarrow>
          if decode (km_Value m) = Inr e \<and> SchemaVersion e = CurrentSchemaVersion
          then Some (M\<lparr>m_open := (case res of None \<Rightarrow> None | Some err \<Rightarrow> Some (m, Some err))\<rparr>)
          else None
      | _ \<Rightarrow> None)"
| "observe d (WriteDLQ copy res) M =
     (case m_open M of
        Some (m, why) \<Rightarrow>
          if d \<and> copy = dlq_copy m \<and> definitive m why
          then Some (if res = None then M\<lparr>m_open := None\<rparr> else M) else None
      | None \<Rightarrow> None)"
| "observe d (CommitOffsets r ms res) M =
     (if m_reader M = Some r \<and> m_open M = None \<and> set ms \<subseteq> set (m_fetched M)
      then Some M else None)"
| "observe d (Wait t res) M = (if m_open M = None then Some M else None)"

fun observes :: "bool \<Rightarrow> call list \<Rightarrow> monitor \<Rightarrow> monitor option" where
  "observes d [] M = Some M"
| "observes d (c # cs) M = Option.bind (observe d c M) (observes d cs)"

lemma observes_append:
  "observes d (cs @ ds) M = Option.bind (observes d cs M) (observes d ds)"
  by (induction cs arbitrary: M) (simp_all add: bind_assoc cong: Option.bind_cong)

section \<open>The goroutine is accepted\<close>

text \<open>The calls since \<open>w0\<close> bring the monitor to state \<open>M\<close>.\<close>

definition watched :: "bool \<Rightarrow> 'w kafka_env \<Rightarrow> monitor \<Rightarrow> 'w kafka_env \<Rightarrow> bool" where
  "watched d w0 M w \<longleftrightarrow> (\<exists>tr. trace w = trace w0 @ tr \<and> observes d tr idle = Some M)"

lemma watched_start: "trace w = trace w0 \<Longrightarrow> watched d w0 idle w"
  by (simp add: watched_def)

lemma watched_log:
  "watched d w0 M w \<Longrightarrow> observe d c M = Some M' \<Longrightarrow> trace v = trace w @ [c] \<Longrightarrow> watched d w0 M' v"
  by (auto simp: watched_def observes_append)

lemma watched_env [simp]:
  "watched d w0 M (w\<lparr>metrics := reg\<rparr>) = watched d w0 M w"
  "watched d w0 M (w\<lparr>ticks := t\<rparr>) = watched d w0 M w"
  "watched d w0 M (w\<lparr>readers := k\<rparr>) = watched d w0 M w"
  "watched d w0 M (w\<lparr>svc := s\<rparr>) = watched d w0 M w"
  by (simp_all add: watched_def)

text \<open>Between two iterations nothing is open, and what is pending was fetched by this reader.\<close>

definition agrees :: "bool \<Rightarrow> 'w kafka_env \<Rightarrow> worker_state \<Rightarrow> 'w kafka_env \<Rightarrow> bool" where
  "agrees d w0 l w \<longleftrightarrow> (\<exists>M. watched d w0 M w \<and> m_reader M = Some (reader l) \<and> m_open M = None \<and>
     set (pendingCommits l) \<subseteq> set (m_fetched M))"

definition leaves :: "bool \<Rightarrow> 'w kafka_env \<Rightarrow> worker_state \<Rightarrow> 'w kafka_env \<Rightarrow> bool" where
  "leaves d w0 l w \<longleftrightarrow> (\<exists>M. watched d w0 M w \<and> m_reader M = Some (reader l))"

lemma agrees_leaves: "agrees d w0 l w \<Longrightarrow> leaves d w0 l w"
  by (auto simp: agrees_def leaves_def)

lemma agrees_env [simp]:
  "agrees d w0 l (w\<lparr>metrics := reg\<rparr>) = agrees d w0 l w"
  "agrees d w0 l (w\<lparr>ticks := t\<rparr>) = agrees d w0 l w"
  "agrees d w0 l (w\<lparr>readers := k\<rparr>) = agrees d w0 l w"
  "agrees d w0 l (w\<lparr>svc := s\<rparr>) = agrees d w0 l w"
  by (simp_all add: agrees_def)

lemma leaves_env [simp]: "leaves d w0 l (w\<lparr>metrics := m\<rparr>) = leaves d w0 l w"
  by (simp add: leaves_def)

lemma flush_agrees:
  assumes "agrees d w0 l w"
  shows "wpM (flush l) (\<lambda>(err, l') v. agrees d w0 l' v \<and> pendingCommits l' = [] \<and>
    reader l' = reader l \<and> stallStop l' = stallStop l \<and> closedChans l' = closedChans l) E w"
proof (cases "pendingCommits l = []")
  case True
  with assms show ?thesis
    by (simp add: flush_def wp_simps)
next
  case False
  from assms obtain M where M: "watched d w0 M w" "m_reader M = Some (reader l)" "m_open M = None"
    "set (pendingCommits l) \<subseteq> set (m_fetched M)"
    by (auto simp: agrees_def)
  have "agrees d w0 (l\<lparr>batcher := b, pendingCommits := []\<rparr>) v"
    if "trace v = trace w @ [CommitOffsets (reader l) (pendingCommits l) res]" for b v res
  proof -
    have "watched d w0 M v"
      by (rule watched_log [OF M(1) _ that]) (use M in simp)
    with M show ?thesis
      by (auto simp: agrees_def)
  qed
  with False show ?thesis
    by (simp add: flush_def wp_simps Let_def)
qed

lemma reconnect_agrees:
  assumes "agrees d w0 l w"
  shows "wpM (reconnect c l) (agrees d w0) E w"
proof -
  have after: "agrees d w0 (l'\<lparr>reader := r, closedChans := cs, stallStop := s\<rparr>)
      (log_call (OpenReader r) (log_call (CloseReader (reader l')) v))"
    if l': "agrees d w0 l' v" "pendingCommits l' = []" for l' v r cs s
  proof -
    from l' obtain M where M: "watched d w0 M v" "m_reader M = Some (reader l')" "m_open M = None"
      by (auto simp: agrees_def)
    have 1: "watched d w0 (M\<lparr>m_reader := None\<rparr>) (log_call (CloseReader (reader l')) v)"
      by (rule watched_log [OF M(1)]) (use M in auto)
    have "watched d w0 (M\<lparr>m_reader := Some r, m_fetched := []\<rparr>)
      (log_call (OpenReader r) (log_call (CloseReader (reader l')) v))"
      by (rule watched_log [OF 1]) (use M in auto)
    with M l'(2) show ?thesis
      by (auto simp: agrees_def)
  qed
  show ?thesis
    unfolding reconnect_def wpM_tryM
    by (rule wpM_conseq [OF flush_agrees [OF assms]]) (use after in \<open>fastforce simp: wp_simps\<close>)
qed

text \<open>A message is open: it was fetched by this reader and waits for its handler or the queue.\<close>

definition working ::
  "bool \<Rightarrow> 'w kafka_env \<Rightarrow> worker_state \<Rightarrow> kafka_message \<Rightarrow> go_error option \<Rightarrow> 'w kafka_env \<Rightarrow> bool" where
  "working d w0 l m why w \<longleftrightarrow> (\<exists>M. watched d w0 M w \<and> m_reader M = Some (reader l) \<and>
     m_open M = Some (m, why) \<and> set (m # pendingCommits l) \<subseteq> set (m_fetched M))"

lemma working_env [simp]:
  "working d w0 l m why (w\<lparr>metrics := reg\<rparr>) = working d w0 l m why w"
  "working d w0 l m why (w\<lparr>ticks := t\<rparr>) = working d w0 l m why w"
  "working d w0 l m why (w\<lparr>readers := k\<rparr>) = working d w0 l m why w"
  "working d w0 l m why (w\<lparr>svc := s\<rparr>) = working d w0 l m why w"
  by (simp_all add: working_def)

lemma workingI:
  "watched d w0 M w \<Longrightarrow> m_reader M = Some (reader l) \<Longrightarrow> m_open M = Some (m, why) \<Longrightarrow>
     set (m # pendingCommits l) \<subseteq> set (m_fetched M) \<Longrightarrow> working d w0 l m why w"
  by (auto simp: working_def)

lemma agreesI:
  "watched d w0 M w \<Longrightarrow> m_reader M = Some (reader l) \<Longrightarrow> m_open M = None \<Longrightarrow>
     set (pendingCommits l) \<subseteq> set (m_fetched M) \<Longrightarrow> agrees d w0 l w"
  by (auto simp: agrees_def)

lemma working_leaves: "working d w0 l m why w \<Longrightarrow> leaves d w0 l w"
  by (auto simp: working_def leaves_def)

lemma fetch_working:
  assumes "agrees d w0 l w"
  shows "working d w0 l m None (log_call (Fetch (reader l) (Fetched m)) w)"
proof -
  from assms obtain M where M: "watched d w0 M w" "m_reader M = Some (reader l)" "m_open M = None"
    "set (pendingCommits l) \<subseteq> set (m_fetched M)"
    by (auto simp: agrees_def)
  have "watched d w0 (M\<lparr>m_fetched := m_fetched M @ [m], m_open := Some (m, None)\<rparr>)
    (log_call (Fetch (reader l) (Fetched m)) w)"
    by (rule watched_log [OF M(1)]) (use M in auto)
  then show ?thesis
    by (rule workingI) (use M in auto)
qed

lemma agrees_log:
  assumes "agrees d w0 l w" and "c = Wait t res \<or> (c = Fetch (reader l) r \<and> (\<forall>m. r \<noteq> Fetched m))"
  shows "agrees d w0 l (log_call c w)"
proof -
  from assms(1) obtain M where M: "watched d w0 M w" "m_reader M = Some (reader l)" "m_open M = None"
    "set (pendingCommits l) \<subseteq> set (m_fetched M)"
    by (auto simp: agrees_def)
  have "watched d w0 M (log_call c w)"
    by (rule watched_log [OF M(1)]) (use M assms(2) in \<open>auto split: fetch_result.split\<close>)
  with M show ?thesis
    by (auto simp: agrees_def)
qed

lemma handle_working:
  assumes "working d w0 l m None w" and "decode (km_Value m) = Inr e"
    and "SchemaVersion e = CurrentSchemaVersion" and "trace v = trace w @ [Handle e res]"
  shows "res = Some err \<Longrightarrow> working d w0 l m (Some err) v"
    and "res = None \<Longrightarrow> agrees d w0 (l\<lparr>pendingCommits := pendingCommits l @ [m], batcher := b\<rparr>) v"
proof -
  from assms(1) obtain M where M: "watched d w0 M w" "m_reader M = Some (reader l)"
    "m_open M = Some (m, None)" "set (m # pendingCommits l) \<subseteq> set (m_fetched M)"
    by (auto simp: working_def)
  have step: "watched d w0 (M\<lparr>m_open := (case res of None \<Rightarrow> None | Some err \<Rightarrow> Some (m, Some err))\<rparr>) v"
    by (rule watched_log [OF M(1) _ assms(4)]) (use M assms in simp)
  show "working d w0 l m (Some err) v" if "res = Some err"
    using that step by (intro workingI [OF step]) (use M in simp_all)
  show "agrees d w0 (l\<lparr>pendingCommits := pendingCommits l @ [m], batcher := b\<rparr>) v" if "res = None"
    using that step by (intro agreesI [OF step]) (use M in simp_all)
qed

lemma move_agrees:
  assumes w: "working d w0 l m why w" and reason: "errors_is err ErrNonRetryable \<Longrightarrow> definitive m why"
  shows "wpM (moveToDLQ d (reader l) m err)
    (\<lambda>moved v. if moved = Inr True then agrees d w0 l v else leaves d w0 l v) E w"
proof -
  from w obtain M where M: "watched d w0 M w" "m_reader M = Some (reader l)"
    "m_open M = Some (m, why)" "set (m # pendingCommits l) \<subseteq> set (m_fetched M)"
    by (auto simp: working_def)
  have written: "watched d w0 (if res = None then M\<lparr>m_open := None\<rparr> else M)
      (log_call (WriteDLQ (dlq_copy m) res) w)"
    if "d" "errors_is err ErrNonRetryable" for res
    by (rule watched_log [OF M(1)]) (use M reason that in auto)
  have moved: "agrees d w0 l (log_call (CommitOffsets (reader l) [m] res2)
      (log_call (WriteDLQ (dlq_copy m) None) w))"
    if "d" "errors_is err ErrNonRetryable" for res2
  proof -
    have "watched d w0 (M\<lparr>m_open := None\<rparr>) (log_call (CommitOffsets (reader l) [m] res2)
      (log_call (WriteDLQ (dlq_copy m) None) w))"
      by (rule watched_log [OF written [OF that, of None]]) (use M in auto)
    then show ?thesis
      by (rule agreesI) (use M in auto)
  qed
  have failed: "leaves d w0 l (log_call (WriteDLQ (dlq_copy m) (Some x)) w)"
    if "d" "errors_is err ErrNonRetryable" for x
    using written [OF that, of "Some x"] M by (auto simp: leaves_def)
  show ?thesis
    using working_leaves [OF w] moved failed
    by (auto simp: moveToDLQ_def wp_simps Let_def split: option.split)
qed

text \<open>The three uses of \<open>moveToDLQ\<close> in the loop share their continuation.\<close>

lemma move_or_return:
  assumes "working (dlq c) w0 l m why w" and "errors_is err ErrNonRetryable \<Longrightarrow> definitive m why"
  shows "wpM (tryM (moveToDLQ (dlq c) (reader l) m err) (\<lambda>moved. case moved of
        Inl moveErr \<Rightarrow> failM (moveErr, l)
      | Inr True \<Rightarrow> returnM l
      | Inr False \<Rightarrow> failM (err', l))) (agrees (dlq c) w0) (\<lambda>(_, l') v. leaves (dlq c) w0 l' v) w"
  unfolding wpM_tryM
  by (rule wpM_conseq [OF move_agrees [OF assms]]) (auto simp: wp_simps split: sum.split bool.split)

lemma consumer_step_agrees:
  assumes "agrees (dlq c) w0 l w"
  shows "wpM (consumer_step c h l) (agrees (dlq c) w0) (\<lambda>(err, l') v. leaves (dlq c) w0 l' v) w"
proof (cases "fetch_plan w (length (trace w))")
  case FetchCancelled
  show ?thesis
    using reconnect_agrees [OF agrees_log [OF assms, of "Fetch (reader l) FetchCancelled"]]
    by (simp add: consumer_step_def wp_simps FetchCancelled)
next
  case (FetchError err)
  have ag: "agrees (dlq c) w0 l (log_call (Fetch (reader l) (FetchError err)) w)"
    by (rule agrees_log [OF assms, of _ _ _ "FetchError err"]) simp
  have waited: "agrees (dlq c) w0 l (log_call (Wait t res) (log_call (Fetch (reader l) (FetchError err)) w))" for t res
    by (rule agrees_log [OF ag, of _ t res]) simp
  have fl: "wpM (tryM (flush l) (\<lambda>(_, l). failM (e, l))) P (\<lambda>(_, l') v. leaves (dlq c) w0 l' v) v"
    if "agrees (dlq c) w0 l v" for v e and P :: "worker_state \<Rightarrow> 'a kafka_env \<Rightarrow> bool"
    unfolding wpM_tryM by (rule wpM_conseq [OF flush_agrees [OF that]])
      (auto simp: wp_simps intro: agrees_leaves)
  show ?thesis
    using waited by (simp add: consumer_step_def wpM_tryM [of "FetchMessage (reader l)"]
        wpM_tryM [of "waitForRetry d" for d] wpM_consumer_calls wpM_if wpM_returnM FetchError Let_def
        fl [OF ag] fl [OF waited] split: option.split)
next
  case (Fetched m)
  let ?w = "log_call (Fetch (reader l) (Fetched m)) w"
  have wk: "working (dlq c) w0 l m None ?w"
    by (rule fetch_working [OF assms])
  show ?thesis
  proof (cases "decode (km_Value m)")
    case (Inl derr)
    have "definitive m why" for why
      by (simp add: definitive_def Inl)
    then show ?thesis
      by (simp add: consumer_step_def wpM_tryM [of "FetchMessage (reader l)"] wpM_consumer_calls Let_def
          Fetched Inl move_or_return [OF wk])
  next
    case (Inr e)
    show ?thesis
    proof (cases "SchemaVersion e = CurrentSchemaVersion")
      case False
      then have "definitive m why" for why
        by (simp add: definitive_def Inr)
      with False show ?thesis
        by (simp add: consumer_step_def wpM_tryM [of "FetchMessage (reader l)"] wpM_consumer_calls Let_def
            Fetched Inr validateSchemaVersion_def move_or_return [OF wk])
    next
      case True
      let ?res = "case fst (h e (svc w)) of Inl err \<Rightarrow> Some err | Inr _ \<Rightarrow> None"
      let ?v = "log_call (Handle e ?res) ?w"
      note handled = handle_working [OF wk Inr True, of ?v ?res]
      have commit: "wpM (tryM (flush l') (\<lambda>(err, l). returnM l)) (agrees (dlq c) w0) E v"
        if "agrees (dlq c) w0 l' v" for l' v and E :: "go_error \<times> worker_state \<Rightarrow> 'a kafka_env \<Rightarrow> bool"
        unfolding wpM_tryM by (rule wpM_conseq [OF flush_agrees [OF that]]) (auto simp: wp_simps)
      show ?thesis
      proof (cases "fst (h e (svc w))")
        case (Inl err)
        then have "working (dlq c) w0 l m (Some err) ?v"
          by (intro handled(1)) simp_all
        moreover have "errors_is (Wrapf s err) ErrNonRetryable \<Longrightarrow> definitive m (Some err)" for s
          using \<open>decode (km_Value m) = Inr e\<close> by (simp add: definitive_def)
        ultimately have moved: "wpM (tryM (moveToDLQ (dlq c) (reader l) m (Wrapf s err)) (\<lambda>moved. case moved of
              Inl moveErr \<Rightarrow> failM (moveErr, l)
            | Inr True \<Rightarrow> returnM l
            | Inr False \<Rightarrow> failM (err, l))) (agrees (dlq c) w0) (\<lambda>(_, l') v. leaves (dlq c) w0 l' v)
            ((log_call (Handle e (Some err)) ?w)\<lparr>ticks := t, svc := x, metrics := reg\<rparr>)" for s t x reg
          using Inl by (intro move_or_return [where why = "Some err"]) simp_all
        show ?thesis
          using Inl by (simp add: consumer_step_def wpM_tryM [of "FetchMessage (reader l)"]
              wpM_tryM [of "run_handler h e"] wpM_tryM [of time_Now] wpM_tryM [of "record_metric f" for f]
              wpM_consumer_calls wpM_time_Now wpM_record_metric Let_def moved Fetched \<open>decode (km_Value m) = Inr e\<close>
              validateSchemaVersion_def True)
      next
        case (Inr x)
        let ?l = "l\<lparr>pendingCommits := pendingCommits l @ [m], batcher := batcher_add (batcher l)\<rparr>"
        have ag: "agrees (dlq c) w0 ?l ?v"
          using Inr by (intro handled(2)) simp_all
        show ?thesis
          using ag commit Inr by (simp add: consumer_step_def wpM_tryM [of "FetchMessage (reader l)"]
              wpM_tryM [of "run_handler h e"] wpM_tryM [of time_Now] wpM_tryM [of "record_metric f" for f]
              wpM_consumer_calls wpM_time_Now wpM_record_metric
              wpM_if wpM_returnM Let_def Fetched \<open>decode (km_Value m) = Inr e\<close> validateSchemaVersion_def True)
      qed
    qed
  qed
qed

lemma consumer_loop_agrees:
  "agrees (dlq c) w0 l w \<Longrightarrow>
     wpM (consumer_loop c h n l) (agrees (dlq c) w0) (\<lambda>(err, l') v. leaves (dlq c) w0 l' v) w"
proof (induction n arbitrary: l w)
  case 0
  then show ?case by (simp add: wp_simps)
next
  case (Suc n)
  show ?case
    unfolding consumer_loop.simps wpM_tryM
    by (rule wpM_conseq [OF consumer_step_agrees [OF Suc.prems] Suc.IH])
qed

lemma start_worker_agrees: "wpM (start_worker c) (agrees d w) E w"
proof -
  have "watched d w (idle\<lparr>m_reader := Some (readers w)\<rparr>) v"
    if "trace v = trace w @ [OpenReader (readers w)]" for v
    by (rule watched_log [OF watched_start [OF refl] _ that]) (simp add: idle_def)
  from agreesI [OF this] show ?thesis
    by (auto simp: start_worker_def wp_simps idle_def)
qed

lemma worker_agrees:
  "wpM (tryM (start_worker c) (consumer_loop c h n)) (agrees (dlq c) w)
     (\<lambda>(err, l') v. leaves (dlq c) w l' v) w"
  unfolding wpM_tryM
  by (rule wpM_conseq [OF start_worker_agrees consumer_loop_agrees])

section \<open>The handler's world is the replay of the fetched messages\<close>

definition fetched_in :: "call list \<Rightarrow> kafka_message list" where
  "fetched_in cs = List.map_filter (\<lambda>c. case c of Fetch r (Fetched m) \<Rightarrow> Some m | _ \<Rightarrow> None) cs"

definition deliver_fetched :: "'w event_handler \<Rightarrow> kafka_message \<Rightarrow> 'w \<Rightarrow> 'w" where
  "deliver_fetched h m s =
     (case decode (km_Value m) of
        Inl _ \<Rightarrow> s
      | Inr e \<Rightarrow> if SchemaVersion e = CurrentSchemaVersion then snd (h e s) else s)"

lemma fetched_in_simps [simp]:
  "fetched_in [] = []"
  "fetched_in (Fetch r (Fetched m) # cs) = m # fetched_in cs"
  "fetched_in (Fetch r (FetchError err) # cs) = fetched_in cs"
  "fetched_in (Fetch r FetchCancelled # cs) = fetched_in cs"
  "fetched_in (OpenReader r # cs) = fetched_in cs"
  "fetched_in (CloseReader r # cs) = fetched_in cs"
  "fetched_in (Handle e res # cs) = fetched_in cs"
  "fetched_in (WriteDLQ m res # cs) = fetched_in cs"
  "fetched_in (CommitOffsets r ms res # cs) = fetched_in cs"
  "fetched_in (Wait t res # cs) = fetched_in cs"
  by (simp_all add: fetched_in_def map_filter_simps)

lemma fetched_in_append: "fetched_in (cs @ ds) = fetched_in cs @ fetched_in ds"
  by (induction cs) (auto simp: fetched_in_def split: option.split)

definition replayed :: "'w event_handler \<Rightarrow> 'w kafka_env \<Rightarrow> 'w kafka_env \<Rightarrow> bool" where
  "replayed h w0 w \<longleftrightarrow>
     (\<exists>tr. trace w = trace w0 @ tr \<and> svc w = fold (deliver_fetched h) (fetched_in tr) (svc w0))"

lemma replayed_trans:
  "replayed h w0 w \<Longrightarrow> trace v = trace w @ cs \<Longrightarrow> svc v = fold (deliver_fetched h) (fetched_in cs) (svc w) \<Longrightarrow>
     replayed h w0 v"
  by (auto simp: replayed_def fetched_in_append)

lemma flush_replayed: "replayed h w0 w \<Longrightarrow> wpM (flush l) (\<lambda>_. replayed h w0) E w"
  by (auto simp: flush_def wp_simps Let_def intro: replayed_trans)

lemma consumer_step_replayed:
  assumes "replayed h w0 w"
  shows "wpM (consumer_step c h l) (\<lambda>_. replayed h w0) (\<lambda>_. replayed h w0) w"
proof (cases "fetch_plan w (length (trace w))")
  case FetchCancelled
  then show ?thesis
    by (auto simp: consumer_step_def reconnect_def flush_def wp_simps Let_def
        intro: replayed_trans [OF assms])
next
  case (FetchError err)
  then show ?thesis
    by (auto simp: consumer_step_def flush_def wp_simps Let_def
        intro: replayed_trans [OF assms] split: option.split)
next
  case (Fetched m)
  show ?thesis
  proof (cases "decode (km_Value m)")
    case (Inl derr)
    with Fetched show ?thesis
      by (auto simp: consumer_step_def moveToDLQ_def wp_simps Let_def deliver_fetched_def
          intro: replayed_trans [OF assms] split: option.split)
  next
    case (Inr e)
    with Fetched show ?thesis
      by (auto simp: consumer_step_def moveToDLQ_def flush_def validateSchemaVersion_def wp_simps Let_def
          deliver_fetched_def intro: replayed_trans [OF assms] split: option.split sum.split)
  qed
qed


lemma consumer_loop_replayed:
  "replayed h w0 w \<Longrightarrow> wpM (consumer_loop c h n l) (\<lambda>_. replayed h w0) (\<lambda>_. replayed h w0) w"
proof (induction n arbitrary: l w)
  case 0
  then show ?case by (simp add: wp_simps)
next
  case (Suc n)
  show ?case
    unfolding consumer_loop.simps wpM_tryM
    by (rule wpM_conseq [OF consumer_step_replayed [OF Suc.prems] Suc.IH])
qed

lemma worker_replayed:
  "wpM (tryM (start_worker c) (consumer_loop c h n)) (\<lambda>_. replayed h w) (\<lambda>_. replayed h w) w"
proof -
  have "replayed h w v" if "trace v = trace w @ [OpenReader r]" "svc v = svc w" for v r
    using that by (simp add: replayed_def)
  then show ?thesis
    unfolding wpM_tryM
    by (auto simp: start_worker_def wp_simps intro!: consumer_loop_replayed)
qed

lemma consumer_replay:
  "\<exists>tr. trace (snd (consumeWorker c h n w)) = trace w @ tr \<and>
     svc (snd (consumeWorker c h n w)) = fold (deliver_fetched h) (fetched_in tr) (svc w)"
proof -
  obtain res v where run: "tryM (start_worker c) (consumer_loop c h n) w = (res, v)"
    by (cases "tryM (start_worker c) (consumer_loop c h n) w")
  have "replayed h w v"
    using wpM_Inr [OF worker_replayed run [THEN trans]] wpM_Inl [OF worker_replayed run [THEN trans]]
    by (cases res) blast+
  moreover have "replayed h w (log_call (CloseReader r) v)" for r
    by (rule replayed_trans [OF calculation, of _ "[CloseReader r]"]) simp_all
  ultimately show ?thesis
    using run by (auto simp: consumeWorker_def deferred_def replayed_def split: sum.split)
qed

section \<open>The size of a batch\<close>

text \<open>The batcher counts the pending commits, which are fewer than a batch between iterations.\<close>

definition batch_ok :: "Consumer \<Rightarrow> worker_state \<Rightarrow> bool" where
  "batch_ok c l \<longleftrightarrow> cb_batch (batcher l) = commitBatch c \<and>
     cb_pending (batcher l) = int (length (pendingCommits l)) \<and>
     int (length (pendingCommits l)) < commitBatch c"

definition sizes_ok :: "Consumer \<Rightarrow> call list \<Rightarrow> bool" where
  "sizes_ok c cs \<longleftrightarrow>
     (\<forall>r ms res. CommitOffsets r ms res \<in> set cs \<longrightarrow> ms \<noteq> [] \<and> int (length ms) \<le> commitBatch c)"

definition batched :: "Consumer \<Rightarrow> 'w kafka_env \<Rightarrow> 'w kafka_env \<Rightarrow> bool" where
  "batched c w0 w \<longleftrightarrow> (\<exists>tr. trace w = trace w0 @ tr \<and> sizes_ok c tr)"

lemma batched_trans: "batched c w0 w \<Longrightarrow> trace v = trace w @ cs \<Longrightarrow> sizes_ok c cs \<Longrightarrow> batched c w0 v"
  by (fastforce simp: batched_def sizes_ok_def)

lemma sizes_ok_simps [simp]:
  "sizes_ok c []"
  "sizes_ok c (call # cs) \<longleftrightarrow> sizes_ok c cs \<and> (case call of
     CommitOffsets r ms res \<Rightarrow> ms \<noteq> [] \<and> int (length ms) \<le> commitBatch c | _ \<Rightarrow> True)"
  by (auto simp: sizes_ok_def split: call.splits)

lemma consumer_step_batched:
  assumes "batched c w0 w" and "batch_ok c l" and "1 \<le> commitBatch c"
  shows "wpM (consumer_step c h l) (\<lambda>l' v. batched c w0 v \<and> batch_ok c l') (\<lambda>_. batched c w0) w"
proof (cases "fetch_plan w (length (trace w))")
  case FetchCancelled
  with assms(2,3) show ?thesis
    by (auto simp: consumer_step_def reconnect_def flush_def wp_simps Let_def batch_ok_def batcher_reset_def
        intro: batched_trans [OF assms(1)])
next
  case (FetchError err)
  with assms(2,3) show ?thesis
    by (auto simp: consumer_step_def flush_def wp_simps Let_def batch_ok_def
        intro: batched_trans [OF assms(1)] split: option.split)
next
  case (Fetched m)
  show ?thesis
  proof (cases "decode (km_Value m)")
    case (Inl derr)
    with Fetched assms(2,3) show ?thesis
      by (auto simp: consumer_step_def moveToDLQ_def wp_simps Let_def
          intro: batched_trans [OF assms(1)] split: option.split)
  next
    case (Inr e)
    with Fetched assms(2,3) show ?thesis
      by (auto simp: consumer_step_def moveToDLQ_def flush_def validateSchemaVersion_def wp_simps Let_def
          batch_ok_def batcher_add_def batcher_reset_def shouldFlush_def
          intro: batched_trans [OF assms(1)] split: option.split sum.split)
  qed
qed

lemma consumer_loop_batched:
  "batched c w0 w \<Longrightarrow> batch_ok c l \<Longrightarrow> 1 \<le> commitBatch c \<Longrightarrow>
     wpM (consumer_loop c h n l) (\<lambda>l' v. batched c w0 v \<and> batch_ok c l') (\<lambda>_. batched c w0) w"
proof (induction n arbitrary: l w)
  case 0
  then show ?case by (simp add: wp_simps)
next
  case (Suc n)
  show ?case
    unfolding consumer_loop.simps wpM_tryM
    by (rule wpM_conseq [OF consumer_step_batched [OF Suc.prems]]) (use Suc in auto)
qed

lemma worker_batched:
  assumes "1 \<le> commitBatch c"
  shows "wpM (tryM (start_worker c) (consumer_loop c h n)) (\<lambda>l' v. batched c w v \<and> batch_ok c l')
     (\<lambda>_. batched c w) w"
proof -
  have "batched c w v" if "trace v = trace w @ [OpenReader r]" for v r
    using that by (simp add: batched_def)
  moreover have "batch_ok c \<lparr>reader = r, stallStop = 0, closedChans = [],
      batcher = newCommitBatcher (commitBatch c) (commitInterval c) t, pendingCommits = []\<rparr>" for r t
    using assms by (simp add: newCommitBatcher_def batch_ok_def)
  ultimately show ?thesis
    using assms unfolding wpM_tryM
    by (auto simp: start_worker_def wp_simps intro!: consumer_loop_batched)
qed

section \<open>Reconnections\<close>

text \<open>Every reconnection opens a reader and closes a channel, the first one being channel 0.\<close>

definition chans :: "nat \<Rightarrow> worker_state \<Rightarrow> 'w kafka_env \<Rightarrow> bool" where
  "chans r0 l w \<longleftrightarrow> readers w = Suc (r0 + stallStop l) \<and> set (closedChans l) = {..<stallStop l}"

lemma chans_same:
  "chans r0 l w \<Longrightarrow> readers v = readers w \<Longrightarrow> stallStop l' = stallStop l \<Longrightarrow>
     closedChans l' = closedChans l \<Longrightarrow> chans r0 l' v"
  by (simp add: chans_def)

lemma consumer_step_chans:
  assumes "chans r0 l w"
  shows "wpM (consumer_step c h l) (chans r0) (\<lambda>(_, l'). chans r0 l') w"
proof (cases "fetch_plan w (length (trace w))")
  case FetchCancelled
  with assms show ?thesis
    by (simp add: consumer_step_def reconnect_def flush_def wp_simps Let_def chans_def lessThan_Suc)
next
  case (FetchError err)
  then show ?thesis
    by (auto simp: consumer_step_def flush_def wp_simps Let_def intro!: chans_same [OF assms] split: option.split)
next
  case (Fetched m)
  show ?thesis
  proof (cases "decode (km_Value m)")
    case (Inl derr)
    with Fetched show ?thesis
      by (auto simp: consumer_step_def moveToDLQ_def wp_simps Let_def intro!: chans_same [OF assms] split: option.split)
  next
    case (Inr e)
    with Fetched show ?thesis
      by (auto simp: consumer_step_def moveToDLQ_def flush_def validateSchemaVersion_def wp_simps Let_def
          intro!: chans_same [OF assms] split: option.split sum.split)
  qed
qed

lemma consumer_loop_chans:
  "chans r0 l w \<Longrightarrow> wpM (consumer_loop c h n l) (chans r0) (\<lambda>(_, l'). chans r0 l') w"
proof (induction n arbitrary: l w)
  case 0
  then show ?case by (simp add: wp_simps)
next
  case (Suc n)
  show ?case
    unfolding consumer_loop.simps wpM_tryM
    by (rule wpM_conseq [OF consumer_step_chans [OF Suc.prems] Suc.IH])
qed

lemma worker_chans:
  "wpM (tryM (start_worker c) (consumer_loop c h n)) (chans (readers w)) (\<lambda>(_, l'). chans (readers w) l') w"
  unfolding wpM_tryM by (auto simp: start_worker_def wp_simps chans_def intro!: consumer_loop_chans)

text \<open>While the context is done, an iteration does nothing but open one more reader.\<close>

definition cancelled :: "'w kafka_env \<Rightarrow> bool" where
  "cancelled w \<longleftrightarrow> (\<forall>k \<ge> length (trace w). fetch_plan w k = FetchCancelled)"

lemma cancelled_step:
  assumes "cancelled w"
  shows "wpM (consumer_step c h l) (\<lambda>l' v. cancelled v \<and> svc v = svc w \<and> readers v = Suc (readers w))
    (\<lambda>_ _. False) w"
  using assms by (auto simp: consumer_step_def reconnect_def flush_def wp_simps Let_def cancelled_def)

lemma cancelled_loop:
  "cancelled w \<Longrightarrow> wpM (consumer_loop c h n l) (\<lambda>l' v. svc v = svc w \<and> readers v = readers w + n)
    (\<lambda>_ _. False) w"
proof (induction n arbitrary: l w)
  case 0
  then show ?case by (simp add: wp_simps)
next
  case (Suc n)
  show ?case
    unfolding consumer_loop.simps wpM_tryM
    by (rule wpM_conseq [OF cancelled_step [OF Suc.prems]])
      (auto intro: wpM_conseq [OF Suc.IH])
qed

section \<open>Properties\<close>

text \<open>
  C12: whatever the broker, the dead-letter writer and the handler answer, the calls of a consuming
  goroutine pass the monitor. In particular a message is fetched, and offsets are committed, only
  when every message fetched before was handled with success or written to its dead-letter topic;
  only messages fetched through the open reader are committed; only a payload that does not decode,
  a foreign schema version, or an error marked as definitive sends a message to the dead-letter
  topic; and the handler only sees events of the current schema.
\<close>

theorem consumer_is_disciplined:
  "\<exists>tr M. trace (snd (consumeWorker c h n w)) = trace w @ tr \<and> observes (dlq c) tr idle = Some M"
proof (cases "tryM (start_worker c) (consumer_loop c h n) w")
  case (Pair res v)
  show ?thesis
  proof (cases res)
    case (Inr l)
    with Pair wpM_Inr [OF worker_agrees, of c h n w l v] show ?thesis
      by (auto simp: consumeWorker_def agrees_def watched_def)
  next
    case (Inl err)
    obtain e l where err: "err = (e, l)" by (cases err)
    with Pair Inl wpM_Inl [OF worker_agrees, of c h n w err v] have "leaves (dlq c) w l v"
      by simp
    then obtain M where M: "watched (dlq c) w M v" "m_reader M = Some (reader l)"
      by (auto simp: leaves_def)
    have "watched (dlq c) w (M\<lparr>m_reader := None\<rparr>) (log_call (CloseReader (reader l)) v)"
      by (rule watched_log [OF M(1)]) (use M in auto)
    with Pair Inl err show ?thesis
      by (auto simp: consumeWorker_def deferred_def watched_def)
  qed
qed

text \<open>
  C13: the world of the handler after a run is the one got by handling, in the order of the
  fetches and one at a time, the fetched messages that decode to an event of the current schema.
\<close>

theorem consumer_replays_the_log:
  "\<exists>tr. trace (snd (consumeWorker c h n w)) = trace w @ tr \<and>
     svc (snd (consumeWorker c h n w)) = fold (deliver_fetched h) (fetched_in tr) (svc w)"
  by (rule consumer_replay)

text \<open>
  A consumer built by \<open>NewConsumer\<close> never commits an empty batch nor one larger than its
  batch size, whatever its configuration and its environment, and between two iterations it holds
  back fewer messages than a batch.
\<close>

lemma batches_are_bounded:
  "let c = NewConsumer pd getenv conf; (out, v) = consumeWorker c h n w in
     (\<exists>tr. trace v = trace w @ tr \<and> sizes_ok c tr) \<and>
     (case out of Running l \<Rightarrow> int (length (pendingCommits l)) < commitBatch c | _ \<Rightarrow> True)"
proof -
  define c where "c = NewConsumer pd getenv conf"
  have pos: "1 \<le> commitBatch c"
    using batch_at_least_1 [of getenv] by (simp add: c_def NewConsumer_def Let_def)
  obtain res v where run: "tryM (start_worker c) (consumer_loop c h n) w = (res, v)"
    by (cases "tryM (start_worker c) (consumer_loop c h n) w")
  note inv = wpM_Inr [OF worker_batched [OF pos], of h n w] wpM_Inl [OF worker_batched [OF pos], of h n w]
  have "batched c w v" and "\<And>l. res = Inr l \<Longrightarrow> batch_ok c l"
    using inv run by (cases res; blast)+
  moreover have "batched c w (log_call (CloseReader r) v)" for r
    by (rule batched_trans [OF \<open>batched c w v\<close>, of _ "[CloseReader r]"]) simp_all
  ultimately show ?thesis
    unfolding Let_def c_def [symmetric] using run
    by (auto simp: consumeWorker_def deferred_def batched_def batch_ok_def split: sum.split)
qed

text \<open>
  Once the context of the service is done, every fetch reports it, and the loop takes that for
  a stalled reader: it reconnects for ever. After any number of iterations the goroutine is still
  running, has handled nothing, and has opened a reader in each of them.
\<close>

lemma cancelled_consumer_never_returns:
  assumes "\<And>k. length (trace w) \<le> k \<Longrightarrow> fetch_plan w k = FetchCancelled"
  shows "\<exists>l v. consumeWorker c h n w = (Running l, v) \<and> svc v = svc w \<and>
    readers v = Suc (readers w + n)"
proof -
  have "wpM (tryM (start_worker c) (consumer_loop c h n))
     (\<lambda>l v. svc v = svc w \<and> readers v = Suc (readers w + n)) (\<lambda>_ _. False) w"
    using assms by (auto simp: start_worker_def wp_simps cancelled_def
        intro!: wpM_conseq [OF cancelled_loop])
  from wpM_never_errorD [OF this] show ?thesis
    by (auto simp: consumeWorker_def)
qed

definition shut_down :: "unit kafka_env" where
  "shut_down = \<lparr>entropy = \<lambda>_ _. 0, drawn = 0, clock = \<lambda>_. 0, ticks = 0, attempts = \<lambda>_ _. 0, metrics = new_registry,
     svc = (), readers = 0, fetch_plan = \<lambda>_. FetchCancelled, error_plan = \<lambda>_. None, trace = []\<rparr>"

lemma cancelled_consumer_never_returns_witness:
  "\<exists>l v. consumeWorker (NewConsumer (\<lambda>_. None) (\<lambda>_. []) \<lparr>Brokers = [''b''], GroupID = ''g'',
       ServiceName = ''s'', Workers = 1, CommitBatch = 0, CommitInterval = 0, Topic = ''t'', Topics = [],
       DLQWriter = True\<rparr>) (\<lambda>e. returnM ()) 1000 shut_down = (Running l, v) \<and> svc v = svc shut_down \<and>
     readers v = Suc (readers shut_down + 1000)"
  by (rule cancelled_consumer_never_returns) (simp add: shut_down_def)

text \<open>
  A goroutine that has reconnected at least once does not return its error: the deferred
  close meets a channel the reconnection has closed, and panics. It returns exactly when its first
  reader is still the current one.
\<close>

lemma return_after_reconnect_panics:
  "case consumeWorker c h n w of (out, v) \<Rightarrow>
     (case out of
        Running l \<Rightarrow> True
      | Returned err \<Rightarrow> readers v = Suc (readers w)
      | Panicked msg \<Rightarrow> readers v > Suc (readers w))"
proof (cases "tryM (start_worker c) (consumer_loop c h n) w")
  case (Pair res v)
  with wpM_Inl [OF worker_chans, of c h n w _ v] show ?thesis
    by (cases res) (auto simp: consumeWorker_def deferred_def chans_def Let_def)
qed

text \<open>Ticks every fifteen seconds after \<open>t0\<close>, with the counts the reader reports.\<close>

fun samples :: "int \<Rightarrow> int list \<Rightarrow> (int \<times> int) list" where
  "samples t0 [] = []"
| "samples t0 (f # fs) = (f, t0 + stallCheckInterval) # samples (t0 + stallCheckInterval) fs"

lemma watchdog_growing:
  "sorted_wrt (<) (lastFetches wd # fs) \<Longrightarrow> True \<notin> set (watchdogStall (samples t0 fs) wd)"
  by (induction fs arbitrary: t0 wd) (auto simp: watchdog_tick_def)

lemma watchdog_constant:
  "watchdogStall (samples t0 (replicate 4 (int f))) (start_watchdog t0) = [False, False, False, True]"
  by (simp add: eval_nat_numeral watchdog_tick_def stallDetected_def start_watchdog_def
      stallCheckInterval_def stallTimeout_def)

text \<open>
  C21: the watchdog leaves a reader alone as long as the reported count of fetches grows from tick
  to tick, and cancels a reader that reports one and the same count, whatever it is, at the fourth
  tick. It thus reads the count as a running total. A client that reports the fetches since the
  last report is cancelled every 45 seconds while it works at a steady pace.
\<close>

theorem watchdog_expects_a_running_total:
  "(sorted_wrt (<) (- 1 # fs) \<longrightarrow> True \<notin> set (watchdogStall (samples t0 fs) (start_watchdog t0))) \<and>
   watchdogStall (samples t0 (replicate 4 (int f))) (start_watchdog t0) = [False, False, False, True]"
  using watchdog_growing [of "start_watchdog t0" fs t0] watchdog_constant
  by (simp add: start_watchdog_def)

lemma watchdog_expects_a_running_total_witness:
  "True \<notin> set (watchdogStall (samples 0 [3, 5, 8]) (start_watchdog 0))"
  by (rule watchdog_expects_a_running_total [THEN conjunct1, THEN mp]) simp

end
