(* ===== verification/Producer.thy ===== *)
theory Producer
  imports Postgres Config
begin

text \<open>
  The Kafka producer (\<open>internal/infrastructure/kafka/producer.go\<close>) over a bus.

  The writer of the Kafka client is outside the repository. Its \<open>n\<close>-th call ends as the input
  \<open>write_err n\<close> says and the brokers keep those of its messages that \<open>accepted n\<close> names; the
  messages kept are appended to \<open>topic_log\<close>. What its documentation promises, that a call without an
  error has delivered every message, is the hypothesis \<open>writer_honest\<close>. The trace headers come
  from the propagator of OpenTelemetry, the argument \<open>inject\<close>.
\<close>

record kafka_out =
  ko_Topic :: string
  ko_Key :: string
  ko_Value :: json
  ko_Headers :: "(string \<times> string) list"

record bus_env = pgenv +
  topic_log :: "kafka_out list"
  writes :: nat
  write_err :: "nat \<Rightarrow> go_error option"
  accepted :: "nat \<Rightarrow> nat \<Rightarrow> bool"

definition writer_honest :: "'a bus_env_scheme \<Rightarrow> bool" where
  "writer_honest w \<longleftrightarrow> (\<forall>n i. write_err w n = None \<longrightarrow> accepted w n i)"

text \<open>\<open>writer.WriteMessages(ctx, msgs...)\<close>\<close>

definition writer_WriteMessages :: "kafka_out list \<Rightarrow> ('a bus_env_scheme, go_error, unit) io" where
  "writer_WriteMessages msgs w =
     (let n = writes w;
          kept = map snd (filter (\<lambda>(i, m). accepted w n i) (enumerate 0 msgs));
          v = w\<lparr>topic_log := topic_log w @ kept, writes := Suc n\<rparr>
      in case write_err w n of None \<Rightarrow> (Inr (), v) | Some err \<Rightarrow> (Inl err, v))"

section \<open>Producer\<close>

record producer =
  p_brokers :: "string list"
  p_acks :: RequiredAcks
  p_serviceName :: string

definition NewProducer :: "environ \<Rightarrow> string list \<Rightarrow> string \<Rightarrow> producer" where
  "NewProducer getenv brokers name =
     \<lparr>p_brokers = brokers, p_acks = AcksFromEnv getenv, p_serviceName = name\<rparr>"

text \<open>
  \<open>Publish\<close> of the producer named \<open>name\<close>. Serialising an event cannot fail; the log lines are left
  out.
\<close>

definition Producer_Publish ::
  "(string \<Rightarrow> (string \<times> string) list) \<Rightarrow> string \<Rightarrow> event \<Rightarrow> ('a bus_env_scheme, go_error, unit) io" where
  "Producer_Publish inject name event =
     (case TopicForEventType (EventType event) of
        None \<Rightarrow> failM (ErrText ''nenhum topico configurado para o tipo de evento'')
      | Some topic \<Rightarrow>
          tryM (\<lambda>w. writer_WriteMessages [\<lparr>ko_Topic = topic, ko_Key = OrderID event,
                  ko_Value = marshal_event event, ko_Headers = inject (traceparent w)\<rparr>] w) (\<lambda>_.
          record_metric (RecordPublished name topic)))"

definition PublishRaw ::
  "(string \<Rightarrow> (string \<times> string) list) \<Rightarrow> string \<Rightarrow> string \<Rightarrow> json \<Rightarrow>
     ('a bus_env_scheme, go_error, unit) io" where
  "PublishRaw inject topic key payload = (\<lambda>w.
     writer_WriteMessages [\<lparr>ko_Topic = topic, ko_Key = key, ko_Value = payload,
       ko_Headers = inject (traceparent w)\<rparr>] w)"

definition PublishBatch :: "string \<Rightarrow> kafka_out list \<Rightarrow> ('a bus_env_scheme, go_error, unit) io" where
  "PublishBatch name msgs =
     (if msgs = [] then returnM ()
      else
      tryM (writer_WriteMessages msgs) (\<lambda>_.
      record_metric (fold (\<lambda>m. RecordPublished name (ko_Topic m)) msgs)))"

text \<open>
  \<open>formatMetadata\<close>, the same function here and in \<open>internal/interfaces/logging.go\<close>: the
  entries in the order of their keys, joined by commas.
\<close>

fun strings_Join :: "string list \<Rightarrow> string \<Rightarrow> string" where
  "strings_Join [] sep = ''''"
| "strings_Join [s] sep = s"
| "strings_Join (s # t # ss) sep = s @ sep @ strings_Join (t # ss) sep"

definition formatMetadata :: "metadata \<Rightarrow> string" where
  "formatMetadata metadata =
     (if fmdom metadata = {||} then ''-''
      else strings_Join (map (\<lambda>k. k @ ''='' @ meta_get metadata k)
        (sorted_list_of_fset (fmdom metadata))) '','')"

section \<open>Facts\<close>

lemma kept_all:
  "(\<And>i. P i) \<Longrightarrow> map snd (filter (\<lambda>(i, m). P i) (enumerate k ms)) = ms"
proof -
  assume "\<And>i. P i"
  then have "filter (\<lambda>(i, m). P i) (enumerate k ms) = enumerate k ms"
    by (intro filter_True) auto
  then show ?thesis
    by simp
qed

lemma kept_subset: "set (map snd (filter (\<lambda>(i, m). P i) (enumerate k ms))) \<subseteq> set ms"
  by (auto simp: in_set_enumerate_eq)

lemma wpM_WriteMessages [wp_simps]:
  "wpM (writer_WriteMessages ms) Q E w =
     (let kept = map snd (filter (\<lambda>(i, m). accepted w (writes w) i) (enumerate 0 ms));
          v = w\<lparr>topic_log := topic_log w @ kept, writes := Suc (writes w)\<rparr>
      in case write_err w (writes w) of None \<Rightarrow> Q () v | Some err \<Rightarrow> E err v)"
  by (simp add: wpM_def writer_WriteMessages_def Let_def split: option.split)

end
