(* ===== verification/Relay.thy ===== *)
theory Relay
  imports Producer UnitOfWork "HOL-Library.Multiset"
begin

text \<open>
  The outbox relay (\<open>cmd/outbox-relay/main.go\<close>): one cycle claims a batch of pending rows,
  publishes it in one call, and marks it as published. Any number of relays run over one outbox
  while transactions add rows and old rows are purged: the relation \<open>relays_run\<close> interleaves the
  three database and broker calls of every relay with them.
\<close>

section \<open>One cycle\<close>

definition claimTimeout :: int where
  "claimTimeout = 60 * Second"

definition purgeAfter :: int where
  "purgeAfter = 7 * 24 * Hour"

text \<open>The message of an entry; its trace headers are those of the saved \<open>traceparent\<close>.\<close>

definition entry_message :: "(string \<Rightarrow> (string \<times> string) list) \<Rightarrow> outbox_entry \<Rightarrow> kafka_out" where
  "entry_message inject e = \<lparr>ko_Topic = oe_Topic e, ko_Key = oe_Key e, ko_Value = oe_Payload e,
     ko_Headers = inject (oe_Traceparent e)\<rparr>"

definition relayName :: string where
  "relayName = ''outbox-relay''"

text \<open>The end of a cycle: the rows are marked, and counted.\<close>

definition mark_sent :: "outbox_entry list \<Rightarrow> ('a bus_env_scheme, go_error, unit) io" where
  "mark_sent entries =
     tryM (wrapM (Wrapf ''erro ao marcar lote da outbox como publicado'')
             (MarkPublishedBatch (map oe_ID entries))) (\<lambda>_.
     record_metric (RecordOutboxPublished ^^ length entries))"

definition relayOnce ::
  "(string \<Rightarrow> (string \<times> string) list) \<Rightarrow> int \<Rightarrow> ('a bus_env_scheme, go_error, nat) io" where
  "relayOnce inject batchSize =
     tryM (ClaimPending (nat batchSize) claimTimeout) (\<lambda>entries.
     if entries = [] then returnM 0
     else
     tryM (wrapM (Wrapf ''erro ao publicar lote da outbox'')
             (PublishBatch relayName (map (entry_message inject) entries))) (\<lambda>_.
     tryM (mark_sent entries) (\<lambda>_.
     returnM (length entries))))"

text \<open>
  The loop of \<open>main\<close> until the context is done: a cycle that fails or finds nothing is followed
  by a pause (\<open>sleepCtx\<close>), which returns false when the context is done in it; \<open>pauses\<close> says
  so for each pause. \<open>lastActivity\<close> is the time after the last cycle. The result tells whether the
  loop has returned; \<open>fuel\<close> bounds the cycles.
\<close>

fun relay_main ::
  "(string \<Rightarrow> (string \<times> string) list) \<Rightarrow> int \<Rightarrow> nat \<Rightarrow> bool list \<Rightarrow> int \<Rightarrow> 'a bus_env_scheme \<Rightarrow>
     bool \<times> int \<times> 'a bus_env_scheme" where
  "relay_main inject batchSize 0 pauses lastActivity w = (False, lastActivity, w)"
| "relay_main inject batchSize (Suc fuel) pauses lastActivity w =
     (case relayOnce inject batchSize w of
        (res, u) \<Rightarrow>
          let now = clock u (ticks u); v = u\<lparr>ticks := Suc (ticks u)\<rparr> in
          if (case res of Inl _ \<Rightarrow> True | Inr n \<Rightarrow> n = 0)
          then (case pauses of
              [] \<Rightarrow> (False, now, v)
            | True # pauses' \<Rightarrow> relay_main inject batchSize fuel pauses' now v
            | False # _ \<Rightarrow> (True, now, v))
          else relay_main inject batchSize fuel pauses now v)"

text \<open>
  The two goroutines beside the loop: what one tick of each does. The count of the backlog goes to
  its gauge; an error of either is only logged.
\<close>

definition count_tick :: "('a bus_env_scheme, go_error, unit) io" where
  "count_tick =
     tryM (attemptM CountPending) (\<lambda>res.
     case res of Inl _ \<Rightarrow> returnM () | Inr n \<Rightarrow> record_metric (SetOutboxPending (int n)))"

definition purge_tick :: "('a bus_env_scheme, go_error, unit) io" where
  "purge_tick = tryM (attemptM (PurgePublished purgeAfter)) (\<lambda>_. returnM ())"

section \<open>Relays side by side\<close>

text \<open>A relay between two cycles, after its claim, and after its publication.\<close>

datatype relay_pc = RIdle | RClaimed "outbox_entry list" | RSent "outbox_entry list"

text \<open>One call of a relay; an error ends the cycle.\<close>

definition relay_advance ::
  "(string \<Rightarrow> (string \<times> string) list) \<Rightarrow> int \<Rightarrow> relay_pc \<Rightarrow> ('a bus_env_scheme, go_error, relay_pc) io" where
  "relay_advance inject batchSize pc =
     (case pc of
        RIdle \<Rightarrow> tryM (attemptM (ClaimPending (nat batchSize) claimTimeout)) (\<lambda>res.
          returnM (case res of Inl _ \<Rightarrow> RIdle | Inr es \<Rightarrow> if es = [] then RIdle else RClaimed es))
      | RClaimed es \<Rightarrow> tryM (attemptM (PublishBatch relayName (map (entry_message inject) es))) (\<lambda>res.
          returnM (case res of Inl _ \<Rightarrow> RIdle | Inr _ \<Rightarrow> RSent es))
      | RSent es \<Rightarrow> tryM (attemptM (mark_sent es)) (\<lambda>_. returnM RIdle))"

text \<open>
  The steps: a call of relay \<open>i\<close>, the crash of a relay, a row added by a transaction, a tick of the
  purge or of the count, and anything that leaves the outbox and the bus alone (sequence numbers may be taken by
  transactions that roll back).
\<close>

inductive relays_run ::
  "(string \<Rightarrow> (string \<times> string) list) \<Rightarrow> int \<Rightarrow> 'a bus_env_scheme \<Rightarrow> (nat \<Rightarrow> relay_pc) \<Rightarrow>
     'a bus_env_scheme \<Rightarrow> bool" for inject batchSize w0 where
  relays_start: "relays_run inject batchSize w0 (\<lambda>_. RIdle) w0"
| relays_call: "relays_run inject batchSize w0 pcs w \<Longrightarrow>
    relay_advance inject batchSize (pcs i) w = (Inr pc, v) \<Longrightarrow>
    relays_run inject batchSize w0 (pcs(i := pc)) v"
| relays_crash: "relays_run inject batchSize w0 pcs w \<Longrightarrow> relays_run inject batchSize w0 (pcs(i := RIdle)) w"
| relays_append: "relays_run inject batchSize w0 pcs w \<Longrightarrow>
    relays_run inject batchSize w0 pcs (snd (outbox_Append eid topic key payload trace w))"
| relays_purge: "relays_run inject batchSize w0 pcs w \<Longrightarrow>
    relays_run inject batchSize w0 pcs (snd (purge_tick w))"
| relays_count: "relays_run inject batchSize w0 pcs w \<Longrightarrow>
    relays_run inject batchSize w0 pcs (snd (count_tick w))"
| relays_other: "relays_run inject batchSize w0 pcs w \<Longrightarrow> outbox_table v = outbox_table w \<Longrightarrow>
    outbox_seq w \<le> outbox_seq v \<Longrightarrow> topic_log v = topic_log w \<Longrightarrow> writes v = writes w \<Longrightarrow>
    write_err v = write_err w \<Longrightarrow> accepted v = accepted w \<Longrightarrow> relays_run inject batchSize w0 pcs v"

text \<open>A cycle as the code runs it is three of these steps.\<close>

lemma relayOnce_run:
  assumes "relays_run inject b w0 pcs w" and "pcs i = RIdle"
  shows "relays_run inject b w0 pcs (snd (relayOnce inject b w))"
proof -
  have idle: "pcs(i := RIdle) = pcs"
    using assms(2) by (rule fun_upd_idem)
  obtain r1 w1 where c1: "ClaimPending (nat b) claimTimeout w = (r1, w1)"
    by (cases "ClaimPending (nat b) claimTimeout w")
  note step1 = relays_call [OF assms(1), of i, unfolded assms(2) relay_advance_def]
  show ?thesis
  proof (cases "\<exists>es. r1 = Inr es \<and> es \<noteq> []")
    case False
    then have "relays_run inject b w0 (pcs(i := RIdle)) w1"
      by (intro step1) (auto simp: tryM_def attemptM_def c1 split: sum.split)
    moreover have "snd (relayOnce inject b w) = w1"
      using False by (cases r1) (auto simp: relayOnce_def tryM_def c1)
    ultimately show ?thesis
      by (simp add: idle)
  next
    case True
    then obtain es where es: "r1 = Inr es" "es \<noteq> []" by blast
    then have run1: "relays_run inject b w0 (pcs(i := RClaimed es)) w1"
      by (intro step1) (simp add: tryM_def attemptM_def c1)
    obtain r2 w2 where c2: "PublishBatch relayName (map (entry_message inject) es) w1 = (r2, w2)"
      by (cases "PublishBatch relayName (map (entry_message inject) es) w1")
    have run2: "relays_run inject b w0 (pcs(i := (case r2 of Inl _ \<Rightarrow> RIdle | Inr _ \<Rightarrow> RSent es))) w2"
      using relays_call [OF run1, of i _ w2] by (simp add: relay_advance_def tryM_def attemptM_def c2)
    obtain r3 w3 where c3: "mark_sent es w2 = (r3, w3)"
      by (cases "mark_sent es w2")
    show ?thesis
    proof (cases r2)
      case (Inl err)
      with run2 es c1 c2 show ?thesis
        by (simp add: relayOnce_def tryM_def wrapM_def idle)
    next
      case (Inr x)
      have "relays_run inject b w0 (pcs(i := RIdle)) w3"
        using relays_call [OF run2, of i RIdle w3] Inr
        by (simp add: relay_advance_def tryM_def attemptM_def c3)
      with Inr es c1 c2 c3 show ?thesis
        by (cases r3) (simp_all add: relayOnce_def tryM_def wrapM_def idle)
    qed
  qed
qed

section \<open>Marked rows have been sent\<close>

text \<open>The entries a relay holds.\<close>

fun holding :: "relay_pc \<Rightarrow> outbox_entry list" where
  "holding RIdle = []"
| "holding (RClaimed es) = es"
| "holding (RSent es) = es"

definition rows_ok :: "(string \<Rightarrow> (string \<times> string) list) \<Rightarrow> 'a bus_env_scheme \<Rightarrow> bool" where
  "rows_ok inject w \<longleftrightarrow>
     distinct (map oe_ID (outbox_table w)) \<and>
     (\<forall>r \<in> set (outbox_table w). oe_ID r < outbox_seq w \<and>
        (\<not> pending r \<longrightarrow> entry_message inject (entry_of r) \<in> set (topic_log w)))"

definition good_entry :: "outbox_entry \<Rightarrow> 'a bus_env_scheme \<Rightarrow> bool" where
  "good_entry e w \<longleftrightarrow> oe_ID e < outbox_seq w \<and>
     (\<forall>r \<in> set (outbox_table w). oe_ID r = oe_ID e \<longrightarrow> entry_of r = e)"

definition pc_ok :: "(string \<Rightarrow> (string \<times> string) list) \<Rightarrow> relay_pc \<Rightarrow> 'a bus_env_scheme \<Rightarrow> bool" where
  "pc_ok inject pc w \<longleftrightarrow> (\<forall>e \<in> set (holding pc). good_entry e w) \<and>
     (case pc of RSent es \<Rightarrow> entry_message inject ` set es \<subseteq> set (topic_log w) | _ \<Rightarrow> True)"

definition relays_inv :: "(string \<Rightarrow> (string \<times> string) list) \<Rightarrow> (nat \<Rightarrow> relay_pc) \<Rightarrow> 'a bus_env_scheme \<Rightarrow> bool" where
  "relays_inv inject pcs w \<longleftrightarrow> rows_ok inject w \<and> (\<forall>i. pc_ok inject (pcs i) w)"

lemma entry_of_ID [simp]: "oe_ID (entry_of r) = oe_ID r"
  by (simp add: entry_of_def)

lemma entry_of_upd [simp]:
  "entry_of (r\<lparr>or_claimed_at := x\<rparr>) = entry_of r" "entry_of (r\<lparr>or_published_at := x\<rparr>) = entry_of r"
  by (simp_all add: entry_of_def)

text \<open>
  What every step does to the table: it keeps the entries of the rows it leaves, adds rows with new
  numbers, and publishes only what is on the bus.
\<close>

definition table_step :: "(string \<Rightarrow> (string \<times> string) list) \<Rightarrow> 'a bus_env_scheme \<Rightarrow> 'a bus_env_scheme \<Rightarrow> bool" where
  "table_step inject w v \<longleftrightarrow>
     distinct (map oe_ID (outbox_table v)) \<and> outbox_seq w \<le> outbox_seq v \<and> set (topic_log w) \<subseteq> set (topic_log v) \<and>
     (\<forall>r \<in> set (outbox_table v).
        (\<exists>r' \<in> set (outbox_table w). entry_of r = entry_of r' \<and>
           (pending r \<or> \<not> pending r' \<or> entry_message inject (entry_of r) \<in> set (topic_log v))) \<or>
        (outbox_seq w \<le> oe_ID r \<and> oe_ID r < outbox_seq v \<and> pending r))"

lemma table_step_entry:
  assumes "table_step inject w v" and "good_entry e w"
  shows "good_entry e v"
  unfolding good_entry_def
proof (intro conjI ballI impI)
  show "oe_ID e < outbox_seq v"
    using assms by (auto simp: table_step_def good_entry_def)
next
  fix r
  assume r: "r \<in> set (outbox_table v)" "oe_ID r = oe_ID e"
  with assms have "\<not> outbox_seq w \<le> oe_ID r"
    by (simp add: good_entry_def)
  with assms(1) r(1) obtain r' where "r' \<in> set (outbox_table w)" "entry_of r = entry_of r'"
    unfolding table_step_def by blast
  with assms(2) r(2) show "entry_of r = e"
    unfolding good_entry_def by (metis entry_of_ID)
qed

lemma table_step_inv:
  assumes "table_step inject w v" and "relays_inv inject pcs w"
  shows "relays_inv inject pcs v"
proof -
  have "rows_ok inject v"
    unfolding rows_ok_def
  proof (intro conjI ballI impI)
    show "distinct (map oe_ID (outbox_table v))"
      using assms(1) by (simp add: table_step_def)
  next
    fix r
    assume "r \<in> set (outbox_table v)"
    with assms show "oe_ID r < outbox_seq v"
      unfolding table_step_def relays_inv_def rows_ok_def
      by (metis entry_of_ID order_less_le_trans)
    assume "\<not> pending r"
    with \<open>r \<in> set (outbox_table v)\<close> assms show "entry_message inject (entry_of r) \<in> set (topic_log v)"
      unfolding table_step_def relays_inv_def rows_ok_def by (metis subsetD)
  qed
  moreover have "pc_ok inject (pcs i) v" for i
  proof -
    have "pc_ok inject (pcs i) w"
      using assms(2) by (simp add: relays_inv_def)
    with assms(1) show ?thesis
      using table_step_entry [OF assms(1)] subset_trans [of _ "set (topic_log w)" "set (topic_log v)"]
      by (auto simp: pc_ok_def split: relay_pc.split) (auto simp: table_step_def)
  qed
  ultimately show ?thesis
    by (simp add: relays_inv_def)
qed

text \<open>Three ways to make such a step.\<close>

lemma table_step_map:
  assumes "rows_ok inject w" and "outbox_table v = map f (outbox_table w)"
    and "\<And>r. entry_of (f r) = entry_of r" and "outbox_seq v = outbox_seq w" and "topic_log v = topic_log w"
    and "\<And>r. r \<in> set (outbox_table w) \<Longrightarrow> \<not> pending (f r) \<Longrightarrow> pending r \<Longrightarrow>
      entry_message inject (entry_of r) \<in> set (topic_log w)"
  shows "table_step inject w v"
proof -
  have "oe_ID (f r) = oe_ID r" for r
    by (metis assms(3) entry_of_ID)
  then have "map oe_ID (outbox_table v) = map oe_ID (outbox_table w)"
    by (simp add: assms(2))
  with assms(1) have "distinct (map oe_ID (outbox_table v))"
    by (simp add: rows_ok_def)
  with assms(2-6) show ?thesis
    unfolding table_step_def by auto
qed

lemma table_step_same:
  assumes "rows_ok inject w" and "outbox_table v = outbox_table w"
    and "outbox_seq w \<le> outbox_seq v" and "set (topic_log w) \<subseteq> set (topic_log v)"
  shows "table_step inject w v"
  using assms by (auto simp: table_step_def rows_ok_def)

lemma table_step_filter:
  assumes "rows_ok inject w" and "outbox_table v = filter P (outbox_table w)"
    and "outbox_seq v = outbox_seq w" and "topic_log v = topic_log w"
  shows "table_step inject w v"
proof -
  have "distinct (map oe_ID (filter P (outbox_table w)))"
    using assms(1) by (simp add: rows_ok_def distinct_map_filter)
  with assms show ?thesis
    by (auto simp: table_step_def)
qed

lemma table_step_append:
  assumes "rows_ok inject w" and "outbox_table v = outbox_table w @ [r]" and "oe_ID r = outbox_seq w"
    and "pending r" and "outbox_seq v = Suc (outbox_seq w)" and "topic_log v = topic_log w"
  shows "table_step inject w v"
proof -
  have "oe_ID r \<notin> oe_ID ` set (outbox_table w)"
    using assms(1,3) by (auto simp: rows_ok_def)
  with assms show ?thesis
    by (auto simp: table_step_def rows_ok_def)
qed

section \<open>The calls make such steps\<close>

text \<open>The numbers a claim picks, and the table it leaves; \<open>w\<close> is the world in the call.\<close>

definition claim_ids :: "nat \<Rightarrow> int \<Rightarrow> 'a pgenv_scheme \<Rightarrow> nat list" where
  "claim_ids n tout w = map oe_ID (take n (sort_key oe_ID (filter
     (\<lambda>r. claimable (db_now w) tout r \<and> oe_ID r \<notin> set (row_locks w (this_call w))) (outbox_table w))))"

definition claim_table :: "nat list \<Rightarrow> int \<Rightarrow> outbox_row list \<Rightarrow> outbox_row list" where
  "claim_table ids now = map (\<lambda>r. if oe_ID r \<in> set ids then r\<lparr>or_claimed_at := Some now\<rparr> else r)"

definition claim_entries :: "nat list \<Rightarrow> 'a pgenv_scheme \<Rightarrow> outbox_entry list" where
  "claim_entries ids w = map entry_of (sort_key (\<lambda>r. scan_rank w (this_call w) (oe_ID r))
     (filter (\<lambda>r. oe_ID r \<in> set ids) (claim_table ids (db_now w) (outbox_table w))))"

lemma ClaimPending_eq:
  "ClaimPending n tout w =
     (let w1 = w\<lparr>pgenv.calls := Suc (pgenv.calls w)\<rparr>; ids = claim_ids n tout w1;
          v = w1\<lparr>outbox_table := claim_table ids (db_now w1) (outbox_table w)\<rparr>;
          err = Wrapf ''erro ao reivindicar outbox pendente'' (ErrText ''postgres'')
      in case plan w (pgenv.calls w) of
          NoFault \<Rightarrow> (Inr (claim_entries ids w1), v) | Fails \<Rightarrow> (Inl err, w1) | LostAck \<Rightarrow> (Inl err, v))"
  by (simp add: ClaimPending_def statement_def Let_def claim_ids_def claim_table_def claim_entries_def
      split: fault.split)

lemma set_claim_entries:
  "set (claim_entries ids w) = entry_of ` {r \<in> set (outbox_table w). oe_ID r \<in> set ids}"
proof -
  let ?f = "\<lambda>r. if oe_ID r \<in> set ids then r\<lparr>or_claimed_at := Some (db_now w)\<rparr> else r"
  have "oe_ID (?f r) = oe_ID r" "entry_of (?f r) = entry_of r" for r
    by simp_all
  then show ?thesis
    by (simp add: claim_entries_def claim_table_def filter_map comp_def image_image)
qed

lemma claim_table_step:
  assumes "rows_ok inject w" and "outbox_table v = claim_table ids now (outbox_table w)"
    and "outbox_seq v = outbox_seq w" and "topic_log v = topic_log w"
  shows "table_step inject w v"
  by (rule table_step_map [OF assms(1) assms(2) [unfolded claim_table_def]])
    (use assms in \<open>auto simp: pending_def split: if_splits\<close>)

lemma ClaimPending_step:
  assumes "rows_ok inject w" and "ClaimPending n tout w = (res, v)"
  shows "table_step inject w v \<and> (\<forall>es. res = Inr es \<longrightarrow> (\<forall>e \<in> set es. good_entry e v))"
proof -
  let ?w1 = "w\<lparr>pgenv.calls := Suc (pgenv.calls w)\<rparr>"
  have step: "table_step inject w v"
    using assms(2) claim_table_step [OF assms(1)] table_step_same [OF assms(1), of ?w1]
    by (auto simp: ClaimPending_eq Let_def split: fault.splits)
  have "good_entry (entry_of r) w" if "r \<in> set (outbox_table w)" for r
    using that assms(1) unfolding good_entry_def rows_ok_def
    by (metis distinct_map entry_of_ID inj_onD)
  then have "good_entry (entry_of r) v" if "r \<in> set (outbox_table w)" for r
    using that table_step_entry [OF step] by blast
  then show ?thesis
    using step assms(2) by (auto simp: ClaimPending_eq Let_def set_claim_entries split: fault.splits)
qed

lemma outbox_Append_step:
  assumes "rows_ok inject w"
  shows "table_step inject w (snd (outbox_Append eid topic key payload trace w))"
proof -
  have app: "table_step inject w v" if "outbox_table v = outbox_table w @ [r]" "oe_ID r = outbox_seq w"
      "pending r" "outbox_seq v = Suc (outbox_seq w)" "topic_log v = topic_log w" for v r
    by (rule table_step_append [OF assms that])
  show ?thesis
    using table_step_same [OF assms]
    by (cases "plan w (pgenv.calls w)")
      (auto simp: outbox_Append_def statement_def Let_def pending_def intro!: app)
qed

lemma PurgePublished_step:
  assumes "rows_ok inject w"
  shows "table_step inject w (snd (PurgePublished t w))"
  using table_step_same [OF assms] table_step_filter [OF assms]
  by (cases "plan w (pgenv.calls w)") (auto simp: PurgePublished_def statement_def Let_def)

lemma MarkPublishedBatch_step:
  assumes "rows_ok inject w" and "pc_ok inject (RSent es) w"
    and "MarkPublishedBatch (map oe_ID es) w = (res, v)"
  shows "table_step inject w v"
proof -
  have sent: "entry_message inject (entry_of r) \<in> set (topic_log w)"
    if "r \<in> set (outbox_table w)" "oe_ID r \<in> oe_ID ` set es" for r
    using that assms(2) by (fastforce simp: pc_ok_def good_entry_def)
  have mark: "table_step inject w v"
    if "outbox_table v = mark_published (map oe_ID es) now (outbox_table w)" "outbox_seq v = outbox_seq w"
      "topic_log v = topic_log w" for v :: "'a bus_env_scheme" and now
    by (rule table_step_map [OF assms(1) that(1) [unfolded mark_published_def]])
      (use that sent in \<open>auto simp: pending_def split: if_splits\<close>)
  show ?thesis
    using assms(3) mark table_step_same [OF assms(1)]
    by (cases "plan w (pgenv.calls w)")
      (auto simp: MarkPublishedBatch_def statement_def Let_def returnM_def split: if_splits)
qed

lemma mark_sent_step:
  assumes "rows_ok inject w" and "pc_ok inject (RSent es) w" and "mark_sent es w = (res, v)"
  shows "table_step inject w v"
proof -
  obtain r u where mark: "MarkPublishedBatch (map oe_ID es) w = (r, u)"
    by (cases "MarkPublishedBatch (map oe_ID es) w")
  then have "outbox_table v = outbox_table u \<and> outbox_seq v = outbox_seq u \<and> topic_log v = topic_log u"
    using assms(3) by (cases r) (auto simp: mark_sent_def tryM_def wrapM_def record_metric_def)
  with MarkPublishedBatch_step [OF assms(1,2) mark] show ?thesis
    by (simp add: table_step_def)
qed

lemma purge_tick_step: "rows_ok inject w \<Longrightarrow> table_step inject w (snd (purge_tick w))"
  using PurgePublished_step [of inject w purgeAfter]
  by (cases "PurgePublished purgeAfter w") (simp add: purge_tick_def tryM_def attemptM_def)

lemma count_tick_step: "rows_ok inject w \<Longrightarrow> table_step inject w (snd (count_tick w))"
  by (rule table_step_same)
    (auto simp: count_tick_def tryM_def attemptM_def record_metric_def CountPending_def statement_def Let_def
      split: fault.split)

lemma PublishBatch_step:
  assumes "rows_ok inject w" and "writer_honest w" and "PublishBatch name msgs w = (res, v)"
  shows "table_step inject w v \<and> (res = Inr () \<longrightarrow> set msgs \<subseteq> set (topic_log v))"
proof -
  have "table_step inject w v"
    using assms(3) table_step_same [OF assms(1)]
    by (auto simp: PublishBatch_def writer_WriteMessages_def Let_def returnM_def tryM_def record_metric_def
        split: if_splits option.splits)
  moreover have "set msgs \<subseteq> set (topic_log v)" if "res = Inr ()"
  proof (cases "msgs = []")
    case False
    with assms(3) that have none: "write_err w (writes w) = None"
      and v: "topic_log v = topic_log w @ map snd (filter (\<lambda>(i, m). accepted w (writes w) i) (enumerate 0 msgs))"
      by (auto simp: PublishBatch_def writer_WriteMessages_def Let_def tryM_def record_metric_def
          split: option.splits)
    from none assms(2) have "accepted w (writes w) i" for i
      by (simp add: writer_honest_def)
    then show ?thesis
      using v kept_all [of "accepted w (writes w)" 0 msgs] by simp
  qed simp
  ultimately show ?thesis
    by blast
qed

section \<open>The invariant of the relays\<close>

lemma relays_inv_set_pc:
  "relays_inv inject pcs w \<Longrightarrow> pc_ok inject pc w \<Longrightarrow> relays_inv inject (pcs(i := pc)) w"
  by (simp add: relays_inv_def)

lemma pc_ok_RIdle [simp]: "pc_ok inject RIdle w"
  by (simp add: pc_ok_def)

lemma honest_cong:
  "write_err v = write_err w \<Longrightarrow> accepted v = accepted w \<Longrightarrow> writer_honest v = writer_honest w"
  by (simp add: writer_honest_def)

lemma honest_calls:
  "writer_honest (snd (ClaimPending n t w)) = writer_honest w"
  "writer_honest (snd (mark_sent es w)) = writer_honest w"
  "writer_honest (snd (outbox_Append eid topic key payload trace w)) = writer_honest w"
  "writer_honest (snd (purge_tick w)) = writer_honest w"
  "writer_honest (snd (count_tick w)) = writer_honest w"
  "writer_honest (snd (PublishBatch name msgs w)) = writer_honest w"
  for w :: "'a bus_env_scheme"
  by (rule honest_cong; cases "plan w (pgenv.calls w)";
      simp add: ClaimPending_def MarkPublishedBatch_def outbox_Append_def PurgePublished_def CountPending_def
        PublishBatch_def writer_WriteMessages_def statement_def Let_def tryM_def record_metric_def wrapM_def
        attemptM_def mark_sent_def purge_tick_def count_tick_def split: option.split)+

lemma relay_advance_inv:
  assumes inv: "relays_inv inject pcs w" and honest: "writer_honest w"
    and adv: "relay_advance inject b (pcs i) w = (Inr pc, v)"
  shows "relays_inv inject (pcs(i := pc)) v \<and> writer_honest v"
proof (cases "pcs i")
  case RIdle
  obtain res where res: "ClaimPending (nat b) claimTimeout w = (res, v)"
    "pc = (case res of Inl _ \<Rightarrow> RIdle | Inr es \<Rightarrow> if es = [] then RIdle else RClaimed es)"
    using adv by (auto simp: RIdle relay_advance_def tryM_def attemptM_def split: prod.splits)
  note step = ClaimPending_step [OF inv [unfolded relays_inv_def, THEN conjunct1] res(1)]
  have "pc_ok inject pc v"
    using step res(2) by (auto simp: pc_ok_def split: sum.split)
  moreover have "writer_honest v"
    using honest honest_calls(1) [of "nat b" claimTimeout w] res(1) by simp
  ultimately show ?thesis
    using relays_inv_set_pc [OF table_step_inv [OF step [THEN conjunct1] inv]] by blast
next
  case (RClaimed es)
  obtain res where res: "PublishBatch relayName (map (entry_message inject) es) w = (res, v)"
    "pc = (case res of Inl _ \<Rightarrow> RIdle | Inr _ \<Rightarrow> RSent es)"
    using adv by (auto simp: RClaimed relay_advance_def tryM_def attemptM_def split: prod.splits)
  note step = PublishBatch_step [OF inv [unfolded relays_inv_def, THEN conjunct1] honest res(1)]
  have inv': "relays_inv inject pcs v"
    by (rule table_step_inv [OF step [THEN conjunct1] inv])
  then have "pc_ok inject (RClaimed es) v"
    by (metis RClaimed relays_inv_def)
  then have "pc_ok inject pc v"
    using step res(2) by (auto simp: pc_ok_def split: sum.split)
  moreover have "writer_honest v"
    using honest honest_calls(6) [of relayName _ w] res(1) by (metis snd_conv)
  ultimately show ?thesis
    using relays_inv_set_pc [OF inv'] by blast
next
  case (RSent es)
  obtain res where res: "mark_sent es w = (res, v)" "pc = RIdle"
    using adv by (auto simp: RSent relay_advance_def tryM_def attemptM_def split: prod.splits)
  have "pc_ok inject (RSent es) w"
    using inv RSent by (metis relays_inv_def)
  note step = mark_sent_step [OF inv [unfolded relays_inv_def, THEN conjunct1] this res(1)]
  have "writer_honest v"
    using honest honest_calls(2) [of es w] res(1) by simp
  then show ?thesis
    using relays_inv_set_pc [OF table_step_inv [OF step inv]] res(2) by simp
qed

lemma relays_run_inv:
  assumes "relays_run inject b w0 pcs w" and "rows_ok inject w0" and "writer_honest w0"
  shows "relays_inv inject pcs w \<and> writer_honest w"
  using assms(1)
proof (induction rule: relays_run.induct)
  case relays_start
  then show ?case
    using assms(2,3) by (simp add: relays_inv_def)
next
  case (relays_call pcs w i pc v)
  then show ?case
    using relay_advance_inv by blast
next
  case (relays_crash pcs w i)
  then show ?case
    using relays_inv_set_pc pc_ok_RIdle by blast
next
  case (relays_append pcs w eid topic key payload trace)
  then show ?case
    using table_step_inv [OF outbox_Append_step] honest_calls(3) relays_inv_def by blast
next
  case (relays_purge pcs w)
  then show ?case
    using table_step_inv [OF purge_tick_step] honest_calls(4) relays_inv_def by blast
next
  case (relays_count pcs w)
  then show ?case
    using table_step_inv [OF count_tick_step] honest_calls(5) relays_inv_def by blast
next
  case (relays_other pcs w v)
  then have "table_step inject w v"
    by (intro table_step_same) (simp_all add: relays_inv_def)
  moreover have "writer_honest v"
    using relays_other by (simp add: writer_honest_def)
  ultimately show ?case
    using table_step_inv relays_other by blast
qed

section \<open>A claim takes the oldest rows\<close>

lemma length_filter_sort_key: "length (filter Q (sort_key f P)) = length (filter Q P)"
  by (metis mset_filter mset_sort size_mset)

lemma filter_oldest:
  assumes "distinct (map f P)"
  shows "length (filter (\<lambda>r. f r \<in> f ` set (take b (sort_key f P))) P) = min b (length P)"
    and "length (filter (\<lambda>r. f r \<notin> f ` set (take b (sort_key f P))) P) = length P - b"
proof -
  let ?S = "sort_key f P"
  have "mset (map f ?S) = mset (map f P)"
    by (simp add: mset_map)
  then have dist: "distinct (map f ?S)"
    using assms by (metis mset_eq_imp_distinct_iff)
  have split: "?S = take b ?S @ drop b ?S"
    by simp
  then have "distinct (map f (take b ?S) @ map f (drop b ?S))"
    using dist by (metis map_append)
  then have disj: "f ` set (take b ?S) \<inter> f ` set (drop b ?S) = {}"
    by simp
  have "filter (\<lambda>r. f r \<in> f ` set (take b ?S)) ?S = take b ?S"
  proof -
    have "filter (\<lambda>r. f r \<in> f ` set (take b ?S)) (drop b ?S) = []"
      using disj by (auto simp: filter_empty_conv)
    moreover have "filter (\<lambda>r. f r \<in> f ` set (take b ?S)) (take b ?S) = take b ?S"
      by (intro filter_True) blast
    ultimately show ?thesis
      using split filter_append by (metis append_Nil2)
  qed
  then show in_take: "length (filter (\<lambda>r. f r \<in> f ` set (take b ?S)) P) = min b (length P)"
    using length_filter_sort_key [of "\<lambda>r. f r \<in> f ` set (take b ?S)" f P] by (simp add: min.commute)
  show "length (filter (\<lambda>r. f r \<notin> f ` set (take b ?S)) P) = length P - b"
    using sum_length_filter_compl [of "\<lambda>r. f r \<in> f ` set (take b ?S)" P] in_take by linarith
qed

section \<open>Draining the outbox\<close>

text \<open>Nothing fails from now on, and no row is in another relay's hands.\<close>

definition calm :: "'a bus_env_scheme \<Rightarrow> bool" where
  "calm w \<longleftrightarrow> (\<forall>n \<ge> pgenv.calls w. plan w n = NoFault \<and> row_locks w n = []) \<and>
     (\<forall>n \<ge> writes w. write_err w n = None) \<and> writer_honest w \<and>
     distinct (map oe_ID (outbox_table w)) \<and>
     (\<forall>r \<in> set (outbox_table w). pending r \<longrightarrow> or_claimed_at r = None)"

definition pendings :: "'a pgenv_scheme \<Rightarrow> outbox_row list" where
  "pendings w = filter pending (outbox_table w)"

lemma calm_claim_ids:
  assumes "calm w" and "w1 = w\<lparr>pgenv.calls := Suc (pgenv.calls w)\<rparr>"
  shows "set (claim_ids n tout w1) = oe_ID ` set (take n (sort_key oe_ID (pendings w)))"
proof -
  have "filter (\<lambda>r. claimable (db_now w1) tout r \<and> oe_ID r \<notin> set (row_locks w1 (this_call w1)))
      (outbox_table w) = pendings w"
    using assms unfolding pendings_def
    by (intro filter_cong) (auto simp: calm_def claimable_def this_call_def)
  then show ?thesis
    using assms(2) by (simp add: claim_ids_def)
qed

lemma ids_of_pending:
  assumes "distinct (map oe_ID (outbox_table w))" and "I \<subseteq> oe_ID ` set (pendings w)"
  shows "filter (\<lambda>r. oe_ID r \<in> I) (outbox_table w) = filter (\<lambda>r. oe_ID r \<in> I) (pendings w)"
proof -
  have "pending r" if r: "r \<in> set (outbox_table w)" "oe_ID r \<in> I" for r
  proof -
    from r(2) assms(2) obtain p where p: "p \<in> set (outbox_table w)" "pending p" "oe_ID p = oe_ID r"
      by (force simp: pendings_def)
    with r(1) assms(1) have "p = r"
      by (simp add: distinct_map inj_on_def)
    with p(2) show ?thesis by simp
  qed
  then show ?thesis
    unfolding pendings_def filter_filter by (intro filter_cong) auto
qed

lemma mark_claim_table:
  "mark_published jds t (claim_table ids now rs) =
     map (\<lambda>r. let r = (if oe_ID r \<in> set ids then r\<lparr>or_claimed_at := Some now\<rparr> else r)
              in if oe_ID r \<in> set jds then r\<lparr>or_published_at := Some t\<rparr> else r) rs"
  by (simp add: mark_published_def claim_table_def Let_def)

lemma after_mark:
  assumes "set jds = set ids"
  shows "map oe_ID (mark_published jds t (claim_table ids now rs)) = map oe_ID rs"
    and "length (filter pending (mark_published jds t (claim_table ids now rs))) =
      length (filter (\<lambda>r. oe_ID r \<notin> set ids) (filter pending rs))"
    and "r \<in> set (mark_published jds t (claim_table ids now rs)) \<Longrightarrow> pending r \<Longrightarrow> r \<in> set rs"
  using assms by (induction rs) (auto simp: mark_claim_table Let_def pending_def split: if_splits)

lemma length_claim_entries:
  "length (claim_entries ids w) = length (filter (\<lambda>r. oe_ID r \<in> set ids) (outbox_table w))"
proof -
  let ?f = "\<lambda>r. if oe_ID r \<in> set ids then r\<lparr>or_claimed_at := Some (db_now w)\<rparr> else r"
  have "oe_ID (?f r) = oe_ID r" for r
    by simp
  then show ?thesis
    by (simp add: claim_entries_def claim_table_def filter_map comp_def)
qed

lemma calm_cycle:
  fixes w :: "'a bus_env_scheme"
  assumes calm: "calm w" and b: "1 \<le> b"
  defines "k \<equiv> length (pendings w)"
  shows "\<exists>v. relayOnce inject b w = (Inr (min (nat b) k), v) \<and> calm v \<and> length (pendings v) = k - nat b"
proof -
  define w1 where "w1 = w\<lparr>pgenv.calls := Suc (pgenv.calls w)\<rparr>"
  define ids where "ids = claim_ids (nat b) claimTimeout w1"
  define v1 where "v1 = w1\<lparr>outbox_table := claim_table ids (db_now w1) (outbox_table w)\<rparr>"
  define es where "es = claim_entries ids w1"
  have dist: "distinct (map oe_ID (outbox_table w))" and dist_P: "distinct (map oe_ID (pendings w))"
    using calm by (auto simp: calm_def pendings_def distinct_map_filter)
  have set_ids: "set ids = oe_ID ` set (take (nat b) (sort_key oe_ID (pendings w)))"
    unfolding ids_def by (rule calm_claim_ids [OF calm w1_def])
  have sub: "set ids \<subseteq> oe_ID ` set (pendings w)"
    unfolding set_ids using set_take_subset [of "nat b" "sort_key oe_ID (pendings w)"] by auto
  have claim: "ClaimPending (nat b) claimTimeout w = (Inr es, v1)"
    using calm by (simp add: ClaimPending_eq Let_def calm_def w1_def ids_def v1_def es_def)
  have len_es: "length es = min (nat b) k"
    using filter_oldest(1) [OF dist_P, of "nat b"] ids_of_pending [OF dist sub]
    by (simp add: es_def length_claim_entries w1_def k_def set_ids)
  have set_es: "set (map oe_ID es) = set ids"
    using sub by (force simp: es_def set_claim_entries w1_def pendings_def image_iff)
  have rest: "length (filter (\<lambda>r. oe_ID r \<notin> set ids) (pendings w)) = k - nat b"
    using filter_oldest(2) [OF dist_P, of "nat b"] by (simp add: set_ids k_def)
  show ?thesis
  proof (cases "es = []")
    case True
    with len_es b have "k = 0" by simp
    then have "pendings w = []" by (simp add: k_def)
    with set_ids have "ids = []" by simp
    then have v1: "v1 = w1"
      by (simp add: v1_def claim_table_def w1_def)
    have "calm w1" and "pendings w1 = pendings w"
      using calm by (auto simp: calm_def w1_def pendings_def writer_honest_def)
    with True claim \<open>k = 0\<close> v1 show ?thesis
      by (simp add: relayOnce_def tryM_def k_def)
  next
    case False
    define w2 where "w2 = v1\<lparr>topic_log := topic_log v1 @ map (entry_message inject) es, writes := Suc (writes v1),
      metrics := fold (\<lambda>m. RecordPublished relayName (ko_Topic m)) (map (entry_message inject) es) (metrics v1)\<rparr>"
    define w3 where "w3 = w2\<lparr>pgenv.calls := Suc (pgenv.calls w2)\<rparr>"
    define v where "v = w3\<lparr>outbox_table := mark_published (map oe_ID es) (db_now w3) (outbox_table v1),
      metrics := (RecordOutboxPublished ^^ length es) (metrics w3)\<rparr>"
    have fields: "writes v1 = writes w" "write_err v1 = write_err w" "accepted v1 = accepted w"
      "plan v1 = plan w" "row_locks v1 = row_locks w" "pgenv.calls v1 = Suc (pgenv.calls w)"
      by (simp_all add: v1_def w1_def)
    have "accepted w n i" if "write_err w n = None" for n i
      using calm that by (simp add: calm_def writer_honest_def)
    then have pub: "PublishBatch relayName (map (entry_message inject) es) v1 = (Inr (), w2)"
      using False calm fields by (simp add: PublishBatch_def writer_WriteMessages_def Let_def calm_def
          w2_def kept_all tryM_def record_metric_def)
    have mark: "mark_sent es w2 = (Inr (), v)"
      using False calm fields by (simp add: mark_sent_def tryM_def wrapM_def record_metric_def MarkPublishedBatch_def statement_def Let_def calm_def
          w2_def w3_def v_def)
    have run: "relayOnce inject b w = (Inr (min (nat b) k), v)"
      using False by (simp add: relayOnce_def tryM_def wrapM_def claim pub mark len_es)
    have table: "outbox_table v = mark_published (map oe_ID es) (db_now w3)
        (claim_table ids (db_now w1) (outbox_table w))"
      by (simp add: v_def v1_def)
    have "length (pendings v) = k - nat b"
      using rest after_mark(2) [OF set_es] by (simp add: pendings_def table)
    moreover have "calm v"
    proof -
      have "distinct (map oe_ID (outbox_table v))"
        using dist by (simp add: table after_mark(1) [OF set_es])
      moreover have "or_claimed_at r = None" if "r \<in> set (outbox_table v)" "pending r" for r
        using that calm after_mark(3) [OF set_es] by (auto simp: table calm_def)
      ultimately show ?thesis
        using calm fields by (auto simp: calm_def v_def w3_def w2_def writer_honest_def)
    qed
    ultimately show ?thesis
      using run by blast
  qed
qed


lemma calm_ticks [simp]: "calm (w\<lparr>ticks := n\<rparr>) = calm w" "pendings (w\<lparr>ticks := n\<rparr>) = pendings w"
  for w :: "'a bus_env_scheme"
  by (simp_all add: calm_def pendings_def writer_honest_def)

lemma calm_loop:
  fixes w :: "'a bus_env_scheme"
  assumes "1 \<le> b"
  shows "calm w \<Longrightarrow> length (pendings w) \<le> n * nat b \<Longrightarrow>
    pendings (snd (snd (relay_main inject b n pauses lastActivity w))) = []"
proof (induction n arbitrary: pauses lastActivity w)
  case 0
  then show ?case by simp
next
  case (Suc n)
  obtain u where u: "relayOnce inject b w = (Inr (min (nat b) (length (pendings w))), u)" "calm u"
    "length (pendings u) = length (pendings w) - nat b"
    using calm_cycle [OF Suc.prems(1) assms, of inject] by blast
  then have "length (pendings u) \<le> n * nat b"
    using Suc.prems(2) by simp
  moreover have "pendings u = []" if "min (nat b) (length (pendings w)) = 0"
    using u(3) that assms by (auto simp: min_def split: if_splits)
  ultimately show ?case
    using Suc.IH u by (auto simp: Let_def split: list.split bool.split)
qed

text \<open>Within the timeout of its claim a row is not claimed again, unless it has been given back.\<close>

lemma second_claim_disjoint:
  assumes first: "ClaimPending n tout w = (Inr es, v)" and second: "ClaimPending m tout v' = (Inr fs, u)"
    and kept: "\<And>r. r \<in> set (outbox_table v') \<Longrightarrow> oe_ID r \<in> oe_ID ` set es \<Longrightarrow>
      r \<in> set (outbox_table v) \<or> \<not> pending r"
    and within: "db_clock v' (pgenv.calls v') \<le> db_clock w (pgenv.calls w) + tout"
  shows "oe_ID ` set es \<inter> oe_ID ` set fs = {}"
proof -
  let ?w1 = "w\<lparr>pgenv.calls := Suc (pgenv.calls w)\<rparr>" and ?v1 = "v'\<lparr>pgenv.calls := Suc (pgenv.calls v')\<rparr>"
  let ?ids = "claim_ids n tout ?w1"
  have es: "es = claim_entries ?ids ?w1" and v: "outbox_table v = claim_table ?ids (db_now ?w1) (outbox_table w)"
    using first by (auto simp: ClaimPending_eq Let_def split: fault.splits)
  have fs: "fs = claim_entries (claim_ids m tout ?v1) ?v1"
    using second by (auto simp: ClaimPending_eq Let_def split: fault.splits)
  have "False" if i: "i \<in> oe_ID ` set es" "i \<in> oe_ID ` set fs" for i
  proof -
    have in_ids: "i \<in> set ?ids"
      using i(1) by (auto simp: es set_claim_entries)
    have "i \<in> set (claim_ids m tout ?v1)"
      using i(2) by (auto simp: fs set_claim_entries)
    then obtain r where r: "r \<in> set (outbox_table v')" "oe_ID r = i" "claimable (db_now ?v1) tout r"
      by (auto simp: claim_ids_def dest!: in_set_takeD)
    with kept i(1) have "r \<in> set (outbox_table v)"
      by (auto simp: claimable_def)
    with in_ids r(2) have "or_claimed_at r = Some (db_now ?w1)"
      by (auto simp: v claim_table_def split: if_splits)
    with r(3) within show False
      by (simp add: claimable_def db_now_def this_call_def)
  qed
  then show ?thesis
    by blast
qed

lemma claim_at_most:
  assumes "ClaimPending n tout w = (Inr es, v)" and "distinct (map oe_ID (outbox_table w))"
  shows "length es \<le> n"
proof -
  let ?w1 = "w\<lparr>pgenv.calls := Suc (pgenv.calls w)\<rparr>"
  have es: "es = claim_entries (claim_ids n tout ?w1) ?w1"
    using assms(1) by (auto simp: ClaimPending_eq Let_def split: fault.splits)
  let ?ids = "set (claim_ids n tout ?w1)"
  let ?rs = "filter (\<lambda>r. oe_ID r \<in> ?ids) (outbox_table w)"
  have "length es = length (map oe_ID ?rs)"
    by (simp add: es length_claim_entries)
  also have "\<dots> = card (oe_ID ` set ?rs)"
    using assms(2) by (metis distinct_card distinct_map_filter set_map)
  also have "\<dots> \<le> card ?ids"
    by (rule card_mono) auto
  also have "\<dots> \<le> n"
    by (rule order_trans [OF card_length]) (simp add: claim_ids_def)
  finally show ?thesis .
qed

section \<open>Properties\<close>

text \<open>
  C14: however the calls of any number of relays, their crashes, the transactions of the services
  and the purges interleave, and whatever fails in the database or the broker, a row of the outbox
  is marked as published only when its message is on the bus. With the rest of the run this is
  delivery at least once: a row not marked is still there to be claimed.
\<close>

theorem marked_rows_were_sent:
  assumes "relays_run inject batchSize w0 pcs w" and "outbox_table w0 = []" and "writer_honest w0"
    and "r \<in> set (outbox_table w)" and "\<not> pending r"
  shows "entry_message inject (entry_of r) \<in> set (topic_log w)"
proof -
  have "rows_ok inject w0"
    using assms(2) by (simp add: rows_ok_def)
  with relays_run_inv [OF assms(1) _ assms(3)] assms(4,5) show ?thesis
    by (auto simp: relays_inv_def rows_ok_def)
qed

text \<open>
  C15: the main loop of a relay with the batch size of its environment empties the outbox when
  nothing fails, wherever its context is done in a pause: after as many cycles as there are batches
  in it, no row is pending.
\<close>

theorem relay_drains_outbox:
  fixes w :: "'a bus_env_scheme"
  assumes "calm w" and "length (pendings w) \<le> n * nat (relay_batchSize getenv)"
  shows "pendings (snd (snd (relay_main inject (relay_batchSize getenv) n pauses lastActivity w))) = []"
  by (rule calm_loop [OF _ assms]) (use relay_at_least [of getenv] in simp)

text \<open>
  C16: a claim takes at most as many rows as it asks for, and a later claim, by this or another
  relay, takes none of them while the timeout of the first has not passed, as long as the rows have
  not been touched or have been published in between.
\<close>

theorem claims_are_bounded_and_exclusive:
  assumes "ClaimPending n tout w = (Inr es, v)" and "distinct (map oe_ID (outbox_table w))"
    and "ClaimPending m tout v' = (Inr fs, u)"
    and "\<And>r. r \<in> set (outbox_table v') \<Longrightarrow> oe_ID r \<in> oe_ID ` set es \<Longrightarrow>
      r \<in> set (outbox_table v) \<or> \<not> pending r"
    and "db_clock v' (pgenv.calls v') \<le> db_clock w (pgenv.calls w) + tout"
  shows "length es \<le> n \<and> oe_ID ` set es \<inter> oe_ID ` set fs = {}"
  using claim_at_most [OF assms(1,2)] second_claim_disjoint [OF assms(1,3,4,5)] by blast

definition relay_row :: "nat \<Rightarrow> outbox_row" where
  "relay_row n = \<lparr>oe_ID = n, oe_EventID = ''e'', oe_Topic = TopicOrderStatus, oe_Key = ''o'',
     oe_Payload = JNull, oe_Traceparent = [], or_claimed_at = None, or_published_at = None\<rparr>"

definition relay_world :: "outbox_row list \<Rightarrow> bus_env" where
  "relay_world rows = \<lparr>entropy = \<lambda>_ _. 0, drawn = 0, clock = \<lambda>_. 0, ticks = 0, attempts = \<lambda>_ _. 0, metrics = new_registry,
     sagas_table = \<lambda>_. None, saga_events_table = [], outbox_table = rows, outbox_seq = length rows,
     traceparent = [], plan = \<lambda>_. NoFault, calls = 0, db_clock = \<lambda>_. 0, row_locks = \<lambda>_. [],
     scan_rank = \<lambda>_ _. 0, topic_log = [], writes = 0, write_err = \<lambda>_. None, accepted = \<lambda>_ _. True\<rparr>"

lemma relay_drains_outbox_witness:
  "pendings (snd (snd (relay_main (\<lambda>_. []) (relay_batchSize (\<lambda>_. [])) 1 [] 0
     (relay_world [relay_row 0, relay_row 1])))) = []"
  by (rule relay_drains_outbox)
    (auto simp: calm_def relay_world_def relay_row_def writer_honest_def pendings_def pending_def
      relay_batchSize_def envInt_def defaultBatchSize_def Let_def)



lemmas relay_eval = ClaimPending_eq claim_ids_def claim_entries_def claim_table_def Let_def
  claimable_def pending_def db_now_def this_call_def entry_of_def relay_world_def relay_row_def

lemma claims_are_bounded_and_exclusive_witness:
  "let w = relay_world [relay_row 0, relay_row 1]; v = snd (ClaimPending 1 claimTimeout w) in
     length [entry_of (relay_row 0)] \<le> 1 \<and>
     oe_ID ` set [entry_of (relay_row 0)] \<inter> oe_ID ` set [entry_of (relay_row 1)] = {}"
proof -
  let ?w = "relay_world [relay_row 0, relay_row 1]"
  obtain v where v: "ClaimPending 1 claimTimeout ?w = (Inr [entry_of (relay_row 0)], v)"
    "outbox_table v = [(relay_row 0)\<lparr>or_claimed_at := Some 0\<rparr>, relay_row 1]" "pgenv.calls v = 1"
    "db_clock v = (\<lambda>_. 0)" "plan v = (\<lambda>_. NoFault)" "row_locks v = (\<lambda>_. [])" "scan_rank v = (\<lambda>_ _. 0)"
    by (simp add: relay_eval)
  have "\<exists>u. ClaimPending 1 claimTimeout v = (Inr [entry_of (relay_row 1)], u)"
    by (simp add: v relay_eval claimTimeout_def)
  then obtain u where u: "ClaimPending 1 claimTimeout v = (Inr [entry_of (relay_row 1)], u)" ..
  show ?thesis
    unfolding Let_def
    by (rule claims_are_bounded_and_exclusive [OF v(1) _ u])
      (simp_all add: v(4), simp_all add: relay_world_def relay_row_def claimTimeout_def)
qed

lemma marked_rows_were_sent_witness:
  "let w = snd (relayOnce (\<lambda>_. []) 500 (snd (outbox_Append ''e'' TopicOrderStatus ''o'' JNull [] (relay_world []))))
   in entry_message (\<lambda>_. []) (entry_of ((relay_row 0)\<lparr>or_claimed_at := Some 0, or_published_at := Some 0\<rparr>))
     \<in> set (topic_log w)"
  unfolding Let_def
proof (rule marked_rows_were_sent)
  show "relays_run (\<lambda>_. []) 500 (relay_world []) (\<lambda>_. RIdle)
    (snd (relayOnce (\<lambda>_. []) 500 (snd (outbox_Append ''e'' TopicOrderStatus ''o'' JNull [] (relay_world [])))))"
    by (intro relayOnce_run relays_append relays_start) simp
  show "(relay_row 0)\<lparr>or_claimed_at := Some 0, or_published_at := Some 0\<rparr> \<in> set (outbox_table
    (snd (relayOnce (\<lambda>_. []) 500 (snd (outbox_Append ''e'' TopicOrderStatus ''o'' JNull [] (relay_world []))))))"
    by (simp add: relayOnce_def tryM_def wrapM_def outbox_Append_def statement_def PublishBatch_def
        writer_WriteMessages_def mark_sent_def MarkPublishedBatch_def mark_published_def relay_eval record_metric_def)
qed (simp_all add: relay_world_def writer_honest_def pending_def)

end
