(* ===== verification/ReadModel.thy ===== *)
theory ReadModel
  imports Ports
begin

text \<open>
  The read side: the repository of \<open>internal/infrastructure/persistence/postgres_read\<close>, whose
  tables are \<open>order_views\<close> and \<open>processed_events\<close>, and the projector
  (\<open>internal/application/projector\<close>) that feeds it. The read database is a server of its own:
  \<open>read_plan n\<close> carries out the \<open>n\<close>-th statement, fails it, or loses its answer. The column
  \<open>updated_at\<close> is left out.
\<close>

section \<open>Tables and statements\<close>

record order_view =
  ov_current_status :: string
  ov_last_event_type :: string
  ov_last_event_at :: int
  ov_transaction_id :: string
  ov_notification_error :: bool
  ov_payment_refund_failed :: bool
  ov_timeline :: "json list"

datatype read_fault = ReadOk | ReadFails | ReadLostAck

record read_env =
  order_views :: "string \<Rightarrow> order_view option"
  processed_events :: "string list"
  read_plan :: "nat \<Rightarrow> read_fault"
  read_calls :: nat

definition read_statement ::
  "string \<Rightarrow> ('a read_env_scheme \<Rightarrow> 'b \<times> 'a read_env_scheme) \<Rightarrow> ('a read_env_scheme, go_error, 'b) io" where
  "read_statement label f w =
     (let w1 = w\<lparr>read_calls := Suc (read_calls w)\<rparr>; err = Wrapf label (ErrText ''postgres'') in
      case read_plan w (read_calls w) of
        ReadOk \<Rightarrow> (case f w1 of (x, v) \<Rightarrow> (Inr x, v))
      | ReadFails \<Rightarrow> (Inl err, w1)
      | ReadLostAck \<Rightarrow> (Inl err, snd (f w1)))"

section \<open>OrderViewRepository\<close>

text \<open>The row of \<open>INSERT ... VALUES\<close>, which \<open>ON CONFLICT\<close> calls \<open>EXCLUDED\<close>.\<close>

definition excluded :: "event \<Rightarrow> order_view" where
  "excluded event =
     \<lparr>ov_current_status = status_text (StatusAtual event),
      ov_last_event_type = event_type_text (EventType event),
      ov_last_event_at = CreatedAt event,
      ov_transaction_id = TransactionID event,
      ov_notification_error = (meta_get (Metadata event) ''notification_error'' = ''true''),
      ov_payment_refund_failed = (meta_get (Metadata event) ''payment_refund_failed'' = ''true''),
      ov_timeline = [marshal_event event]\<rparr>"

definition terminal_view :: "order_view \<Rightarrow> bool" where
  "terminal_view v \<longleftrightarrow> ov_current_status v \<in> {''COMPLETED'', ''FAILED''}"

text \<open>The row after the statement: the new one, or the update of the old one.\<close>

definition upsert :: "order_view option \<Rightarrow> order_view \<Rightarrow> order_view" where
  "upsert old new =
     (case old of
        None \<Rightarrow> new
      | Some v \<Rightarrow>
          \<lparr>ov_current_status = (if terminal_view v then ov_current_status v else ov_current_status new),
           ov_last_event_type = (if terminal_view v then ov_last_event_type v else ov_last_event_type new),
           ov_last_event_at = (if terminal_view v then ov_last_event_at v else ov_last_event_at new),
           ov_transaction_id =
             (if ov_transaction_id new \<noteq> '''' then ov_transaction_id new else ov_transaction_id v),
           ov_notification_error = (ov_notification_error v \<or> ov_notification_error new),
           ov_payment_refund_failed = (ov_payment_refund_failed v \<or> ov_payment_refund_failed new),
           ov_timeline = ov_timeline v @ ov_timeline new\<rparr>)"

definition ApplyEvent :: "event \<Rightarrow> ('a read_env_scheme, go_error, unit) io" where
  "ApplyEvent event = read_statement ''erro ao aplicar evento no read model'' (\<lambda>w.
     ((), w\<lparr>order_views := (order_views w)(OrderID event \<mapsto>
        upsert (order_views w (OrderID event)) (excluded event))\<rparr>))"

text \<open>The result tells whether a row was inserted.\<close>

definition MarkProcessed :: "string \<Rightarrow> ('a read_env_scheme, go_error, bool) io" where
  "MarkProcessed eventID = read_statement ''erro ao marcar evento como processado'' (\<lambda>w.
     if eventID \<in> set (processed_events w) then (False, w)
     else (True, w\<lparr>processed_events := processed_events w @ [eventID]\<rparr>))"

section \<open>Projector\<close>

definition projector_HandleEvent :: "event \<Rightarrow> ('a read_env_scheme, go_error, unit) io" where
  "projector_HandleEvent event =
     tryM (MarkProcessed (EventID event)) (\<lambda>first.
     if \<not> first then returnM () else ApplyEvent event)"

section \<open>One event\<close>

lemma wpM_read_statement [wp_simps]:
  "wpM (read_statement l f) Q E w =
     (let w1 = w\<lparr>read_calls := Suc (read_calls w)\<rparr>; err = Wrapf l (ErrText ''postgres'') in
      case read_plan w (read_calls w) of
        ReadOk \<Rightarrow> Q (fst (f w1)) (snd (f w1)) | ReadFails \<Rightarrow> E err w1 | ReadLostAck \<Rightarrow> E err (snd (f w1)))"
  by (simp add: wpM_def read_statement_def Let_def split: read_fault.split prod.split)

definition project1 :: "event \<Rightarrow> 'a read_env_scheme \<Rightarrow> 'a read_env_scheme" where
  "project1 e w = snd (projector_HandleEvent e w)"

lemma project1_rows:
  "order_views (project1 e w) oid = order_views w oid \<or>
     OrderID e = oid \<and> order_views (project1 e w) oid = Some (upsert (order_views w oid) (excluded e))"
  by (auto simp: project1_def projector_HandleEvent_def MarkProcessed_def ApplyEvent_def read_statement_def
      tryM_def returnM_def Let_def split: read_fault.split)

lemma upsert_terminal:
  "terminal_view v \<Longrightarrow> ov_current_status (upsert (Some v) new) = ov_current_status v \<and>
     ov_last_event_type (upsert (Some v) new) = ov_last_event_type v \<and>
     ov_last_event_at (upsert (Some v) new) = ov_last_event_at v"
  by (simp add: upsert_def)

lemma upsert_timeline: "ov_timeline (upsert (Some v) (excluded e)) = ov_timeline v @ [marshal_event e]"
  by (simp add: upsert_def excluded_def)

section \<open>Any sequence of events\<close>

lemma fold_project_keeps:
  assumes "\<And>e w. P w \<Longrightarrow> P (project1 e w)"
  shows "P w \<Longrightarrow> P (fold project1 es w)"
  by (induction es arbitrary: w) (simp_all add: assms)

definition settled_view :: "string \<Rightarrow> order_view \<Rightarrow> 'a read_env_scheme \<Rightarrow> bool" where
  "settled_view oid v w \<longleftrightarrow> (\<exists>u. order_views w oid = Some u \<and> ov_current_status u = ov_current_status v \<and>
     ov_last_event_type u = ov_last_event_type v \<and> ov_last_event_at u = ov_last_event_at v \<and>
     (\<exists>more. ov_timeline u = ov_timeline v @ more))"

lemma settled_view_project1:
  assumes "terminal_view v" and "settled_view oid v w"
  shows "settled_view oid v (project1 e w)"
proof -
  from assms(2) obtain u where u: "order_views w oid = Some u" "ov_current_status u = ov_current_status v"
    "ov_last_event_type u = ov_last_event_type v" "ov_last_event_at u = ov_last_event_at v"
    "\<exists>more. ov_timeline u = ov_timeline v @ more"
    by (auto simp: settled_view_def)
  with assms(1) have "terminal_view u"
    by (simp add: terminal_view_def)
  with project1_rows [of e w oid] u assms(2) show ?thesis
    by (auto simp: settled_view_def upsert_terminal upsert_timeline)
qed

section \<open>A healthy database: the view is a function of the events\<close>

definition read_healthy :: "'a read_env_scheme \<Rightarrow> bool" where
  "read_healthy w \<longleftrightarrow> (\<forall>n \<ge> read_calls w. read_plan w n = ReadOk)"

text \<open>The events that are new, in order: a repeated event id counts once.\<close>

fun new_events :: "string list \<Rightarrow> event list \<Rightarrow> event list" where
  "new_events seen [] = []"
| "new_events seen (e # es) =
     (if EventID e \<in> set seen then new_events seen es
      else e # new_events (seen @ [EventID e]) es)"

definition apply_all :: "event list \<Rightarrow> order_view option \<Rightarrow> order_view option" where
  "apply_all es old = fold (\<lambda>e v. Some (upsert v (excluded e))) es old"

lemma project1_healthy:
  assumes "read_healthy w"
  shows "read_healthy (project1 e w) \<and>
    (if EventID e \<in> set (processed_events w)
     then processed_events (project1 e w) = processed_events w \<and> order_views (project1 e w) = order_views w
     else processed_events (project1 e w) = processed_events w @ [EventID e] \<and>
       order_views (project1 e w) =
         (order_views w)(OrderID e \<mapsto> upsert (order_views w (OrderID e)) (excluded e)))"
  using assms by (auto simp: project1_def projector_HandleEvent_def MarkProcessed_def ApplyEvent_def
      read_statement_def tryM_def returnM_def Let_def read_healthy_def)

lemma fold_project_healthy:
  "read_healthy w \<Longrightarrow> order_views (fold project1 es w) oid =
     apply_all (filter (\<lambda>e. OrderID e = oid) (new_events (processed_events w) es)) (order_views w oid)"
proof (induction es arbitrary: w)
  case Nil
  then show ?case by (simp add: apply_all_def)
next
  case (Cons e es)
  from project1_healthy [OF Cons.prems, of e] Cons.IH [of "project1 e w"] show ?case
    by (auto simp: apply_all_def split: if_splits)
qed

text \<open>The status of a row after new events of which some are terminal, all with one status.\<close>

definition terminal_event :: "event \<Rightarrow> bool" where
  "terminal_event e \<longleftrightarrow> status_text (StatusAtual e) \<in> {''COMPLETED'', ''FAILED''}"

lemma apply_all_terminal:
  assumes "\<And>e. e \<in> set es \<Longrightarrow> terminal_event e \<Longrightarrow> status_text (StatusAtual e) = s"
    and "(\<exists>v. old = Some v \<and> terminal_view v \<and> ov_current_status v = s) \<or>
      ((\<forall>v. old = Some v \<longrightarrow> \<not> terminal_view v) \<and> (\<exists>e \<in> set es. terminal_event e))"
  shows "\<exists>v. apply_all es old = Some v \<and> ov_current_status v = s"
  using assms
proof (induction es arbitrary: old)
  case Nil
  then show ?case by (auto simp: apply_all_def)
next
  case (Cons e es)
  let ?new = "Some (upsert old (excluded e))"
  have step: "apply_all (e # es) old = apply_all es ?new"
    by (simp add: apply_all_def)
  have "(\<exists>v. ?new = Some v \<and> terminal_view v \<and> ov_current_status v = s) \<or>
      ((\<forall>v. ?new = Some v \<longrightarrow> \<not> terminal_view v) \<and> (\<exists>e \<in> set es. terminal_event e))"
  proof (cases "\<exists>v. old = Some v \<and> terminal_view v")
    case True
    with Cons.prems(2) show ?thesis
      by (auto simp: upsert_def terminal_view_def)
  next
    case False
    then have "ov_current_status (upsert old (excluded e)) = status_text (StatusAtual e)"
      by (auto simp: upsert_def excluded_def split: option.split)
    then have "terminal_view (upsert old (excluded e)) = terminal_event e"
      and "terminal_event e \<Longrightarrow> ov_current_status (upsert old (excluded e)) = s"
      using Cons.prems(1) [of e] by (simp_all add: terminal_view_def terminal_event_def)
    with False Cons.prems(2) show ?thesis
      by auto
  qed
  with Cons.IH [of ?new] Cons.prems(1) show ?case
    by (simp add: step)
qed

lemma apply_all_timeline:
  "ov_timeline (upsert old (excluded e)) = (case old of None \<Rightarrow> [] | Some v \<Rightarrow> ov_timeline v) @ [marshal_event e]"
  by (simp add: upsert_def excluded_def split: option.split)

lemma timeline_of_apply_all:
  "apply_all es old = Some v \<Longrightarrow>
     ov_timeline v = (case old of None \<Rightarrow> [] | Some u \<Rightarrow> ov_timeline u) @ map marshal_event es"
proof (induction es arbitrary: old)
  case Nil
  then show ?case by (simp add: apply_all_def)
next
  case (Cons e es)
  from Cons.prems have "apply_all es (Some (upsert old (excluded e))) = Some v"
    by (simp add: apply_all_def)
  from Cons.IH [OF this] show ?case
    by (simp add: apply_all_timeline)
qed

section \<open>Properties\<close>

text \<open>
  Once the row of an order shows COMPLETED or FAILED, no sequence of events, late, repeated or
  out of order, and no failure of the database changes its status, its last event or the time of
  that; the timeline only grows.
\<close>

theorem terminal_view_is_final:
  assumes "order_views w oid = Some v" and "terminal_view v"
  shows "\<exists>u more. order_views (fold project1 es w) oid = Some u \<and>
    ov_current_status u = ov_current_status v \<and> ov_last_event_type u = ov_last_event_type v \<and>
    ov_last_event_at u = ov_last_event_at v \<and> ov_timeline u = ov_timeline v @ more"
proof -
  have "settled_view oid v w"
    using assms(1) by (simp add: settled_view_def)
  then have "settled_view oid v (fold project1 es w)"
    by (intro fold_project_keeps [of "settled_view oid v"] settled_view_project1 [OF assms(2)])
  then show ?thesis
    by (auto simp: settled_view_def)
qed

definition sample_event :: "string \<Rightarrow> event_type \<Rightarrow> order_status \<Rightarrow> event" where
  "sample_event eid t s = zero_event\<lparr>EventID := eid, OrderID := ''o'', EventType := t, StatusAtual := s\<rparr>"

definition sample_read :: "(nat \<Rightarrow> read_fault) \<Rightarrow> read_env" where
  "sample_read p = \<lparr>order_views = \<lambda>_. None, processed_events = [], read_plan = p, read_calls = 0\<rparr>"

lemma terminal_view_is_final_witness:
  "let v = excluded (sample_event ''e1'' EventOrderCompleted StatusCompleted);
       w = (sample_read (\<lambda>_. ReadOk))\<lparr>order_views := [''o'' \<mapsto> v]\<rparr>
   in \<exists>u more. order_views (fold project1 [sample_event ''e2'' EventNotificationResult StatusNotified] w) ''o'' = Some u \<and>
     ov_current_status u = ov_current_status v \<and> ov_last_event_type u = ov_last_event_type v \<and>
     ov_last_event_at u = ov_last_event_at v \<and> ov_timeline u = ov_timeline v @ more"
  unfolding Let_def
  by (rule terminal_view_is_final)
    (simp_all add: terminal_view_def excluded_def sample_event_def)

text \<open>
  With a database that answers, the row of an order is the one its distinct events give in the
  order of their first deliveries; so redeliveries change nothing, the timeline lists each event
  once, and when the terminal events of the order agree (there is one, as the orchestrator sends
  it), the row ends in their status whatever the order of the deliveries.
\<close>

lemma projection_converges:
  assumes "read_healthy w" and "order_views w oid = None"
    and "e \<in> set (new_events (processed_events w) es)" and "OrderID e = oid" and "terminal_event e"
    and "\<And>e'. e' \<in> set es \<Longrightarrow> OrderID e' = oid \<Longrightarrow> terminal_event e' \<Longrightarrow> StatusAtual e' = StatusAtual e"
  shows "\<exists>v. order_views (fold project1 es w) oid = Some v \<and>
    ov_current_status v = status_text (StatusAtual e) \<and>
    ov_timeline v = map marshal_event (filter (\<lambda>e. OrderID e = oid) (new_events (processed_events w) es))"
proof -
  let ?es = "filter (\<lambda>e. OrderID e = oid) (new_events (processed_events w) es)"
  have sub: "set (new_events seen es) \<subseteq> set es" for seen
    by (induction es arbitrary: seen) auto
  have same: "status_text (StatusAtual e') = status_text (StatusAtual e)"
    if "e' \<in> set ?es" "terminal_event e'" for e'
    using that subsetD [OF sub, of e' "processed_events w"] assms(6) [of e'] by simp
  have "\<exists>v. apply_all ?es None = Some v \<and> ov_current_status v = status_text (StatusAtual e)"
    by (rule apply_all_terminal [OF same]) (use assms(3-5) in auto)
  then obtain v where v: "apply_all ?es None = Some v" "ov_current_status v = status_text (StatusAtual e)"
    by blast
  with timeline_of_apply_all [OF v(1)] show ?thesis
    by (simp add: fold_project_healthy [OF assms(1)] assms(2))
qed

lemma projection_converges_witness:
  "\<exists>v. order_views (fold project1 [sample_event ''e2'' EventOrderCompleted StatusCompleted,
         sample_event ''e1'' EventNotificationResult StatusNotified,
         sample_event ''e2'' EventOrderCompleted StatusCompleted] (sample_read (\<lambda>_. ReadOk))) ''o'' = Some v \<and>
     ov_current_status v = status_text (StatusAtual (sample_event ''e2'' EventOrderCompleted StatusCompleted)) \<and>
     ov_timeline v = map marshal_event (filter (\<lambda>e. OrderID e = ''o'')
       (new_events (processed_events (sample_read (\<lambda>_. ReadOk)))
         [sample_event ''e2'' EventOrderCompleted StatusCompleted,
          sample_event ''e1'' EventNotificationResult StatusNotified,
          sample_event ''e2'' EventOrderCompleted StatusCompleted]))"
  by (rule projection_converges)
    (auto simp: read_healthy_def sample_read_def sample_event_def terminal_event_def)

text \<open>
  C17: the two statements of the projector are not one transaction. When the first is done and the
  second fails, the consumer sees an error and delivers again; but the event now counts as
  processed, so every later delivery succeeds without effect: the view never gets the event.
\<close>

theorem failed_projection_is_lost:
  assumes "EventID e \<notin> set (processed_events w)" and "read_plan w (read_calls w) = ReadOk"
    and "read_plan w (Suc (read_calls w)) = ReadFails"
    and "\<And>n. read_calls w + 2 \<le> n \<Longrightarrow> read_plan w n = ReadOk"
  shows "(\<exists>err. fst (projector_HandleEvent e w) = Inl err) \<and>
    fst (projector_HandleEvent e (project1 e w)) = Inr () \<and>
    order_views (fold project1 (e # replicate n e) w) = order_views w"
proof -
  let ?v = "project1 e w"
  have v: "?v = w\<lparr>processed_events := processed_events w @ [EventID e], read_calls := read_calls w + 2\<rparr>"
    and err: "\<exists>err. fst (projector_HandleEvent e w) = Inl err"
    using assms by (simp_all add: project1_def projector_HandleEvent_def MarkProcessed_def ApplyEvent_def
        read_statement_def tryM_def Let_def)
  have ok: "read_healthy ?v"
    using assms(4) by (simp add: v read_healthy_def)
  have again: "fst (projector_HandleEvent e ?v) = Inr ()"
    using assms(4) by (simp add: v projector_HandleEvent_def MarkProcessed_def read_statement_def tryM_def Let_def)
  have "order_views (fold project1 (replicate n e) u) = order_views u"
    if "read_healthy u" "EventID e \<in> set (processed_events u)" for u :: "'a read_env_scheme"
    using that
  proof (induction n arbitrary: u)
    case (Suc n)
    with project1_healthy [OF Suc.prems(1), of e] show ?case by simp
  qed simp
  from this [OF ok] err again show ?thesis
    by (simp add: v)
qed

lemma failed_projection_is_lost_witness:
  "let w = sample_read (\<lambda>n. if n = 1 then ReadFails else ReadOk);
       e = sample_event ''e1'' EventOrderCompleted StatusCompleted
   in (\<exists>err. fst (projector_HandleEvent e w) = Inl err) \<and>
     fst (projector_HandleEvent e (project1 e w)) = Inr () \<and>
     order_views (fold project1 (e # replicate 5 e) w) = order_views w"
  unfolding Let_def
  by (rule failed_projection_is_lost) (simp_all add: sample_read_def)

end
