(* ===== verification/Breaker.thy ===== *)
theory Breaker
  imports WorkersCorrect Config
begin

text \<open>
  The circuit breakers around the gateways (\<open>internal/infrastructure/external/breaker.go\<close>).

  \<open>gobreaker.CircuitBreaker\<close> is outside the repository: its \<open>Execute\<close> is the argument
  \<open>execute\<close>, its state the field \<open>breakers\<close> of the world. The hypothesis \<open>cb_law\<close> is what
  its documentation says of \<open>Execute\<close>: it rejects with an error without running the request, or
  runs the request once and returns its result. \<open>Execute\<close> carries values of type \<open>any\<close>: the two
  types the code puts in are the constructors of \<open>cb_value\<close>, and a type assertion that fails is
  a panic, kept as the error \<open>type_panic\<close>.
\<close>

record 'b brk_env = pgenv +
  breakers :: 'b

datatype cb_value = PaymentResult bool string | BoolValue bool

type_synonym ('w) cb_execute = "('w, go_error, cb_value) io \<Rightarrow> ('w, go_error, cb_value) io"

definition cb_law :: "('b, 'a) brk_env_scheme cb_execute \<Rightarrow> bool" where
  "cb_law execute \<longleftrightarrow> (\<forall>req w.
     (\<exists>err s. execute req w = (Inl err, w\<lparr>breakers := s\<rparr>)) \<or>
     (\<exists>s s'. execute req w = (fst (req (w\<lparr>breakers := s\<rparr>)), (snd (req (w\<lparr>breakers := s\<rparr>)))\<lparr>breakers := s'\<rparr>)))"

definition type_panic :: go_error where
  "type_panic = ErrText ''panic: interface conversion''"

text \<open>\<open>Settings\<close> given to the breaker, with the predicate that opens it.\<close>

record counts =
  Requests :: "32 word"
  ConsecutiveFailures :: "32 word"

record cb_settings =
  cb_Name :: string
  cb_MaxRequests :: "32 word"
  cb_Timeout :: int
  cb_ReadyToTrip :: "counts \<Rightarrow> bool"

definition settings :: "breakerConfig \<Rightarrow> string \<Rightarrow> cb_settings" where
  "settings c name =
     \<lparr>cb_Name = name, cb_MaxRequests = 1, cb_Timeout = timeout c,
      cb_ReadyToTrip = (\<lambda>n. uint (Requests n) \<ge> maxFailures c \<and>
        uint (ConsecutiveFailures n) \<ge> maxFailures c)\<rparr>"

section \<open>The wrapped gateways\<close>

definition breaker_Process ::
  "'w cb_execute \<Rightarrow> 'w payment_gateway \<Rightarrow> string \<Rightarrow> ('w, go_error, bool \<times> string) io" where
  "breaker_Process execute inner orderID =
     tryM (execute (tryM (gw_Process inner orderID) (\<lambda>(approved, tx).
             returnM (PaymentResult approved tx)))) (\<lambda>v.
     case v of PaymentResult approved tx \<Rightarrow> returnM (approved, tx) | BoolValue b \<Rightarrow> failM type_panic)"

text \<open>The three wrappers that carry a \<open>bool\<close> run the same code on their call.\<close>

definition breaker_bool ::
  "'w cb_execute \<Rightarrow> ('w, go_error, bool) io \<Rightarrow> ('w, go_error, bool) io" where
  "breaker_bool execute call =
     tryM (execute (tryM call (\<lambda>b. returnM (BoolValue b)))) (\<lambda>v.
     case v of BoolValue b \<Rightarrow> returnM b | PaymentResult approved tx \<Rightarrow> failM type_panic)"

definition breaker_Refund ::
  "'w cb_execute \<Rightarrow> 'w payment_gateway \<Rightarrow> string \<Rightarrow> string \<Rightarrow> ('w, go_error, bool) io" where
  "breaker_Refund execute inner orderID transactionID =
     breaker_bool execute (gw_Refund inner orderID transactionID)"

definition breaker_Reserve ::
  "'w cb_execute \<Rightarrow> 'w inventory_gateway \<Rightarrow> string \<Rightarrow> ('w, go_error, bool) io" where
  "breaker_Reserve execute inner orderID = breaker_bool execute (gw_Reserve inner orderID)"

definition breaker_Notify ::
  "'w cb_execute \<Rightarrow> 'w notification_gateway \<Rightarrow> string \<Rightarrow> ('w, go_error, bool) io" where
  "breaker_Notify execute inner orderID = breaker_bool execute (gw_Notify inner orderID)"

text \<open>\<open>create\<close> stands for \<open>gobreaker.NewCircuitBreaker\<close>: the \<open>Execute\<close> of the new breaker.\<close>

definition withPaymentBreaker ::
  "(cb_settings \<Rightarrow> 'w cb_execute) \<Rightarrow> 'w payment_gateway \<Rightarrow> breakerConfig \<Rightarrow> 'w payment_gateway" where
  "withPaymentBreaker create inner c =
     (if \<not> enabled c then inner
      else let execute = create (settings c ''payment'') in
        \<lparr>gw_Process = breaker_Process execute inner, gw_Refund = breaker_Refund execute inner\<rparr>)"

definition withInventoryBreaker ::
  "(cb_settings \<Rightarrow> 'w cb_execute) \<Rightarrow> 'w inventory_gateway \<Rightarrow> breakerConfig \<Rightarrow> 'w inventory_gateway" where
  "withInventoryBreaker create inner c =
     (if \<not> enabled c then inner
      else \<lparr>gw_Reserve = breaker_Reserve (create (settings c ''inventory'')) inner\<rparr>)"

definition withNotificationBreaker ::
  "(cb_settings \<Rightarrow> 'w cb_execute) \<Rightarrow> 'w notification_gateway \<Rightarrow> breakerConfig \<Rightarrow> 'w notification_gateway" where
  "withNotificationBreaker create inner c =
     (if \<not> enabled c then inner
      else \<lparr>gw_Notify = breaker_Notify (create (settings c ''notification'')) inner\<rparr>)"

text \<open>The wrappers the main functions of the workers call, and the three gateways behind them.\<close>

definition PaymentGatewayFromEnv ::
  "(cb_settings \<Rightarrow> 'w cb_execute) \<Rightarrow> (string \<Rightarrow> int option) \<Rightarrow> environ \<Rightarrow> 'w payment_gateway \<Rightarrow> 'w payment_gateway" where
  "PaymentGatewayFromEnv create parse_duration getenv inner =
     withPaymentBreaker create inner (breakerConfigFromEnv parse_duration getenv)"

definition InventoryGatewayFromEnv ::
  "(cb_settings \<Rightarrow> 'w cb_execute) \<Rightarrow> (string \<Rightarrow> int option) \<Rightarrow> environ \<Rightarrow> 'w inventory_gateway \<Rightarrow> 'w inventory_gateway" where
  "InventoryGatewayFromEnv create parse_duration getenv inner =
     withInventoryBreaker create inner (breakerConfigFromEnv parse_duration getenv)"

definition NotificationGatewayFromEnv ::
  "(cb_settings \<Rightarrow> 'w cb_execute) \<Rightarrow> (string \<Rightarrow> int option) \<Rightarrow> environ \<Rightarrow> 'w notification_gateway \<Rightarrow> 'w notification_gateway" where
  "NotificationGatewayFromEnv create parse_duration getenv inner =
     withNotificationBreaker create inner (breakerConfigFromEnv parse_duration getenv)"

definition GatewaysFromEnv ::
  "(cb_settings \<Rightarrow> 'w cb_execute) \<Rightarrow> (string \<Rightarrow> int option) \<Rightarrow> environ \<Rightarrow> 'w gateways \<Rightarrow> 'w gateways" where
  "GatewaysFromEnv create parse_duration getenv g =
     \<lparr>payments = PaymentGatewayFromEnv create parse_duration getenv (payments g),
      inventory = InventoryGatewayFromEnv create parse_duration getenv (inventory g),
      notifications = NotificationGatewayFromEnv create parse_duration getenv (notifications g)\<rparr>"

section \<open>A breaker answers for its gateway or rejects\<close>

definition answered_or_rejected ::
  "(('b, 'a) brk_env_scheme, go_error, 'r) io \<Rightarrow> (('b, 'a) brk_env_scheme, go_error, 'r) io \<Rightarrow>
     ('b, 'a) brk_env_scheme \<Rightarrow> bool" where
  "answered_or_rejected wrapped call w \<longleftrightarrow>
     (\<exists>err s. wrapped w = (Inl err, w\<lparr>breakers := s\<rparr>)) \<or>
     (\<exists>s s'. wrapped w = (fst (call (w\<lparr>breakers := s\<rparr>)), (snd (call (w\<lparr>breakers := s\<rparr>)))\<lparr>breakers := s'\<rparr>))"

lemma breaker_bool_answers:
  assumes "cb_law execute"
  shows "answered_or_rejected (breaker_bool execute call) call w"
proof -
  let ?req = "tryM call (\<lambda>b. returnM (BoolValue b))"
  from assms consider
    (rejects) err s where "execute ?req w = (Inl err, w\<lparr>breakers := s\<rparr>)"
  | (runs) s s' where "execute ?req w =
      (fst (?req (w\<lparr>breakers := s\<rparr>)), (snd (?req (w\<lparr>breakers := s\<rparr>)))\<lparr>breakers := s'\<rparr>)"
    unfolding cb_law_def by blast
  then show ?thesis
  proof cases
    case rejects
    then show ?thesis
      by (auto simp: answered_or_rejected_def breaker_bool_def tryM_def)
  next
    case runs
    then have "breaker_bool execute call w =
        (fst (call (w\<lparr>breakers := s\<rparr>)), (snd (call (w\<lparr>breakers := s\<rparr>)))\<lparr>breakers := s'\<rparr>)"
      by (cases "call (w\<lparr>breakers := s\<rparr>)"; cases "fst (call (w\<lparr>breakers := s\<rparr>))")
        (auto simp: breaker_bool_def tryM_def)
    then show ?thesis
      by (auto simp: answered_or_rejected_def)
  qed
qed

lemma breaker_Process_answers:
  assumes "cb_law execute"
  shows "answered_or_rejected (breaker_Process execute inner oid) (gw_Process inner oid) w"
proof -
  let ?req = "tryM (gw_Process inner oid) (\<lambda>(approved, tx). returnM (PaymentResult approved tx))"
  from assms consider
    (rejects) err s where "execute ?req w = (Inl err, w\<lparr>breakers := s\<rparr>)"
  | (runs) s s' where "execute ?req w =
      (fst (?req (w\<lparr>breakers := s\<rparr>)), (snd (?req (w\<lparr>breakers := s\<rparr>)))\<lparr>breakers := s'\<rparr>)"
    unfolding cb_law_def by blast
  then show ?thesis
  proof cases
    case rejects
    then show ?thesis
      by (auto simp: answered_or_rejected_def breaker_Process_def tryM_def)
  next
    case runs
    then have "breaker_Process execute inner oid w =
        (fst (gw_Process inner oid (w\<lparr>breakers := s\<rparr>)),
         (snd (gw_Process inner oid (w\<lparr>breakers := s\<rparr>)))\<lparr>breakers := s'\<rparr>)"
      by (cases "gw_Process inner oid (w\<lparr>breakers := s\<rparr>)"; cases "fst (gw_Process inner oid (w\<lparr>breakers := s\<rparr>))")
        (auto simp: breaker_Process_def tryM_def)
    then show ?thesis
      by (auto simp: answered_or_rejected_def)
  qed
qed

text \<open>So it keeps the contract of a gateway.\<close>

definition gateway_call ::
  "(('b, 'a) brk_env_scheme, go_error, 'r) io \<Rightarrow> string \<Rightarrow> string \<Rightarrow> bool" where
  "gateway_call call stg oid \<longleftrightarrow> worker_contract pg_saga_tx pg_event_log pg_view pg_healthy call stg oid WithTx"

lemma breakers_unseen [simp]:
  "pg_view (w\<lparr>breakers := s\<rparr>) = pg_view w" "pg_healthy (w\<lparr>breakers := s\<rparr>) = pg_healthy w"
  by (simp_all add: pg_view_def pg_healthy_def)

lemma gateway_call_wrapped:
  assumes "gateway_call call stg oid" and "\<And>w. answered_or_rejected wrapped call w"
  shows "gateway_call wrapped stg oid"
  unfolding gateway_call_def
proof unfold_locales
  fix w :: "('a, 'b) brk_env_scheme"
  have contract: "wpM (attemptM call) (\<lambda>_ v. pg_view v = pg_view u \<and> env_advances u v \<and> drawn v = drawn u \<and>
       (pg_healthy u \<longrightarrow> pg_healthy v) \<and> at_most_one_call stg oid u v) (\<lambda>_ _. False) u" for u
    using assms(1) gateway_contract.call_contract worker_contract.axioms(1)
    unfolding gateway_call_def by blast
  let ?ok = "\<lambda>u v. pg_view v = pg_view u \<and> env_advances u v \<and> drawn v = drawn u \<and>
       (pg_healthy u \<longrightarrow> pg_healthy v) \<and> at_most_one_call stg oid u v"
  have ran: "?ok u (snd (call u))" for u
    using contract [of u] by (auto simp: wpM_def attemptM_def split: prod.splits)
  have "?ok w (snd (wrapped w))"
    using assms(2) [of w] unfolding answered_or_rejected_def
  proof (elim disjE exE)
    fix err s
    assume "wrapped w = (Inl err, w\<lparr>breakers := s\<rparr>)"
    then show ?thesis
      by (simp add: env_advances_def at_most_one_call_def)
  next
    fix s s'
    assume "wrapped w = (fst (call (w\<lparr>breakers := s\<rparr>)), (snd (call (w\<lparr>breakers := s\<rparr>)))\<lparr>breakers := s'\<rparr>)"
    with ran [of "w\<lparr>breakers := s\<rparr>"] show ?thesis
      by (auto simp: env_advances_def at_most_one_call_def)
  qed
  then show "wpM (attemptM wrapped) (\<lambda>_. ?ok w) (\<lambda>_ _. False) w"
    by (auto simp: wpM_def attemptM_def split: prod.splits)
qed

lemma wrapped_calls:
  assumes "cb_law execute"
  shows "gateway_call (gw_Process p oid) stg oid \<Longrightarrow> gateway_call (breaker_Process execute p oid) stg oid"
    and "gateway_call (gw_Refund p oid tid) stg oid \<Longrightarrow> gateway_call (breaker_Refund execute p oid tid) stg oid"
    and "gateway_call (gw_Reserve i oid) stg oid \<Longrightarrow> gateway_call (breaker_Reserve execute i oid) stg oid"
    and "gateway_call (gw_Notify n oid) stg oid \<Longrightarrow> gateway_call (breaker_Notify execute n oid) stg oid"
  unfolding breaker_Refund_def breaker_Reserve_def breaker_Notify_def
  by (erule gateway_call_wrapped, rule breaker_Process_answers [OF assms] breaker_bool_answers [OF assms])+

lemma gateways_ok_calls:
  "gateways_ok g \<longleftrightarrow> (\<forall>oid tid. gateway_call (gw_Process (payments g) oid) ''payment'' oid \<and>
     gateway_call (gw_Refund (payments g) oid tid) ''refund'' oid \<and>
     gateway_call (gw_Reserve (inventory g) oid) ''inventory'' oid \<and>
     gateway_call (gw_Notify (notifications g) oid) ''notification'' oid)"
  by (simp add: gateways_ok_def gateway_call_def)

section \<open>Properties\<close>

text \<open>
  C19: a wrapped gateway either answers what the gateway answers, or reports an error without
  having called it: no approval, refund, reservation or delivery is made up, no answer is changed,
  and the type assertions on the breaker's values never fail.
\<close>

theorem breaker_is_transparent:
  assumes "cb_law execute"
  shows "answered_or_rejected (breaker_Process execute p oid) (gw_Process p oid) w \<and>
    answered_or_rejected (breaker_Refund execute p oid tid) (gw_Refund p oid tid) w \<and>
    answered_or_rejected (breaker_Reserve execute i oid) (gw_Reserve i oid) w \<and>
    answered_or_rejected (breaker_Notify execute n oid) (gw_Notify n oid) w"
  using breaker_Process_answers [OF assms] breaker_bool_answers [OF assms]
  by (simp add: breaker_Refund_def breaker_Reserve_def breaker_Notify_def)

text \<open>
  C18: gateways that keep their contract still keep it behind the breakers of the environment, so
  what is proved of the workers and of the whole system holds for the gateways the services use.
\<close>

theorem breakers_keep_the_contract:
  assumes "gateways_ok g" and "\<And>st. cb_law (create st)"
  shows "gateways_ok (GatewaysFromEnv create pd getenv g)"
  using assms(1) wrapped_calls [OF assms(2)]
  by (simp add: gateways_ok_calls GatewaysFromEnv_def PaymentGatewayFromEnv_def
      InventoryGatewayFromEnv_def NotificationGatewayFromEnv_def withPaymentBreaker_def withInventoryBreaker_def
      withNotificationBreaker_def Let_def)


text \<open>A breaker that opens after five failures in a row and stays open.\<close>

definition sample_breaker :: "cb_settings \<Rightarrow> (nat, 'a) brk_env_scheme cb_execute" where
  "sample_breaker st req w =
     (if 5 \<le> breakers w then (Inl (ErrText ''circuit breaker is open''), w)
      else case req w of
          (Inl err, v) \<Rightarrow> (Inl err, v\<lparr>breakers := Suc (breakers w)\<rparr>)
        | (Inr x, v) \<Rightarrow> (Inr x, v\<lparr>breakers := 0\<rparr>))"

lemma sample_breaker_law: "cb_law (sample_breaker st :: (nat, 'a) brk_env_scheme cb_execute)"
  unfolding cb_law_def
proof (intro allI)
  fix req :: "((nat, 'a) brk_env_scheme, go_error, cb_value) io"
    and w :: "(nat, 'a) brk_env_scheme"
  have same: "w\<lparr>breakers := breakers w\<rparr> = w"
    by simp
  show "(\<exists>err s. sample_breaker st req w = (Inl err, w\<lparr>breakers := s\<rparr>)) \<or>
     (\<exists>s s'. sample_breaker st req w =
        (fst (req (w\<lparr>breakers := s\<rparr>)), (snd (req (w\<lparr>breakers := s\<rparr>)))\<lparr>breakers := s'\<rparr>))"
  proof (cases "5 \<le> breakers w")
    case True
    then have "sample_breaker st req w = (Inl (ErrText ''circuit breaker is open''), w\<lparr>breakers := breakers w\<rparr>)"
      by (simp add: sample_breaker_def)
    then show ?thesis by blast
  next
    case False
    obtain r v where run: "req w = (r, v)"
      by (cases "req w")
    define s' where "s' = (case r of Inl _ \<Rightarrow> Suc (breakers w) | Inr _ \<Rightarrow> 0)"
    have "sample_breaker st req w = (fst (req w), (snd (req w))\<lparr>breakers := s'\<rparr>)"
      using False by (cases r) (simp_all add: sample_breaker_def run s'_def)
    then have "sample_breaker st req w = (fst (req (w\<lparr>breakers := breakers w\<rparr>)),
        (snd (req (w\<lparr>breakers := breakers w\<rparr>)))\<lparr>breakers := s'\<rparr>)"
      by (simp add: same)
    then show ?thesis by blast
  qed
qed

definition brk_world :: "(nat, unit) brk_env_scheme" where
  "brk_world = pgenv.extend (empty_world (\<lambda>_. NoFault)) (brk_env.fields 0)"

lemma breaker_is_transparent_witness:
  "answered_or_rejected (breaker_Process (sample_breaker (settings \<lparr>enabled = True, maxFailures = 5, timeout = 1\<rparr> ''payment''))
      (PaymentSimulator (\<lambda>_. 0) 1) ''o'') (gw_Process (PaymentSimulator (\<lambda>_. 0) 1) ''o'') brk_world"
  using breaker_is_transparent [OF sample_breaker_law, where p = "PaymentSimulator (\<lambda>_. 0) 1" and oid = "''o''"]
  by blast

lemma breakers_keep_the_contract_witness:
  "gateways_ok (GatewaysFromEnv sample_breaker (\<lambda>_. None) (\<lambda>_. []) (simulators (\<lambda>_. 0)) :: (nat, unit) brk_env_scheme gateways)"
  by (rule breakers_keep_the_contract [OF simulators_ok sample_breaker_law])


end
