(* ===== verification/Services.thy ===== *)
theory Services
  imports System ConsumerCorrect Relay
begin

text \<open>
  The services as their main functions put them together (\<open>cmd/*/main.go\<close>): what each consumes
  and with which handler, the logging decorator around the handlers, and the creation of an order
  from the command line. Theory System delivers messages to handlers in any order; here the
  consuming goroutines of the services are shown to be such deliveries.
\<close>

section \<open>The services\<close>

text \<open>\<open>WithLogging\<close> of \<open>internal/interfaces/logging.go\<close>, less the lines it logs.\<close>

definition WithLogging :: "string \<Rightarrow> 'w event_handler \<Rightarrow> 'w event_handler" where
  "WithLogging name next event =
     tryM (attemptM (next event)) (\<lambda>res. case res of Inl err \<Rightarrow> failM err | Inr _ \<Rightarrow> returnM ())"

text \<open>\<open>handleTerminalEvent\<close> of the order-status service only logs.\<close>

definition handleTerminalEvent :: "'w event_handler" where
  "handleTerminalEvent event = returnM ()"

record 'w service =
  svc_config :: ConsumerConfig
  svc_handler :: "'w event_handler"

text \<open>
  The configuration of each consumer. The zero values of the commit batch and
  interval make \<open>NewConsumer\<close> read them from the environment.
\<close>

definition orchestrator_config :: "environ \<Rightarrow> ConsumerConfig" where
  "orchestrator_config getenv =
     \<lparr>Brokers = BrokersFromEnv getenv, GroupID = ''orchestrator'', ServiceName = ''orchestrator'',
      Workers = WorkersFromEnv getenv, CommitBatch = 0, CommitInterval = 0, Topic = [],
      Topics = orchestrator_topics, DLQWriter = True\<rparr>"

definition worker_payment_config :: "environ \<Rightarrow> ConsumerConfig" where
  "worker_payment_config getenv =
     \<lparr>Brokers = BrokersFromEnv getenv, GroupID = ''worker-payment'', ServiceName = ''worker-payment'',
      Workers = WorkersFromEnv getenv, CommitBatch = 0, CommitInterval = 0,
      Topic = TopicPaymentCommand, Topics = [], DLQWriter = True\<rparr>"

definition worker_inventory_config :: "environ \<Rightarrow> ConsumerConfig" where
  "worker_inventory_config getenv =
     \<lparr>Brokers = BrokersFromEnv getenv, GroupID = ''worker-inventory'', ServiceName = ''worker-inventory'',
      Workers = WorkersFromEnv getenv, CommitBatch = 0, CommitInterval = 0,
      Topic = TopicInventoryCommand, Topics = [], DLQWriter = True\<rparr>"

definition worker_notification_config :: "environ \<Rightarrow> ConsumerConfig" where
  "worker_notification_config getenv =
     \<lparr>Brokers = BrokersFromEnv getenv, GroupID = ''worker-notification'', ServiceName = ''worker-notification'',
      Workers = WorkersFromEnv getenv, CommitBatch = 0, CommitInterval = 0,
      Topic = TopicNotificationCommand, Topics = [], DLQWriter = True\<rparr>"

text \<open>The consumer without a dead-letter writer.\<close>

definition order_status_config :: "environ \<Rightarrow> ConsumerConfig" where
  "order_status_config getenv =
     \<lparr>Brokers = BrokersFromEnv getenv, GroupID = ''order-status'', ServiceName = [],
      Workers = WorkersFromEnv getenv, CommitBatch = 0, CommitInterval = 0,
      Topic = TopicOrderStatus, Topics = [], DLQWriter = False\<rparr>"

text \<open>
  The handler each service hands to \<open>Consume\<close>. The gateways \<open>g\<close> are those of the environment:
  \<open>GatewaysFromEnv\<close> of theory Breaker over the simulators of theory Gateways.
\<close>

definition orchestrator_main :: "environ \<Rightarrow> 'a pgenv_scheme service" where
  "orchestrator_main getenv =
     \<lparr>svc_config = orchestrator_config getenv,
      svc_handler = WithLogging ''orchestrator'' (HandleEvent (New_orchestrator WithTx 3))\<rparr>"

definition worker_payment_main :: "environ \<Rightarrow> 'a pgenv_scheme gateways \<Rightarrow> 'a pgenv_scheme service" where
  "worker_payment_main getenv g =
     \<lparr>svc_config = worker_payment_config getenv,
      svc_handler = WithLogging ''worker-payment''
        (payment_Handle \<lparr>pay_gateway = payments g, pay_uow = WithTx\<rparr>)\<rparr>"

definition worker_inventory_main :: "environ \<Rightarrow> 'a pgenv_scheme gateways \<Rightarrow> 'a pgenv_scheme service" where
  "worker_inventory_main getenv g =
     \<lparr>svc_config = worker_inventory_config getenv,
      svc_handler = WithLogging ''worker-inventory''
        (inventory_Handle \<lparr>inv_gateway = inventory g, inv_uow = WithTx\<rparr>)\<rparr>"

definition worker_notification_main :: "environ \<Rightarrow> 'a pgenv_scheme gateways \<Rightarrow> 'a pgenv_scheme service" where
  "worker_notification_main getenv g =
     \<lparr>svc_config = worker_notification_config getenv,
      svc_handler = WithLogging ''worker-notification''
        (notification_Handle \<lparr>ntf_gateway = notifications g, ntf_uow = WithTx\<rparr>)\<rparr>"

definition order_status_main :: "environ \<Rightarrow> 'w service" where
  "order_status_main getenv =
     \<lparr>svc_config = order_status_config getenv,
      svc_handler = WithLogging ''order-status'' handleTerminalEvent\<rparr>"

lemmas main_defs = orchestrator_main_def worker_payment_main_def worker_inventory_main_def
  worker_notification_main_def order_status_main_def orchestrator_config_def
  worker_payment_config_def worker_inventory_config_def worker_notification_config_def
  order_status_config_def

definition service_topics :: "'w service \<Rightarrow> string list" where
  "service_topics s = (if Topics (svc_config s) = [] then [Topic (svc_config s)] else Topics (svc_config s))"

definition services :: "environ \<Rightarrow> 'a pgenv_scheme gateways \<Rightarrow> 'a pgenv_scheme service list" where
  "services getenv g = [orchestrator_main getenv, worker_payment_main getenv g,
     worker_inventory_main getenv g, worker_notification_main getenv g, order_status_main getenv]"

text \<open>
  \<open>cmd/create-order\<close>: the exit code and the world left behind. \<open>telemetry\<close> is the error of
  \<open>telemetry.Init\<close>, if any; spans and logs are left out.
\<close>

definition create_order_main ::
  "(string \<Rightarrow> (string \<times> string) list) \<Rightarrow> string list \<Rightarrow> go_error option \<Rightarrow> 'a bus_env_scheme \<Rightarrow>
     int \<times> 'a bus_env_scheme" where
  "create_order_main inject args telemetry w =
     (if length args < 2 then (1, w)
      else
      let orderID = args ! 1 in
      case telemetry of
        Some err \<Rightarrow> (1, w)
      | None \<Rightarrow>
          (case CreateOrder (Producer_Publish inject ''create-order'') orderID w of
             (Inl err, v) \<Rightarrow> (1, v)
           | (Inr _, v) \<Rightarrow> (0, v)))"

section \<open>Every message is well typed\<close>

definition well_typed :: "event \<Rightarrow> bool" where
  "well_typed e \<longleftrightarrow> wf_event e \<and> SchemaVersion e = CurrentSchemaVersion \<and>
     TopicForEventType (EventType e) \<noteq> None"

lemma reaction_event_typed:
  assumes "react maxR s e = Some r"
  shows "SchemaVersion (reaction_event eid now s r) = CurrentSchemaVersion \<and>
    TopicForEventType (EventType (reaction_event eid now s r)) \<noteq> None"
  using react_live [OF assms]
  by (cases r) (use assms in \<open>auto simp: outgoing_def topic_defs live_status_def
      elim!: react_Some_cases\<close>)

lemma sys_run_typed: "sys_run maxR S \<Longrightarrow> e \<in> set (created S @ outs S) \<Longrightarrow> well_typed e"
proof -
  assume run: "sys_run maxR S" and e: "e \<in> set (created S @ outs S)"
  have "SchemaVersion e = CurrentSchemaVersion \<and> TopicForEventType (EventType e) \<noteq> None"
    using run e
  proof (induction rule: sys_run.induct)
    case sys_init
    then show ?case by (simp add: init_system_def)
  next
    case (sys_create S eid now oid)
    then show ?case
      by (auto simp: created_event_def outgoing_def topic_defs)
  next
    case (sys_orch S eid e' now d)
    have "SchemaVersion (reply maxR eid now e' (store S)) = CurrentSchemaVersion \<and>
        TopicForEventType (EventType (reply maxR eid now e' (store S))) \<noteq> None"
      using reaction_event_typed
      by (auto simp: reply_def start_command_def outgoing_def topic_defs split: option.split)
    with sys_orch show ?case by auto
  next
    case (sys_work S out cmd req resp)
    have "SchemaVersion out = CurrentSchemaVersion \<and> TopicForEventType (EventType out) \<noteq> None"
      using sys_work.hyps by (auto simp: answers_def valid_command_def CurrentSchemaVersion_def topic_defs)
    with sys_work show ?case by auto
  next
    case (sys_idle S ids)
    then show ?case by simp
  qed
  moreover have "wf_event e"
    using sys_run_inv [OF run] e by (auto simp: sys_inv_def)
  ultimately show "well_typed e"
    by (simp add: well_typed_def)
qed

lemma cluster_message:
  assumes "simulates maxR w0 w bus S" and "m \<in> set (bus @ a_out (pg_view w))"
  obtains e where "m = message_of e" "well_typed e" "TopicForEventType (EventType e) = Some (msg_Topic m)"
    "e \<in> set (created S @ outs S)"
proof -
  obtain e where e: "m = message_of e" "e \<in> set (created S @ outs S)"
    by (rule sent_event [OF assms]) blast
  then have "well_typed e"
    using assms(1) by (auto simp: simulates_def intro: sys_run_typed)
  with e show thesis
    by (intro that [of e]) (auto simp: well_typed_def message_of_def)
qed

lemma typed_topics: "TopicForEventType t = Some topic \<Longrightarrow> topic \<in> set FlowTopics"
  by (cases t) (auto simp: topic_defs FlowTopics_def)

section \<open>A service's consumer delivers messages of the system\<close>

definition copy_of :: "kafka_message \<Rightarrow> message \<Rightarrow> bool" where
  "copy_of km m \<longleftrightarrow> km_Topic km = msg_Topic m \<and> km_Key km = msg_Key m \<and>
     km_Value km = JsonText (msg_Payload m)"

lemma WithLogging_eq [simp]: "WithLogging name h = h"
proof (intro ext)
  fix e w
  show "WithLogging name h e w = h e w"
    by (cases "h e w"; cases "fst (h e w)")
      (auto simp: WithLogging_def tryM_def attemptM_def)
qed

lemma service_delivers:
  assumes s: "s \<in> set (services getenv g)" and m: "m = message_of e" "well_typed e"
    "TopicForEventType (EventType e) = Some (msg_Topic m)"
    and km: "copy_of km m" "km_Topic km \<in> set (service_topics s)"
  shows "deliver_fetched (svc_handler s) km w = snd (deliver_message 3 g m w)"
proof -
  have "decode (km_Value km) = Inr e"
    using m km(1) by (simp add: copy_of_def decode_def message_decoded well_typed_def)
  then have run: "deliver_fetched (svc_handler s) km w = snd (svc_handler s e w)"
    using m(2) by (simp add: deliver_fetched_def well_typed_def)
  have topic: "msg_Topic m \<in> set (service_topics s)"
    using km by (simp add: copy_of_def)
  have handler: "worker_Handle g e =
      (if msg_Topic m = TopicPaymentCommand then payment_Handle \<lparr>pay_gateway = payments g, pay_uow = WithTx\<rparr> e
       else if msg_Topic m = TopicInventoryCommand then inventory_Handle \<lparr>inv_gateway = inventory g, inv_uow = WithTx\<rparr> e
       else if msg_Topic m = TopicNotificationCommand
       then notification_Handle \<lparr>ntf_gateway = notifications g, ntf_uow = WithTx\<rparr> e
       else returnM ())"
    using m(3) by (simp add: worker_Handle_def worker_payment_topics_def worker_inventory_topics_def
        worker_notification_topics_def)
  have dm: "deliver_message 3 g m = (if msg_Topic m \<in> set orchestrator_topics
      then HandleEvent (New_orchestrator WithTx 3) e
      else if msg_Topic m \<in> {TopicPaymentCommand, TopicInventoryCommand, TopicNotificationCommand}
      then worker_Handle g e else returnM ())"
    using deliver_message_of [of e 3 g] m(1,2)
    by (simp add: well_typed_def worker_payment_topics_def worker_inventory_topics_def
        worker_notification_topics_def)
  from s consider "s = orchestrator_main getenv" | "s = worker_payment_main getenv g"
    | "s = worker_inventory_main getenv g" | "s = worker_notification_main getenv g"
    | "s = order_status_main getenv"
    by (auto simp: services_def)
  then show ?thesis
    unfolding run by cases
      (use topic in \<open>auto simp: dm handler service_topics_def main_defs
         orchestrator_topics_def topic_defs handleTerminalEvent_def\<close>)
qed

text \<open>Messages are never removed from the outbox by a delivery.\<close>

lemma orch_spec_keeps_out: "orch_spec maxR eid now e d = Accept d' \<Longrightarrow> set (a_out d) \<subseteq> set (a_out d')"
  by (auto simp: orch_spec_def apply_start_def apply_reaction_def emit_def abs_publish_def Let_def
      split: if_splits option.splits)

lemma worker_effect_keeps_out: "set (a_out d) \<subseteq> set (a_out (worker_effect who e req resp out d))"
  by (auto simp: worker_effect_def abs_publish_def)

lemma deliver_keeps_out:
  assumes "gateways_ok g" and "well_typed e"
  shows "set (a_out (pg_view w)) \<subseteq> set (a_out (pg_view (snd (deliver_message maxR g (message_of e) w))))"
proof -
  have orch: "set (a_out (pg_view w)) \<subseteq> set (a_out (pg_view (snd (HandleEvent (New_orchestrator WithTx maxR) e w))))"
    using handle_effect [of w maxR e] orch_spec_keeps_out by fastforce
  have work: "set (a_out (pg_view w)) \<subseteq> set (a_out (pg_view (snd (worker_Handle g e w))))"
  proof (cases "valid_command e")
    case True
    from worker_view_effect [OF assms(1) True, of w] show ?thesis
      using worker_effect_keeps_out by (fastforce simp: command_done_def)
  next
    case False
    then show ?thesis
      using worker_Handle_invalid [OF False, of g] by auto
  qed
  show ?thesis
    using orch work assms(2) by (auto simp: deliver_message_of well_typed_def)
qed

lemma worker_handlers:
  "payment_Handle \<lparr>pay_gateway = payments g, pay_uow = WithTx\<rparr> e =
     (if EventType e \<in> {EventPaymentCommand, EventPaymentCompensate} then worker_Handle g e else returnM ())"
  "inventory_Handle \<lparr>inv_gateway = inventory g, inv_uow = WithTx\<rparr> e =
     (if EventType e = EventInventoryCommand then worker_Handle g e else returnM ())"
  "notification_Handle \<lparr>ntf_gateway = notifications g, ntf_uow = WithTx\<rparr> e =
     (if EventType e = EventNotificationCommand then worker_Handle g e else returnM ())"
  by (cases "EventType e"; simp add: payment_Handle_def inventory_Handle_def notification_Handle_def
      worker_Handle_def worker_payment_topics_def worker_inventory_topics_def
      worker_notification_topics_def topic_defs)+

lemma service_advances:
  assumes "gateways_ok g" and "s \<in> set (services getenv g)"
  shows "env_advances w (deliver_fetched (svc_handler s) km w)"
proof -
  have "env_advances w (snd (svc_handler s e w))" for e
    using assms(2) worker_Handle_advances [OF assms(1), of w e] handle_effect [of w 3 e]
    by (auto simp: services_def main_defs handleTerminalEvent_def worker_handlers)
  then show ?thesis
    by (auto simp: deliver_fetched_def split: sum.split)
qed

lemma services_advance:
  assumes "gateways_ok g" and "s \<in> set (services getenv g)"
  shows "env_advances w (fold (deliver_fetched (svc_handler s)) kms w)"
proof (induction kms arbitrary: w)
  case Nil
  then show ?case by simp
next
  case (Cons km kms)
  show ?case
    using env_advances_trans [OF service_advances [OF assms] Cons.IH] by simp
qed

text \<open>A message that service \<open>s\<close> may fetch: a copy of one that has been sent, on a topic of its own.\<close>

definition fetchable :: "'a pgenv_scheme service \<Rightarrow> message list \<Rightarrow> kafka_message \<Rightarrow> bool" where
  "fetchable s ms km \<longleftrightarrow> km_Topic km \<in> set (service_topics s) \<and> (\<exists>m \<in> set ms. copy_of km m)"

lemma fold_cluster_run:
  assumes ok: "gateways_ok g" and s: "s \<in> set (services getenv g)" and empty: "pg_view w0 = empty_db"
  shows "cluster_run 3 g w0 w msgs \<Longrightarrow> distinct_ids w0 (fold (deliver_fetched (svc_handler s)) kms w) \<Longrightarrow>
    (\<And>km. km \<in> set kms \<Longrightarrow> fetchable s (msgs @ a_out (pg_view w)) km) \<Longrightarrow>
    cluster_run 3 g w0 (fold (deliver_fetched (svc_handler s)) kms w) msgs"
proof (induction kms arbitrary: w)
  case Nil
  then show ?case by simp
next
  case (Cons km kms)
  have "drawn w \<le> drawn (fold (deliver_fetched (svc_handler s)) (km # kms) w)"
    using services_advance [OF ok s, of w "km # kms"] unfolding env_advances_def by blast
  then have ids: "distinct_ids w0 w"
    by (rule distinct_ids_mono [OF Cons.prems(2)])
  obtain S where S: "simulates 3 w0 w msgs S"
    using cluster_simulated [OF Cons.prems(1) ok empty ids] by blast
  obtain m where m: "m \<in> set (msgs @ a_out (pg_view w))" "copy_of km m" "km_Topic km \<in> set (service_topics s)"
    using Cons.prems(3) [of km] by (auto simp: fetchable_def)
  obtain e where e: "m = message_of e" "well_typed e" "TopicForEventType (EventType e) = Some (msg_Topic m)"
    by (rule cluster_message [OF S m(1)]) blast
  have step: "deliver_fetched (svc_handler s) km w = snd (deliver_message 3 g m w)"
    by (rule service_delivers [OF s e m(2,3)])
  have "fetchable s (msgs @ a_out (pg_view (snd (deliver_message 3 g m w)))) km'" if "km' \<in> set kms" for km'
    using Cons.prems(3) [of km'] that deliver_keeps_out [OF ok e(2), of w 3] e(1)
    by (auto simp: fetchable_def)
  with Cons.IH [OF cluster_deliver [OF Cons.prems(1) m(1)]] Cons.prems(2) show ?case
    by (simp add: step)
qed

section \<open>Properties\<close>

text \<open>
  C24: in every run of the system each message on the bus is well typed: its payload decodes to an
  event of the current schema, of a type with a topic, the message is on that topic, which is one
  of the topics of the flow, and its key is the order of the event.
\<close>

theorem messages_are_well_typed:
  assumes "cluster_run maxR g w0 w msgs" and "gateways_ok g" and "pg_view w0 = empty_db"
    and "distinct_ids w0 w" and "m \<in> set (msgs @ a_out (pg_view w))"
  shows "\<exists>e. unmarshal_event (msg_Payload m) = Inr e \<and> validateSchemaVersion e = None \<and>
    TopicForEventType (EventType e) = Some (msg_Topic m) \<and> msg_Topic m \<in> set FlowTopics \<and>
    msg_Key m = OrderID e"
proof -
  obtain S where S: "simulates maxR w0 w msgs S"
    using cluster_simulated [OF assms(1-4)] by blast
  obtain e where e: "m = message_of e" "well_typed e" "TopicForEventType (EventType e) = Some (msg_Topic m)"
    by (rule cluster_message [OF S assms(5)]) blast
  have "unmarshal_event (msg_Payload m) = Inr e"
    using e(2) unfolding e(1) by (intro message_decoded) (simp add: well_typed_def)
  moreover have "validateSchemaVersion e = None"
    using e(2) by (simp add: well_typed_def validateSchemaVersion_def)
  moreover have "msg_Key m = OrderID e"
    unfolding e(1) by (simp add: message_of_def)
  ultimately show ?thesis
    using e(3) typed_topics [OF e(3)] by blast
qed

text \<open>
  C23: the consumers of the services run the system: let a consuming goroutine of any of the five
  services work for any number of iterations, with any answers of the broker, fetching only copies
  of messages that have been sent, in any order and any number of times, on the topics its main
  function configures. Its world then is the world of a run of the system, so that all that is
  proved of those runs holds for it.
\<close>

theorem consumers_run_the_system:
  fixes k :: "'a pgenv_scheme kafka_env"
  assumes "cluster_run 3 g w0 (svc k) msgs" and "gateways_ok g" and "pg_view w0 = empty_db"
    and "s \<in> set (services getenv g)"
    and "v = snd (consumeWorker (NewConsumer pd getenv (svc_config s)) (svc_handler s) n k)"
    and "distinct_ids w0 (svc v)"
    and "\<And>km. km \<in> set (fetched_in (drop (length (trace k)) (trace v))) \<Longrightarrow>
      fetchable s (msgs @ a_out (pg_view (svc k))) km"
  shows "cluster_run 3 g w0 (svc v) msgs"
proof -
  obtain tr where tr: "trace v = trace k @ tr"
    "svc v = fold (deliver_fetched (svc_handler s)) (fetched_in tr) (svc k)"
    using consumer_replay [of "NewConsumer pd getenv (svc_config s)" "svc_handler s" n k] assms(5) by auto
  show ?thesis
    using fold_cluster_run [OF assms(2,4,3,1), of "fetched_in tr"] assms(6,7) tr by simp
qed


lemma create_order_run:
  fixes w :: "'a bus_env_scheme"
  assumes "writer_honest w"
    and "m = message_of (created_event (event_id_at (entropy w) (drawn w)) (clock w (ticks w)) oid)"
    and "create_order_main inject (prog # oid # rest) telemetry w = (code, v)"
  shows "code = (if telemetry = None \<and> write_err w (writes w) = None then 0 else 1)"
    and "code = 0 \<Longrightarrow> drawn v = Suc (drawn w) \<and> ticks v = Suc (ticks w) \<and>
      topic_log v = topic_log w @ [\<lparr>ko_Topic = msg_Topic m, ko_Key = msg_Key m,
        ko_Value = msg_Payload m, ko_Headers = inject (traceparent w)\<rparr>] \<and>
      metrics v = RecordPublished ''create-order'' TopicOrderCreated (metrics w)"
    and "telemetry \<noteq> None \<Longrightarrow> v = w"
proof -
  let ?u = "w\<lparr>drawn := Suc (drawn w), ticks := Suc (ticks w)\<rparr>"
  let ?km = "\<lparr>ko_Topic = msg_Topic m, ko_Key = msg_Key m, ko_Value = msg_Payload m,
     ko_Headers = inject (traceparent w)\<rparr>"
  have run: "CreateOrder (Producer_Publish inject name) oid w =
      tryM (writer_WriteMessages [?km]) (\<lambda>_. record_metric (RecordPublished name TopicOrderCreated)) ?u" for name
    unfolding CreateOrder_run
    by (simp add: Producer_Publish_def assms(2) message_of_def created_event_def outgoing_def topic_defs tryM_def)
  have "accepted w (writes w) i" if "write_err w (writes w) = None" for i
    using assms(1) that by (simp add: writer_honest_def)
  then show "code = (if telemetry = None \<and> write_err w (writes w) = None then 0 else 1)"
    and "code = 0 \<Longrightarrow> drawn v = Suc (drawn w) \<and> ticks v = Suc (ticks w) \<and>
      topic_log v = topic_log w @ [?km] \<and>
      metrics v = RecordPublished ''create-order'' TopicOrderCreated (metrics w)"
    and "telemetry \<noteq> None \<Longrightarrow> v = w"
    using assms(3) by (auto simp: create_order_main_def run writer_WriteMessages_def Let_def tryM_def
        record_metric_def NewProducer_def split: option.splits if_splits)
qed

text \<open>
  C25: \<open>create-order\<close> with an order exits with 0 exactly when its telemetry starts and its write is
  confirmed. Then the bus holds in addition exactly the message of the step \<open>cluster_create\<close>, and
  one publication is counted. Without telemetry nothing happens.
\<close>

theorem create_order_sends_the_order:
  fixes w :: "'a bus_env_scheme"
  assumes "writer_honest w"
    and "m = message_of (created_event (event_id_at (entropy w) (drawn w)) (clock w (ticks w)) oid)"
    and "create_order_main inject (prog # oid # rest) telemetry w = (code, v)"
  shows "code = (if telemetry = None \<and> write_err w (writes w) = None then 0 else 1) \<and>
    (telemetry \<noteq> None \<longrightarrow> v = w) \<and>
    (code = 0 \<longrightarrow> drawn v = Suc (drawn w) \<and> ticks v = Suc (ticks w) \<and>
      topic_log v = topic_log w @ [\<lparr>ko_Topic = msg_Topic m, ko_Key = msg_Key m,
        ko_Value = msg_Payload m, ko_Headers = inject (traceparent w)\<rparr>] \<and>
      metrics v = RecordPublished ''create-order'' TopicOrderCreated (metrics w))"
  using create_order_run [OF assms] by blast

section \<open>Witnesses\<close>

lemma messages_are_well_typed_witness:
  "let m = created_message in
     \<exists>e. unmarshal_event (msg_Payload m) = Inr e \<and> validateSchemaVersion e = None \<and>
       TopicForEventType (EventType e) = Some (msg_Topic m) \<and> msg_Topic m \<in> set FlowTopics \<and>
       msg_Key m = OrderID e"
  unfolding Let_def
  by (rule messages_are_well_typed [OF started_run simulators_ok [of "\<lambda>_. 0"]])
    (simp_all add: distinct_ids_empty_world started_state)

lemma create_order_sends_the_order_witness:
  "\<exists>v (m :: message). create_order_main (\<lambda>_. []) [''create-order'', ''o''] None (relay_world []) = (0, v) \<and>
     topic_log v = [\<lparr>ko_Topic = msg_Topic m, ko_Key = msg_Key m, ko_Value = msg_Payload m, ko_Headers = []\<rparr>]"
proof -
  have facts: "writer_honest (relay_world [])" "write_err (relay_world []) = (\<lambda>_. None)"
    "topic_log (relay_world []) = []"
    by (simp_all add: relay_world_def writer_honest_def)
  obtain code v where run: "create_order_main (\<lambda>_. []) [''create-order'', ''o''] None (relay_world []) = (code, v)"
    by (cases "create_order_main (\<lambda>_. []) [''create-order'', ''o''] None (relay_world [])")
  note sent = create_order_sends_the_order [OF facts(1) refl run]
  then have "code = 0"
    using facts(2) by simp
  with sent run facts(3) show ?thesis
    by auto
qed

text \<open>The orchestrator's consumer, with one message to fetch and then a broker that is gone.\<close>

definition created_copy :: kafka_message where
  "created_copy = \<lparr>km_Topic = msg_Topic created_message, km_Partition = 0, km_Offset = 0,
     km_Key = msg_Key created_message, km_Value = JsonText (msg_Payload created_message)\<rparr>"

definition consumer_world :: "pgenv kafka_env" where
  "consumer_world = \<lparr>entropy = \<lambda>_ _. 0, drawn = 0, clock = \<lambda>_. 0, ticks = 0, attempts = \<lambda>_ _. 0, metrics = new_registry,
     svc = one_order, readers = 0,
     fetch_plan = \<lambda>n. if n = 1 then Fetched created_copy else FetchError (ErrText ''EOF''),
     error_plan = \<lambda>_. None, trace = []\<rparr>"

lemma one_fetch:
  fixes w :: "'w kafka_env"
  assumes "fetch_plan w (Suc (length (trace w))) = Fetched km"
  shows "\<exists>tr. trace (snd (consumeWorker c h 1 w)) = trace w @ tr \<and> fetched_in tr = [km]"
proof -
  have leaf: "\<exists>tr. trace v = trace w @ tr \<and> fetched_in tr = [km]"
    if "trace v = trace w @ cs" "fetched_in cs = [km]" for v :: "'w kafka_env" and cs
    using that by blast
  have "wpM (tryM (start_worker c) (consumer_loop c h 1))
     (\<lambda>_ v. \<exists>tr. trace v = trace w @ tr \<and> fetched_in tr = [km])
     (\<lambda>_ v. \<exists>tr. trace v = trace w @ tr \<and> fetched_in tr = [km]) w"
  proof (cases "decode (km_Value km)")
    case (Inl derr)
    with assms show ?thesis
      by (auto simp: start_worker_def consumer_step_def moveToDLQ_def wp_simps Let_def
          intro: leaf split: option.split)
  next
    case (Inr e)
    with assms show ?thesis
      by (auto simp: start_worker_def consumer_step_def moveToDLQ_def flush_def validateSchemaVersion_def
          wp_simps Let_def intro: leaf split: option.split sum.split)
  qed
  then show ?thesis
    by (auto simp: consumeWorker_def deferred_def wpM_def fetched_in_append split: prod.splits sum.splits)
qed

lemma created_event_type: "EventType (created_event eid now oid) = EventOrderCreated"
  by (simp add: created_event_def outgoing_def)

lemma one_order_run:
  "cluster_run 3 (simulators (\<lambda>_. 0)) (empty_world (\<lambda>_. NoFault)) one_order [created_message]"
  using cluster_create [OF cluster_start, of 3 "simulators (\<lambda>_. 0)" "empty_world (\<lambda>_. NoFault)" "''o''"]
  by (simp add: one_order_def created_message_def empty_world_def)

lemma consumers_run_the_system_witness:
  "let s = orchestrator_main (\<lambda>_. []);
       v = snd (consumeWorker (NewConsumer (\<lambda>_. None) (\<lambda>_. []) (svc_config s)) (svc_handler s) 1 consumer_world)
   in cluster_run 3 (simulators (\<lambda>_. 0)) (empty_world (\<lambda>_. NoFault)) (svc v) [created_message]"
proof -
  let ?s = "orchestrator_main (\<lambda>_. []) :: pgenv service"
  let ?c = "NewConsumer (\<lambda>_. None) (\<lambda>_. []) (svc_config ?s)"
  let ?v = "snd (consumeWorker ?c (svc_handler ?s) 1 consumer_world)"
  have "fetch_plan consumer_world (Suc (length (trace consumer_world))) = Fetched created_copy"
    by (simp add: consumer_world_def)
  from one_fetch [OF this] obtain tr where tr: "trace ?v = trace consumer_world @ tr" "fetched_in tr = [created_copy]"
    by blast
  have s: "?s \<in> set (services (\<lambda>_. []) (simulators (\<lambda>_. 0)))"
    by (simp add: services_def)
  have typed: "well_typed (created_event eid now oid)" for eid now oid
    using wf_created_event [of eid now oid]
    by (simp add: well_typed_def created_event_def outgoing_def topic_defs)
  have first_delivery: "deliver_fetched (svc_handler ?s) created_copy one_order = started (\<lambda>_. 0)"
    unfolding started_def
    by (rule service_delivers [OF s, of _ "created_event (event_id_at (entropy (empty_world (\<lambda>_. NoFault))) 0) 0 ''o''"])
      (simp_all add: typed created_message_def created_copy_def copy_of_def message_of_def
        created_event_type topic_defs service_topics_def main_defs
        orchestrator_topics_def)
  have svc: "svc ?v = deliver_fetched (svc_handler ?s) created_copy one_order"
    using consumer_replay [of ?c "svc_handler ?s" 1 consumer_world] tr by (auto simp: consumer_world_def)
  show ?thesis
    unfolding Let_def
  proof (rule consumers_run_the_system [OF _ simulators_ok _ s refl])
    show "cluster_run 3 (simulators (\<lambda>_. 0)) (empty_world (\<lambda>_. NoFault)) (svc consumer_world) [created_message]"
      using one_order_run by (simp add: consumer_world_def)
    show "distinct_ids (empty_world (\<lambda>_. NoFault)) (svc ?v)"
      unfolding svc by (rule distinct_ids_empty_world) (simp add: first_delivery started_state)
    fix km
    assume "km \<in> set (fetched_in (drop (length (trace consumer_world)) (trace ?v)))"
    then have "km = created_copy"
      using tr by simp
    then show "fetchable ?s ([created_message] @ a_out (pg_view (svc consumer_world))) km"
      by (auto simp: fetchable_def created_copy_def copy_of_def service_topics_def main_defs
          orchestrator_topics_def created_message_def message_of_def created_event_def outgoing_def topic_defs)
  qed simp
qed

end
