(* ===== verification/ConsumerGroup.thy ===== *)
theory ConsumerGroup
  imports ConsumerCorrect
begin

text \<open>
  \<open>Consume\<close> of the Kafka consumer: it starts \<open>workers\<close> goroutines in an \<open>errgroup\<close> and waits for
  all of them. The goroutines run \<open>consumeWorker\<close> of theory Consumer; a schedule interleaves the
  iterations of their loops. From the documentation of \<open>errgroup\<close>: the first error a goroutine
  returns cancels the context of the others, \<open>Wait\<close> returns that error once every goroutine has
  returned; a panic ends the process.
\<close>

section \<open>The group\<close>

datatype goroutine = Starting | Looping worker_state | Ended go_error

record 'w group =
  routines :: "goroutine list"
  genv :: "'w kafka_env"
  ctx_done :: bool
  first_error :: "go_error option"
  crashed :: "string option"

definition Consume :: "Consumer \<Rightarrow> 'w kafka_env \<Rightarrow> 'w group" where
  "Consume c w = \<lparr>routines = replicate (nat (workers c)) Starting, genv = w, ctx_done = False,
     first_error = None, crashed = None\<rparr>"

text \<open>
  A fetch whose context is done gives a message that is ready or reports the context; any other
  error comes with \<open>fetchCtx.Err() != nil\<close> too.
\<close>

definition in_ctx :: "bool \<Rightarrow> ('w kafka_env, 'e, 'b) io \<Rightarrow> ('w kafka_env, 'e, 'b) io" where
  "in_ctx over m w =
     (if over then
        (case m (w\<lparr>fetch_plan := \<lambda>k. case fetch_plan w k of Fetched km \<Rightarrow> Fetched km | _ \<Rightarrow> FetchCancelled\<rparr>) of
           (r, v) \<Rightarrow> (r, v\<lparr>fetch_plan := fetch_plan w\<rparr>))
      else m w)"

text \<open>The goroutine returns: \<open>errgroup\<close> keeps the first error and cancels the context.\<close>

definition group_return :: "nat \<Rightarrow> worker_outcome \<Rightarrow> 'w group \<Rightarrow> 'w group" where
  "group_return i out g =
     (case out of
        Running l \<Rightarrow> g\<lparr>routines := (routines g)[i := Looping l]\<rparr>
      | Returned err \<Rightarrow> g\<lparr>routines := (routines g)[i := Ended err],
          first_error := (case first_error g of None \<Rightarrow> Some err | Some e \<Rightarrow> Some e),
          ctx_done := True\<rparr>
      | Panicked msg \<Rightarrow> g\<lparr>crashed := Some msg\<rparr>)"

text \<open>Goroutine \<open>i\<close> goes on: up to its loop, or one iteration and the deferred calls on a return.\<close>

definition run_routine :: "Consumer \<Rightarrow> 'w event_handler \<Rightarrow> nat \<Rightarrow> 'w group \<Rightarrow> 'w group" where
  "run_routine c handler i g =
     (if crashed g \<noteq> None \<or> i \<ge> length (routines g) then g
      else
      (case routines g ! i of
         Ended err \<Rightarrow> g
       | Starting \<Rightarrow>
           (case (start_worker c :: ('w kafka_env, go_error, worker_state) io) (genv g) of
              (Inr l, v) \<Rightarrow> group_return i (Running l) (g\<lparr>genv := v\<rparr>)
            | (Inl e, v) \<Rightarrow> g)
       | Looping l \<Rightarrow>
           (case in_ctx (ctx_done g) (consumer_step c handler l) (genv g) of
              (Inr l', v) \<Rightarrow> group_return i (Running l') (g\<lparr>genv := v\<rparr>)
            | (Inl (err, l'), v) \<Rightarrow>
                (case deferred err l' v of (out, u) \<Rightarrow> group_return i out (g\<lparr>genv := u\<rparr>)))))"

datatype sched = Run nat | CtxDone

fun group_step :: "Consumer \<Rightarrow> 'w event_handler \<Rightarrow> sched \<Rightarrow> 'w group \<Rightarrow> 'w group" where
  "group_step c handler (Run i) g = run_routine c handler i g"
| "group_step c handler CtxDone g = g\<lparr>ctx_done := True\<rparr>"

definition group_run :: "Consumer \<Rightarrow> 'w event_handler \<Rightarrow> sched list \<Rightarrow> 'w group \<Rightarrow> 'w group" where
  "group_run c handler ss g = fold (group_step c handler) ss g"

text \<open>The result of \<open>eg.Wait()\<close>, once there is one.\<close>

definition group_result :: "'w group \<Rightarrow> go_error option" where
  "group_result g =
     (if crashed g = None \<and> list_all (\<lambda>r. case r of Ended _ \<Rightarrow> True | _ \<Rightarrow> False) (routines g)
      then first_error g else None)"

text \<open>
  \<open>Close\<close>: every reader that was opened is closed, in order; \<open>close_err\<close> are the answers. The result
  is the first error.
\<close>

fun close_readers :: "(nat \<Rightarrow> go_error option) \<Rightarrow> nat list \<Rightarrow> go_error option \<Rightarrow>
    ('w kafka_env, 'e, go_error option) io" where
  "close_readers close_err [] firstErr = returnM firstErr"
| "close_readers close_err (r # rs) firstErr =
     tryM (Reader_Close r) (\<lambda>_.
     close_readers close_err rs
       (case (close_err r, firstErr) of (Some e, None) \<Rightarrow> Some e | _ \<Rightarrow> firstErr))"

definition Consumer_Close :: "(nat \<Rightarrow> go_error option) \<Rightarrow> ('w kafka_env, 'e, go_error option) io" where
  "Consumer_Close close_err w = close_readers close_err [0..<readers w] None w"

section \<open>Runs of the group\<close>

lemma group_run_Nil [simp]: "group_run c h [] g = g"
  by (simp add: group_run_def)

lemma group_run_Cons [simp]: "group_run c h (s # ss) g = group_run c h ss (group_step c h s g)"
  by (simp add: group_run_def)

lemma group_run_inv:
  assumes "P g" and "\<And>s g. P g \<Longrightarrow> P (group_step c h s g)"
  shows "P (group_run c h ss g)"
  using assms(1) by (induction ss arbitrary: g) (simp_all add: assms(2))

lemma start_worker_Inr: "\<exists>l v. (start_worker c :: ('w kafka_env, 'e, worker_state) io) w = (Inr l, v) \<and>
    fetch_plan v = fetch_plan w \<and> length (trace w) \<le> length (trace v)"
  by (simp add: start_worker_def newReader_def time_Now_def tryM_def Let_def)

text \<open>
  The bookkeeping of the group: an error is recorded exactly when a goroutine has returned one, and
  the context is done from then on.
\<close>

definition group_ok :: "'w group \<Rightarrow> bool" where
  "group_ok g \<longleftrightarrow>
     (first_error g = None \<longrightarrow> (\<forall>err. Ended err \<notin> set (routines g))) \<and>
     (\<forall>e. first_error g = Some e \<longrightarrow> Ended e \<in> set (routines g) \<and> ctx_done g)"

lemma group_ok_Consume: "group_ok (Consume c w)"
  by (auto simp: group_ok_def Consume_def)

lemma group_ok_return:
  assumes "group_ok g" and "i < length (routines g)" and "\<forall>err. routines g ! i \<noteq> Ended err"
  shows "group_ok (group_return i out (g\<lparr>genv := v\<rparr>))"
proof -
  have keep: "Ended e \<in> set ((routines g)[i := r])" if e: "Ended e \<in> set (routines g)" for e r
  proof -
    obtain j where j: "j < length (routines g)" "routines g ! j = Ended e"
      using e by (auto simp: in_set_conv_nth)
    then have "j \<noteq> i"
      using assms(3) by auto
    then show ?thesis
      using j by (metis length_list_update nth_list_update_neq nth_mem)
  qed
  show ?thesis
    using assms keep by (cases out)
      (auto simp: group_ok_def group_return_def set_update_memI dest!: set_update_subset_insert [THEN subsetD]
        split: option.split)
qed

lemma group_ok_step: "group_ok g \<Longrightarrow> group_ok (group_step c h s g)"
proof (cases s)
  case (Run i)
  assume ok: "group_ok g"
  show ?thesis
    unfolding Run group_step.simps run_routine_def
    by (auto intro!: group_ok_return ok split: goroutine.split sum.split prod.split)
next
  case CtxDone
  assume "group_ok g"
  then show ?thesis
    by (simp add: CtxDone group_ok_def)
qed

lemma group_ok_run: "group_ok (group_run c h ss (Consume c w))"
  by (rule group_run_inv [where P = group_ok]) (simp_all add: group_ok_Consume group_ok_step)

section \<open>A done context\<close>

text \<open>No message is ready any more, and the process is alive.\<close>

definition drained :: "'w group \<Rightarrow> bool" where
  "drained g \<longleftrightarrow> ctx_done g \<and> crashed g = None \<and>
     (\<forall>k \<ge> length (trace (genv g)). \<forall>km. fetch_plan (genv g) k \<noteq> Fetched km)"

lemma drained_iteration:
  assumes "\<forall>k \<ge> length (trace w). \<forall>km. fetch_plan w k \<noteq> Fetched km"
  shows "\<exists>l' v. in_ctx True (consumer_step c h l) w = (Inr l', v) \<and> svc v = svc w \<and>
    fetch_plan v = fetch_plan w \<and> length (trace w) \<le> length (trace v)"
proof -
  let ?w = "w\<lparr>fetch_plan := \<lambda>k. case fetch_plan w k of Fetched km \<Rightarrow> Fetched km | _ \<Rightarrow> FetchCancelled\<rparr>"
  have "fetch_plan ?w (length (trace ?w)) = FetchCancelled"
    using assms by (auto split: fetch_result.split)
  then have "wpM (consumer_step c h l) (\<lambda>l' v. svc v = svc w \<and> length (trace w) \<le> length (trace v))
      (\<lambda>_ _. False) ?w"
    by (auto simp: consumer_step_def reconnect_def flush_def wp_simps Let_def)
  from wpM_never_errorD [OF this] show ?thesis
    by (auto simp: in_ctx_def)
qed

lemma drained_step:
  assumes "drained g" and "i < length (routines g)" and "\<forall>err. routines g ! i \<noteq> Ended err"
  shows "drained (group_step c h s g) \<and> svc (genv (group_step c h s g)) = svc (genv g) \<and>
    length (routines (group_step c h s g)) = length (routines g) \<and>
    (\<forall>err. routines (group_step c h s g) ! i \<noteq> Ended err)"
proof (cases s)
  case CtxDone
  with assms show ?thesis
    by (simp add: drained_def)
next
  case (Run j)
  show ?thesis
  proof (cases "j < length (routines g)")
    case False
    with assms Run show ?thesis
      by (simp add: run_routine_def)
  next
    case True
    have start: "\<exists>l v. (start_worker c :: ('a kafka_env, go_error, worker_state) io) (genv g) = (Inr l, v) \<and>
        svc v = svc (genv g) \<and> fetch_plan v = fetch_plan (genv g) \<and>
        length (trace (genv g)) \<le> length (trace v)"
      by (simp add: start_worker_def newReader_def time_Now_def tryM_def Let_def)
    have iter: "\<exists>l' v. in_ctx True (consumer_step c h l) (genv g) = (Inr l', v) \<and>
        svc v = svc (genv g) \<and> fetch_plan v = fetch_plan (genv g) \<and>
        length (trace (genv g)) \<le> length (trace v)" for l
      by (rule drained_iteration) (use assms(1) in \<open>simp add: drained_def\<close>)
    show ?thesis
    proof (cases "routines g ! j")
      case Starting
      with start True assms Run show ?thesis
        by (auto simp: run_routine_def group_return_def drained_def nth_list_update split: if_splits)
    next
      case (Looping l)
      with iter [of l] True assms Run show ?thesis
        by (auto simp: run_routine_def group_return_def drained_def nth_list_update split: if_splits)
    next
      case (Ended err)
      with True assms Run show ?thesis
        by (simp add: run_routine_def)
    qed
  qed
qed

lemma drained_run:
  "drained g \<Longrightarrow> i < length (routines g) \<Longrightarrow> \<forall>err. routines g ! i \<noteq> Ended err \<Longrightarrow>
     drained (group_run c h ss g) \<and> svc (genv (group_run c h ss g)) = svc (genv g) \<and>
     i < length (routines (group_run c h ss g)) \<and>
     (\<forall>err. routines (group_run c h ss g) ! i \<noteq> Ended err)"
proof (induction ss arbitrary: g)
  case Nil
  then show ?case by simp
next
  case (Cons s ss)
  show ?case
    using Cons.IH [of "group_step c h s g"] drained_step [OF Cons.prems, of c h s] Cons.prems(2) by simp
qed

lemma result_needs_all:
  assumes "i < length (routines g)" and "\<forall>err. routines g ! i \<noteq> Ended err"
  shows "group_result g = None"
proof -
  have "\<not> list_all (\<lambda>r. case r of Ended _ \<Rightarrow> True | _ \<Rightarrow> False) (routines g)"
    using assms unfolding list_all_length by (intro notI) (cases "routines g ! i"; force)
  then show ?thesis
    by (simp add: group_result_def)
qed

section \<open>One goroutine\<close>

text \<open>The group of a single goroutine after its loop has come to \<open>l\<close>.\<close>

definition alone :: "worker_state \<Rightarrow> 'w kafka_env \<Rightarrow> 'w group" where
  "alone l v = \<lparr>routines = [Looping l], genv = v, ctx_done = False, first_error = None, crashed = None\<rparr>"

definition agrees_with :: "worker_outcome \<Rightarrow> 'w group \<Rightarrow> bool" where
  "agrees_with out g \<longleftrightarrow>
     (case out of
        Running l \<Rightarrow> routines g = [Looping l] \<and> crashed g = None
      | Returned err \<Rightarrow> group_result g = Some err
      | Panicked msg \<Rightarrow> crashed g = Some msg)"

lemma ended_alone:
  "crashed g = None \<Longrightarrow> routines g = [Ended err] \<Longrightarrow> group_run c h (replicate n (Run 0)) g = g"
  by (induction n) (simp_all add: run_routine_def)

lemma crashed_alone: "crashed g \<noteq> None \<Longrightarrow> group_run c h (replicate n (Run 0)) g = g"
  by (induction n) (simp_all add: run_routine_def)

lemma loop_alone:
  "case (case consumer_loop c h n l w of
           (Inr l', v) \<Rightarrow> (Running l', v) | (Inl (err, l'), v) \<Rightarrow> deferred err l' v) of
     (out, v) \<Rightarrow> (let g = group_run c h (replicate n (Run 0)) (alone l w) in genv g = v \<and> agrees_with out g)"
proof (induction n arbitrary: l w)
  case 0
  then show ?case by (simp add: alone_def agrees_with_def)
next
  case (Suc n)
  obtain res v where step: "consumer_step c h l w = (res, v)"
    by (cases "consumer_step c h l w")
  show ?case
  proof (cases res)
    case (Inr l')
    have "group_step c h (Run 0) (alone l w) = alone l' v"
      using step Inr by (simp add: alone_def run_routine_def in_ctx_def group_return_def)
    then show ?thesis
      using Suc.IH [of l' v] step Inr by (simp add: tryM_def Let_def)
  next
    case (Inl r)
    obtain err l' where r: "r = (err, l')"
      by (cases r)
    show ?thesis
    proof (cases "0 \<in> set (closedChans l')")
      case True
      let ?g = "group_step c h (Run 0) (alone l w)"
      have "crashed ?g = Some ''close of closed channel''" "genv ?g = log_call (CloseReader (reader l')) v"
        using step Inl r True
        by (simp_all add: alone_def run_routine_def in_ctx_def group_return_def deferred_def)
      then show ?thesis
        using step Inl r True by (simp add: tryM_def Let_def deferred_def agrees_with_def crashed_alone)
    next
      case False
      let ?g = "group_step c h (Run 0) (alone l w)"
      have g: "crashed ?g = None" "routines ?g = [Ended err]" "first_error ?g = Some err"
        "genv ?g = log_call (CloseReader (reader l')) v"
        using step Inl r False
        by (simp_all add: alone_def run_routine_def in_ctx_def group_return_def deferred_def)
      then show ?thesis
        using step Inl r False
        by (simp add: tryM_def Let_def deferred_def agrees_with_def
            ended_alone [OF g(1,2), unfolded group_step.simps] group_result_def)
    qed
  qed
qed

section \<open>Properties\<close>


text \<open>
  With one worker \<open>Consume\<close> is \<open>consumeWorker\<close>: after the goroutine's start and \<open>n\<close> of its
  turns the world is that after \<open>n\<close> iterations, and \<open>Consume\<close> returns exactly the error the
  goroutine returns, or the process panics with it.
\<close>

theorem single_worker_consume:
  assumes "workers c = 1"
  shows "let (out, v) = consumeWorker c h n w; g = group_run c h (replicate (Suc n) (Run 0)) (Consume c w)
    in genv g = v \<and> agrees_with out g"
proof -
  obtain l u where start: "(start_worker c :: ('a kafka_env, go_error, worker_state) io) w = (Inr l, u)"
      "(start_worker c :: ('a kafka_env, go_error \<times> worker_state, worker_state) io) w = (Inr l, u)"
    by (simp add: start_worker_def newReader_def time_Now_def tryM_def)
  have "group_step c h (Run 0) (Consume c w) = alone l u"
    using assms start(1) by (simp add: Consume_def run_routine_def group_return_def alone_def)
  then show ?thesis
    using loop_alone [where c = c and h = h and n = n and l = l and w = u] start(2)
    by (simp add: consumeWorker_def tryM_def Let_def split: prod.splits)
qed

section \<open>Witnesses\<close>

definition sample_consumer :: "int \<Rightarrow> Consumer" where
  "sample_consumer n = NewConsumer (\<lambda>_. None) (\<lambda>_. []) \<lparr>Brokers = [''b''], GroupID = ''g'',
     ServiceName = ''s'', Workers = n, CommitBatch = 50, CommitInterval = 200 * Millisecond,
     Topic = ''t'', Topics = [], DLQWriter = True\<rparr>"

text \<open>The reader of the first goroutine meets an error the consumer does not retry.\<close>

definition broken_broker :: "unit kafka_env" where
  "broken_broker = \<lparr>entropy = \<lambda>_ _. 0, drawn = 0, clock = \<lambda>_. 0, ticks = 0, attempts = \<lambda>_ _. 0, metrics = new_registry,
     svc = (), readers = 0, fetch_plan = \<lambda>k. FetchError (ErrText ''EOF''), error_plan = \<lambda>_. None,
     trace = []\<rparr>"

definition half_dead :: "unit group" where
  "half_dead = group_run (sample_consumer 2) (\<lambda>e. returnM ()) [Run 0, Run 1, Run 0]
     (Consume (sample_consumer 2) broken_broker)"

lemma sample_workers [simp]: "1 \<le> n \<Longrightarrow> workers (sample_consumer n) = n"
  by (simp add: sample_consumer_def NewConsumer_def Let_def)

lemma half_dead_facts:
  "routines half_dead ! 0 = Ended (Wrapf ''erro ao ler mensagem'' (ErrText ''EOF''))"
  "drained half_dead" "length (routines half_dead) = 2"
  "\<forall>err. routines half_dead ! 1 \<noteq> Ended err"
  by (simp_all add: half_dead_def Consume_def run_routine_def group_return_def start_worker_def newReader_def
      time_Now_def tryM_def broken_broker_def numeral_2_eq_2 in_ctx_def consumer_step_def FetchMessage_def
      log_call_def shouldRetryFetch_def flush_def deferred_def drained_def Let_def)


lemma single_worker_consume_witness:
  "group_result (group_run (sample_consumer 1) (\<lambda>e. returnM ()) (replicate 3 (Run 0))
     (Consume (sample_consumer 1) broken_broker)) = Some (Wrapf ''erro ao ler mensagem'' (ErrText ''EOF''))"
proof -
  have "fst (consumeWorker (sample_consumer 1) (\<lambda>e. returnM ()) 2 broken_broker) =
      Returned (Wrapf ''erro ao ler mensagem'' (ErrText ''EOF''))"
    by (simp add: consumeWorker_def start_worker_def newReader_def time_Now_def tryM_def broken_broker_def
        numeral_2_eq_2 consumer_step_def FetchMessage_def log_call_def shouldRetryFetch_def flush_def
        deferred_def Let_def)
  with single_worker_consume [of "sample_consumer 1" "\<lambda>e. returnM ()" 2 broken_broker] show ?thesis
    by (simp add: numeral_3_eq_3 numeral_2_eq_2 agrees_with_def Let_def split: prod.splits)
qed

end
