(* ===== verification/Startup.thy ===== *)
theory Startup
  imports Producer
begin

text \<open>
  Connecting to the database with retries (\<open>postgres.go\<close>) and the health endpoint with its checks
  (\<open>health.go\<close> of \<open>internal/infrastructure/health\<close> and of \<open>internal/infrastructure/kafka\<close>, and
  \<open>ServeWithChecks\<close> of \<open>metrics.go\<close>).

  The connection pool of pgx, the dial of the Kafka client and the clock of the health checks are
  inputs: the plans of \<open>boot_env\<close> give the answers in each attempt, and \<open>pool_log\<close> is the list of
  the calls made. The timeouts of a check are those of the calls it makes and appear as their
  errors.
\<close>

section \<open>Connecting\<close>

record pool_config =
  MaxConns :: int
  MinConns :: int
  MaxConnLifetime :: int
  MaxConnIdleTime :: int

datatype pool_call =
    PoolOpened nat pool_config
  | PoolRefused pool_config go_error
  | PoolPinged nat "go_error option"
  | PoolClosed nat
  | Paused "go_error option"

record boot_env =
  open_plan :: "nat \<Rightarrow> go_error option"
  ping_plan :: "nat \<Rightarrow> go_error option"
  done_plan :: "nat \<Rightarrow> go_error option"
  pool_log :: "pool_call list"

definition boot_call :: "pool_call \<Rightarrow> boot_env \<Rightarrow> boot_env" where
  "boot_call c w = w\<lparr>pool_log := pool_log w @ [c]\<rparr>"

text \<open>The number of the attempt: each attempt that fails ends in a pause.\<close>

definition pauses :: "pool_call list \<Rightarrow> nat" where
  "pauses log = length (filter (\<lambda>c. case c of Paused _ \<Rightarrow> True | _ \<Rightarrow> False) log)"

definition attempt_no :: "boot_env \<Rightarrow> nat" where
  "attempt_no w = pauses (pool_log w)"

text \<open>\<open>pgxpool.NewWithConfig\<close>: a pool is named by the number of the call that opened it.\<close>

definition NewWithConfig :: "pool_config \<Rightarrow> (boot_env, go_error, nat) io" where
  "NewWithConfig config w =
     (let n = length (pool_log w) in
      case open_plan w (attempt_no w) of
        None \<Rightarrow> (Inr n, boot_call (PoolOpened n config) w)
      | Some err \<Rightarrow> (Inl err, boot_call (PoolRefused config err) w))"

definition pool_Ping :: "nat \<Rightarrow> (boot_env, go_error, unit) io" where
  "pool_Ping p w =
     (let res = ping_plan w (attempt_no w) in
      (case res of None \<Rightarrow> Inr () | Some err \<Rightarrow> Inl err, boot_call (PoolPinged p res) w))"

definition pool_Close :: "nat \<Rightarrow> (boot_env, go_error, unit) io" where
  "pool_Close p w = (Inr (), boot_call (PoolClosed p) w)"

text \<open>The \<open>select\<close> on \<open>ctx.Done()\<close> and the delay: the error of the context, or none.\<close>

definition connect_pause :: "(boot_env, go_error, go_error option) io" where
  "connect_pause w = (let res = done_plan w (attempt_no w) in (Inr res, boot_call (Paused res) w))"

definition connectRetries :: nat where
  "connectRetries = 10"

definition connectDelay :: int where
  "connectDelay = 2 * Second"

definition newPool ::
  "(string \<Rightarrow> go_error + pool_config) \<Rightarrow> (string \<Rightarrow> int option) \<Rightarrow> environ \<Rightarrow> string \<Rightarrow>
     (boot_env, go_error, nat) io" where
  "newPool parse_config parse_duration getenv url =
     (case parse_config url of
        Inl err \<Rightarrow> failM (Wrapf ''configuracao do pool invalida'' err)
      | Inr config \<Rightarrow>
          NewWithConfig (config\<lparr>MaxConns := PoolMaxConnsFromEnv getenv,
            MinConns := PoolMinConnsFromEnv getenv,
            MaxConnLifetime := PoolMaxLifetimeFromEnv parse_duration getenv,
            MaxConnIdleTime := PoolIdleTimeoutFromEnv parse_duration getenv\<rparr>))"

text \<open>The loop of \<open>Connect\<close> with \<open>k\<close> attempts left and the error of the last one.\<close>

fun connect_attempts ::
  "(boot_env, go_error, nat) io \<Rightarrow> nat \<Rightarrow> go_error \<Rightarrow> (boot_env, go_error, nat) io" where
  "connect_attempts open_pool 0 last_err =
     failM (Wrapf ''nao foi possivel conectar ao postgres'' last_err)"
| "connect_attempts open_pool (Suc k) last_err =
     tryM (attemptM open_pool) (\<lambda>opened.
     tryM
       (case opened of
          Inl err \<Rightarrow> returnM (Inl err)
        | Inr pool \<Rightarrow>
            tryM (attemptM (pool_Ping pool)) (\<lambda>answer.
            case answer of
              Inr _ \<Rightarrow> returnM (Inr pool)
            | Inl pingErr \<Rightarrow> tryM (pool_Close pool) (\<lambda>_. returnM (Inl pingErr))))
       (\<lambda>outcome.
       case outcome of
         Inr pool \<Rightarrow> returnM pool
       | Inl err \<Rightarrow>
           tryM connect_pause (\<lambda>over.
           case over of
             Some e \<Rightarrow> failM (Wrapf ''conexao com postgres interrompida'' e)
           | None \<Rightarrow> connect_attempts open_pool k err)))"

definition Connect ::
  "(string \<Rightarrow> go_error + pool_config) \<Rightarrow> (string \<Rightarrow> int option) \<Rightarrow> environ \<Rightarrow> string \<Rightarrow>
     (boot_env, go_error, nat) io" where
  "Connect parse_config parse_duration getenv url =
     connect_attempts (newPool parse_config parse_duration getenv url) connectRetries (ErrText [])"

section \<open>Health\<close>

type_synonym 'w health_check = "('w, go_error, unit) io"

text \<open>The handler of \<open>/healthz\<close>: the status code and the body.\<close>

fun healthz :: "'w health_check list \<Rightarrow> 'w \<Rightarrow> (int \<times> string) \<times> 'w" where
  "healthz [] w = ((200, ''ok''), w)"
| "healthz (check # checks) w =
     (case check w of
        (Inl err, v) \<Rightarrow> ((503, error_text err), v)
      | (Inr _, v) \<Rightarrow> healthz checks v)"

definition Postgres_check :: "'w health_check \<Rightarrow> 'w health_check" where
  "Postgres_check ping = wrapM (Wrapf ''postgres'') ping"

definition PingBroker :: "(string \<Rightarrow> 'w health_check) \<Rightarrow> string \<Rightarrow> 'w health_check" where
  "PingBroker dial broker = wrapM (Wrapf (''broker '' @ broker @ '' inacessivel'')) (dial broker)"

text \<open>The loop over the brokers, with the errors so far.\<close>

fun ping_any :: "(string \<Rightarrow> 'w health_check) \<Rightarrow> string list \<Rightarrow> string list \<Rightarrow> 'w health_check" where
  "ping_any dial [] errs = failM (ErrText (''kafka inacessivel: '' @ strings_Join errs '' | ''))"
| "ping_any dial (b # bs) errs =
     tryM (attemptM (PingBroker dial b)) (\<lambda>res.
     case res of
       Inr _ \<Rightarrow> returnM ()
     | Inl err \<Rightarrow> ping_any dial bs (errs @ [error_text err]))"

definition PingBrokers :: "(string \<Rightarrow> 'w health_check) \<Rightarrow> string list \<Rightarrow> 'w health_check" where
  "PingBrokers dial brokers =
     (if brokers = [] then failM (ErrText ''nenhum broker configurado'') else ping_any dial brokers [])"

definition Kafka_check :: "(string \<Rightarrow> 'w health_check) \<Rightarrow> string list \<Rightarrow> 'w health_check" where
  "Kafka_check dial brokers = PingBrokers dial brokers"

text \<open>\<open>LastActivity\<close> over the time of the last activity, in nanoseconds since the epoch.\<close>

definition LastActivity :: "('a env_scheme \<Rightarrow> int) \<Rightarrow> int \<Rightarrow> 'a env_scheme health_check" where
  "LastActivity lst staleAfter = (\<lambda>w.
     if lst w = 0 then failM (ErrText ''nenhum ciclo de trabalho concluido'') w
     else
     tryM time_Now (\<lambda>now.
     if now - lst w > staleAfter then failM (ErrText ''sem atividade'') else returnM ()) w)"

section \<open>Pools are not leaked\<close>

text \<open>The pools left open by a list of calls.\<close>

fun pool_step :: "pool_call \<Rightarrow> nat list \<Rightarrow> nat list" where
  "pool_step (PoolOpened p config) ps = p # ps"
| "pool_step (PoolClosed p) ps = removeAll p ps"
| "pool_step _ ps = ps"

definition open_pools :: "pool_call list \<Rightarrow> nat list" where
  "open_pools log = fold pool_step log []"

fun opened_with :: "pool_call list \<Rightarrow> pool_config list" where
  "opened_with [] = []"
| "opened_with (PoolOpened p config # cs) = config # opened_with cs"
| "opened_with (_ # cs) = opened_with cs"

lemma opened_with_append: "opened_with (xs @ ys) = opened_with xs @ opened_with ys"
  by (induction xs rule: opened_with.induct) simp_all

text \<open>A new pool or an error, with the one call this takes.\<close>

definition opens_pools :: "(pool_config \<Rightarrow> bool) \<Rightarrow> (boot_env, go_error, nat) io \<Rightarrow> bool" where
  "opens_pools good m \<longleftrightarrow> (\<forall>w.
     (\<exists>p config. good config \<and> m w = (Inr p, boot_call (PoolOpened p config) w)) \<or>
     (\<exists>err. m w = (Inl err, w)) \<or>
     (\<exists>err config. m w = (Inl err, boot_call (PoolRefused config err) w)))"

text \<open>What a run of at most \<open>k\<close> attempts leaves behind.\<close>

definition attempts_ok :: "(pool_config \<Rightarrow> bool) \<Rightarrow> nat \<Rightarrow> go_error + nat \<Rightarrow> boot_env \<Rightarrow> boot_env \<Rightarrow> bool" where
  "attempts_ok good k r w v \<longleftrightarrow> (\<exists>log. pool_log v = pool_log w @ log \<and>
     list_all good (opened_with log) \<and>
     (case r of
        Inl err \<Rightarrow> open_pools log = [] \<and> pauses log \<le> k
      | Inr p \<Rightarrow> open_pools log = [p] \<and> last log = PoolPinged p None \<and> pauses log < k))"

lemma pauses_append [simp]: "pauses (xs @ ys) = pauses xs + pauses ys"
  by (simp add: pauses_def)

lemma pauses_simps [simp]:
  "pauses [] = 0" "pauses (Paused e # cs) = Suc (pauses cs)"
  "pauses (PoolOpened p config # cs) = pauses cs" "pauses (PoolRefused config err # cs) = pauses cs"
  "pauses (PoolPinged p res # cs) = pauses cs" "pauses (PoolClosed p # cs) = pauses cs"
  by (simp_all add: pauses_def)

lemma attempts_ok_later:
  assumes "attempts_ok good k r u v" and "pool_log u = pool_log w @ cs" and "open_pools cs = []"
    and "pauses cs = 1" and "list_all good (opened_with cs)"
  shows "attempts_ok good (Suc k) r w v"
proof -
  obtain log where log: "pool_log v = pool_log u @ log" "list_all good (opened_with log)"
    "case r of Inl err \<Rightarrow> open_pools log = [] \<and> pauses log \<le> k
       | Inr p \<Rightarrow> open_pools log = [p] \<and> last log = PoolPinged p None \<and> pauses log < k"
    using assms(1) unfolding attempts_ok_def by blast
  have all: "open_pools (cs @ log) = open_pools log"
    using assms(3) by (simp add: open_pools_def)
  have last: "last (cs @ log) = last log" if "open_pools log = [p]" for p
    using that by (cases "log = []") (simp_all add: open_pools_def)
  show ?thesis
    unfolding attempts_ok_def using log assms(2,4,5) all last
    by (intro exI [of _ "cs @ log"]) (auto simp: opened_with_append split: sum.splits)
qed

lemma pool_log_boot_call [simp]: "pool_log (boot_call c w) = pool_log w @ [c]"
  by (simp add: boot_call_def)

lemma connect_attempts_ok:
  assumes "opens_pools good m"
  shows "attempts_ok good k (fst (connect_attempts m k e w)) w (snd (connect_attempts m k e w))"
proof (induction k arbitrary: e w)
  case 0
  show ?case by (simp add: attempts_ok_def open_pools_def)
next
  case (Suc k)
  have pause: "attempts_ok good (Suc k) (fst (r v)) w (snd (r v))"
    if r: "r = tryM connect_pause (\<lambda>over. case over of
        Some e' \<Rightarrow> failM (Wrapf l e') | None \<Rightarrow> connect_attempts m k err)"
      and v: "pool_log v = pool_log w @ cs" "open_pools cs = []" "pauses cs = 0"
        "list_all good (opened_with cs)" for r v l err cs
  proof (cases "done_plan v (attempt_no v)")
    case None
    have "attempts_ok good (Suc k) (fst (connect_attempts m k err (boot_call (Paused None) v))) w
        (snd (connect_attempts m k err (boot_call (Paused None) v)))"
      by (rule attempts_ok_later [OF Suc.IH, where cs = "cs @ [Paused None]"])
        (use v in \<open>simp_all add: open_pools_def opened_with_append\<close>)
    with None show ?thesis
      by (simp add: r tryM_def connect_pause_def Let_def)
  next
    case (Some e')
    with v show ?thesis
      by (auto simp: r tryM_def connect_pause_def Let_def attempts_ok_def open_pools_def opened_with_append
          intro!: exI [of _ "cs @ [Paused (Some e')]"])
  qed
  from assms consider
      (opened) p config where "good config" "m w = (Inr p, boot_call (PoolOpened p config) w)"
    | (bad) err where "m w = (Inl err, w)"
    | (refused) err config where "m w = (Inl err, boot_call (PoolRefused config err) w)"
    unfolding opens_pools_def by blast
  then show ?case
  proof cases
    case opened
    let ?w = "boot_call (PoolOpened p config) w"
    show ?thesis
    proof (cases "ping_plan ?w (attempt_no ?w)")
      case None
      with opened show ?thesis
        by (auto simp: tryM_def attemptM_def pool_Ping_def Let_def attempts_ok_def open_pools_def
            intro!: exI [of _ "[PoolOpened p config, PoolPinged p None]"])
    next
      case (Some pingErr)
      let ?v = "boot_call (PoolClosed p) (boot_call (PoolPinged p (Some pingErr)) ?w)"
      have "connect_attempts m (Suc k) e w = tryM connect_pause (\<lambda>over. case over of
          Some e' \<Rightarrow> failM (Wrapf ''conexao com postgres interrompida'' e')
        | None \<Rightarrow> connect_attempts m k pingErr) ?v"
        using opened Some by (simp add: tryM_def attemptM_def pool_Ping_def pool_Close_def Let_def)
      then show ?thesis
        using pause [OF refl, of ?v "[PoolOpened p config, PoolPinged p (Some pingErr), PoolClosed p]"] opened(1)
        by (simp add: open_pools_def)
    qed
  next
    case bad
    then have "connect_attempts m (Suc k) e w = tryM connect_pause (\<lambda>over. case over of
          Some e' \<Rightarrow> failM (Wrapf ''conexao com postgres interrompida'' e')
        | None \<Rightarrow> connect_attempts m k err) w"
      by (simp add: tryM_def attemptM_def)
    then show ?thesis
      using pause [OF refl, of w "[]"] by (simp add: open_pools_def)
  next
    case refused
    then have "connect_attempts m (Suc k) e w = tryM connect_pause (\<lambda>over. case over of
          Some e' \<Rightarrow> failM (Wrapf ''conexao com postgres interrompida'' e')
        | None \<Rightarrow> connect_attempts m k err) (boot_call (PoolRefused config err) w)"
      by (simp add: tryM_def attemptM_def)
    then show ?thesis
      using pause [OF refl, of "boot_call (PoolRefused config err) w" "[PoolRefused config err]"]
      by (simp add: open_pools_def)
  qed
qed

text \<open>A configuration with the settings of the environment.\<close>

definition env_config :: "(string \<Rightarrow> int option) \<Rightarrow> environ \<Rightarrow> pool_config \<Rightarrow> bool" where
  "env_config pd getenv config \<longleftrightarrow>
     MaxConns config = PoolMaxConnsFromEnv getenv \<and>
     MinConns config = PoolMinConnsFromEnv getenv \<and>
     MaxConnLifetime config = PoolMaxLifetimeFromEnv pd getenv \<and>
     MaxConnIdleTime config = PoolIdleTimeoutFromEnv pd getenv"

lemma newPool_opens: "opens_pools (env_config pd getenv) (newPool parse_config pd getenv url)"
proof -
  have "opens_pools good (NewWithConfig config)" if "good config" for good config
    using that by (auto simp: opens_pools_def NewWithConfig_def Let_def split: option.split)
  moreover have "opens_pools good (failM err)" for good err
    by (simp add: opens_pools_def)
  ultimately show ?thesis
    by (simp add: newPool_def env_config_def split: sum.split)
qed

text \<open>The database answers in attempt \<open>n\<close>.\<close>

definition answers_at :: "boot_env \<Rightarrow> nat \<Rightarrow> bool" where
  "answers_at w n \<longleftrightarrow> open_plan w n = None \<and> ping_plan w n = None"

lemma boot_call_simps [simp]:
  "open_plan (boot_call c w) = open_plan w" "ping_plan (boot_call c w) = ping_plan w"
  "done_plan (boot_call c w) = done_plan w"
  "attempt_no (boot_call (PoolOpened p config) w) = attempt_no w"
  "attempt_no (boot_call (PoolRefused config err) w) = attempt_no w"
  "attempt_no (boot_call (PoolPinged p res) w) = attempt_no w"
  "attempt_no (boot_call (PoolClosed p) w) = attempt_no w"
  "attempt_no (boot_call (Paused e) w) = Suc (attempt_no w)"
  by (simp_all add: boot_call_def attempt_no_def)

lemma connect_attempts_succeed:
  assumes "m = newPool parse_config pd getenv url" and "parse_config url = Inr config"
  shows "i < k \<Longrightarrow> answers_at w (attempt_no w + i) \<Longrightarrow>
    (\<And>j. j < i \<Longrightarrow> done_plan w (attempt_no w + j) = None) \<Longrightarrow>
    \<exists>p v. connect_attempts m k e w = (Inr p, v)"
proof (induction k arbitrary: i e w)
  case 0
  then show ?case by simp
next
  case (Suc k)
  let ?config = "config\<lparr>MaxConns := PoolMaxConnsFromEnv getenv, MinConns := PoolMinConnsFromEnv getenv,
     MaxConnLifetime := PoolMaxLifetimeFromEnv pd getenv, MaxConnIdleTime := PoolIdleTimeoutFromEnv pd getenv\<rparr>"
  show ?case
  proof (cases "answers_at w (attempt_no w)")
    case True
    then show ?thesis
      using assms by (simp add: newPool_def NewWithConfig_def answers_at_def tryM_def attemptM_def
          pool_Ping_def Let_def)
  next
    case False
    then obtain i' where i': "i = Suc i'"
      using Suc.prems(2) by (cases i) simp_all
    have alive: "done_plan w (attempt_no w) = None"
      using Suc.prems(3) [of 0] i' by simp
    have step: "\<exists>u err. connect_attempts m (Suc k) e w = connect_attempts m k err u \<and>
        attempt_no u = Suc (attempt_no w) \<and> answers_at u = answers_at w \<and> done_plan u = done_plan w"
      using assms False alive
      by (cases "open_plan w (attempt_no w)"; cases "ping_plan w (attempt_no w)")
        (auto simp: newPool_def NewWithConfig_def answers_at_def fun_eq_iff tryM_def attemptM_def
          pool_Ping_def pool_Close_def connect_pause_def Let_def)
    then obtain u err where u: "connect_attempts m (Suc k) e w = connect_attempts m k err u"
        "attempt_no u = Suc (attempt_no w)" "answers_at u = answers_at w" "done_plan u = done_plan w"
      by blast
    have "\<exists>p v. connect_attempts m k err u = (Inr p, v)"
      by (rule Suc.IH [of i'])
        (use Suc.prems i' u Suc.prems(3) [of "Suc j" for j] in \<open>auto\<close>)
    with u(1) show ?thesis
      by simp
  qed
qed

section \<open>Properties\<close>

text \<open>
  C28: \<open>Connect\<close> ends after at most ten attempts and leaks no pool: on success exactly the pool it
  returns is left open, it has just answered a ping and carries the settings of the environment; on
  an error every pool it opened is closed again. When the configuration parses it succeeds as soon
  as the database answers in one of the ten attempts, unless the context ends before.
\<close>

theorem connect_is_bounded_and_leaks_nothing:
  "case Connect parse_config pd getenv url w of (r, v) \<Rightarrow>
     (\<exists>log. pool_log v = pool_log w @ log \<and> pauses log \<le> 10 \<and>
        list_all (env_config pd getenv) (opened_with log) \<and>
        (case r of Inl err \<Rightarrow> open_pools log = []
         | Inr p \<Rightarrow> open_pools log = [p] \<and> last log = PoolPinged p None)) \<and>
     (\<forall>config n. parse_config url = Inr config \<and> n < 10 \<and> answers_at w (attempt_no w + n) \<and>
        (\<forall>j < n. done_plan w (attempt_no w + j) = None) \<longrightarrow> (\<exists>p. r = Inr p))"
proof -
  obtain r v where run: "Connect parse_config pd getenv url w = (r, v)"
    by (cases "Connect parse_config pd getenv url w")
  then have attempts: "connect_attempts (newPool parse_config pd getenv url) 10 (ErrText []) w = (r, v)"
    by (simp add: Connect_def connectRetries_def)
  have ok: "attempts_ok (env_config pd getenv) 10 r w v"
    using connect_attempts_ok [OF newPool_opens [of pd getenv parse_config url], of 10 "ErrText []" w]
      attempts by simp
  have success: "\<exists>p. r = Inr p" if "parse_config url = Inr config" "n < 10" "answers_at w (attempt_no w + n)"
      "\<forall>j < n. done_plan w (attempt_no w + j) = None" for config n
    using connect_attempts_succeed [of "newPool parse_config pd getenv url" parse_config pd getenv url config
        n 10 w "ErrText []"] that attempts by simp
  have "\<exists>log. pool_log v = pool_log w @ log \<and> pauses log \<le> 10 \<and>
      list_all (env_config pd getenv) (opened_with log) \<and>
      (case r of Inl err \<Rightarrow> open_pools log = []
       | Inr p \<Rightarrow> open_pools log = [p] \<and> last log = PoolPinged p None)"
    using ok unfolding attempts_ok_def by (cases r) (auto intro: less_imp_le)
  with success show ?thesis
    unfolding run by blast
qed

text \<open>A database that is up from the fourth attempt on.\<close>

definition slow_database :: boot_env where
  "slow_database = \<lparr>open_plan = \<lambda>n. if n = 0 then Some (ErrText ''connection refused'') else None,
     ping_plan = \<lambda>n. if n < 3 then Some (ErrText ''starting up'') else None, done_plan = \<lambda>_. None,
     pool_log = []\<rparr>"

definition any_config :: "string \<Rightarrow> go_error + pool_config" where
  "any_config url = Inr \<lparr>MaxConns = 4, MinConns = 0, MaxConnLifetime = Hour, MaxConnIdleTime = Hour\<rparr>"

lemma connect_is_bounded_and_leaks_nothing_witness:
  "\<exists>p v. Connect any_config (\<lambda>_. None) (\<lambda>_. []) ''url'' slow_database = (Inr p, v) \<and>
     open_pools (pool_log v) = [p] \<and> pauses (pool_log v) \<le> 10"
proof -
  have up: "answers_at slow_database (attempt_no slow_database + 3)"
    "attempt_no slow_database = 0" "done_plan slow_database = (\<lambda>_. None)" "pool_log slow_database = []"
    by (simp_all add: slow_database_def answers_at_def attempt_no_def)
  obtain r v where run: "Connect any_config (\<lambda>_. None) (\<lambda>_. []) ''url'' slow_database = (r, v)"
    by (cases "Connect any_config (\<lambda>_. None) (\<lambda>_. []) ''url'' slow_database")
  note facts = connect_is_bounded_and_leaks_nothing [where parse_config = any_config and
      pd = "\<lambda>_. None" and getenv = "\<lambda>_. []" and url = "''url''" and w = slow_database, unfolded run prod.case]
  have "\<exists>p. r = Inr p"
    using conjunct2 [OF facts, rule_format, of _ 3] up by (simp add: any_config_def)
  with conjunct1 [OF facts] up(4) run show ?thesis
    by auto
qed

section \<open>What the health endpoint says\<close>

text \<open>The world of the checks: the answers of the database and the brokers, the relay's last cycle.\<close>

record health_env = env +
  pg_answer :: "go_error option"
  broker_answer :: "string \<Rightarrow> go_error option"
  last_activity :: int

definition answer :: "go_error option \<Rightarrow> 'w health_check" where
  "answer res = (case res of None \<Rightarrow> returnM () | Some err \<Rightarrow> failM err)"

text \<open>The checks the main functions register, and those of the outbox relay.\<close>

definition service_checks :: "string list \<Rightarrow> health_env health_check list" where
  "service_checks brokers = [Postgres_check (\<lambda>w. answer (pg_answer w) w),
     Kafka_check (\<lambda>b w. answer (broker_answer w b) w) brokers]"

definition relayStallTimeout :: int where
  "relayStallTimeout = 30 * Second"

definition relay_checks :: "string list \<Rightarrow> health_env health_check list" where
  "relay_checks brokers = service_checks brokers @ [LastActivity last_activity relayStallTimeout]"

lemma ping_any_run:
  "ping_any (\<lambda>b w. answer (broker_answer w b) w) brokers errs w =
     (if list_ex (\<lambda>b. broker_answer w b = None) brokers then (Inr (), w)
      else (Inl (ErrText (''kafka inacessivel: '' @ strings_Join (errs @ map (\<lambda>b.
        error_text (Wrapf (''broker '' @ b @ '' inacessivel'') (the (broker_answer w b)))) brokers) '' | '')), w))"
  by (induction brokers arbitrary: errs)
    (auto simp: PingBroker_def answer_def tryM_def attemptM_def wrapM_def split: option.split)

text \<open>
  C29: the health endpoint answers 200 exactly when the database answers the ping and at least one
  of the configured brokers the dial; the relay's, when in addition a cycle has completed and the
  last one is not older than thirty seconds.
\<close>

theorem healthz_tells_the_dependencies:
  "let up = pg_answer w = None \<and> list_ex (\<lambda>b. broker_answer w b = None) brokers;
       fresh = last_activity w \<noteq> 0 \<and> clock w (ticks w) - last_activity w \<le> 30 * Second
   in fst (fst (healthz (service_checks brokers) w)) = (if up then 200 else 503) \<and>
      fst (fst (healthz (relay_checks brokers) w)) = (if up \<and> fresh then 200 else 503)"
proof -
  have pg: "Postgres_check (\<lambda>w. answer (pg_answer w) w) w =
      (case pg_answer w of None \<Rightarrow> Inr () | Some err \<Rightarrow> Inl (Wrapf ''postgres'' err), w)"
    by (simp add: Postgres_check_def answer_def wrapM_def split: option.split)
  have kafka: "\<exists>err. Kafka_check (\<lambda>b w. answer (broker_answer w b) w) brokers w =
      (if list_ex (\<lambda>b. broker_answer w b = None) brokers then Inr () else Inl err, w)"
    by (simp add: Kafka_check_def PingBrokers_def ping_any_run)
  then show ?thesis
    using pg by (auto simp: service_checks_def relay_checks_def relayStallTimeout_def LastActivity_def
        time_Now_def tryM_def Let_def split: option.split)
qed

end
