(* ===== verification/Autoscaler.thy ===== *)
theory Autoscaler
  imports Config
begin

text \<open>
  The autoscaler of \<open>cmd/autoscaler/main.go\<close>: the lag of a consumer group read from the output of
  the Kafka command line tool, and the loop that raises and lowers the number of replicas.

  The two commands it runs are inputs: \<open>cli_output n\<close> is what the \<open>n\<close>-th call of the Kafka tool
  prints or its error, \<open>scale_answer n\<close> the answer of the \<open>n\<close>-th \<open>docker-compose up --scale\<close>;
  \<open>scaled\<close> lists the numbers of replicas asked for.
\<close>

record ops_env = env +
  cli_output :: "nat \<Rightarrow> go_error + string"
  cli_calls :: nat
  scale_answer :: "nat \<Rightarrow> go_error option"
  scaled :: "int list"

section \<open>The lag\<close>

text \<open>\<open>strings.Fields\<close> on ASCII text, with the field being read.\<close>

definition is_space :: "char \<Rightarrow> bool" where
  "is_space c \<longleftrightarrow> (of_char c :: nat) \<in> {9, 10, 11, 12, 13, 32}"

fun fields_from :: "string \<Rightarrow> string \<Rightarrow> string list" where
  "fields_from cur [] = (if cur = [] then [] else [cur])"
| "fields_from cur (c # cs) =
     (if is_space c then (if cur = [] then fields_from [] cs else cur # fields_from [] cs)
      else fields_from (cur @ [c]) cs)"

definition Fields :: "string \<Rightarrow> string list" where
  "Fields s = fields_from [] s"

definition line_lag :: "string \<Rightarrow> string \<Rightarrow> string \<Rightarrow> int option" where
  "line_lag grp topic line =
     (let fs = Fields line in
      if length fs < 6 \<or> fs ! 0 \<noteq> grp \<or> fs ! 1 \<noteq> topic then None else Atoi (fs ! 5))"

fun sum_lags :: "string \<Rightarrow> string \<Rightarrow> string list \<Rightarrow> int \<Rightarrow> int" where
  "sum_lags grp topic [] tot = tot"
| "sum_lags grp topic (l # ls) tot =
     sum_lags grp topic ls (case line_lag grp topic l of None \<Rightarrow> tot | Some lag \<Rightarrow> to_int64 (tot + lag))"

definition totalLag :: "string \<Rightarrow> string \<Rightarrow> ('a ops_env_scheme, go_error, int) io" where
  "totalLag grp topic w =
     (let v = w\<lparr>cli_calls := Suc (cli_calls w)\<rparr> in
      case cli_output w (cli_calls w) of
        Inl err \<Rightarrow> (Inl (ErrText (error_text err)), v)
      | Inr out \<Rightarrow> (Inr (sum_lags grp topic (split_on (CHR 0x0A) out) 0), v))"

definition scaleService :: "string \<Rightarrow> int \<Rightarrow> ('a ops_env_scheme, go_error, unit) io" where
  "scaleService service n w =
     (case scale_answer w (length (scaled w)) of
        None \<Rightarrow> Inr () | Some err \<Rightarrow> Inl (ErrText (error_text err)),
      w\<lparr>scaled := scaled w @ [n]\<rparr>)"

section \<open>The loop\<close>

record autoscaler_config =
  as_svc :: string
  as_group :: string
  as_topic :: string
  as_min :: int
  as_max :: int
  as_highLag :: int
  as_idleDuration :: int
  as_checkInterval :: int
  as_step :: int

definition autoscaler_settings :: "environ \<Rightarrow> autoscaler_config" where
  "autoscaler_settings getenv =
     \<lparr>as_svc = autoscaler_env getenv ''AUTOSCALE_SERVICE'' ''orchestrator'',
      as_group = autoscaler_env getenv ''AUTOSCALE_GROUP'' ''orchestrator'',
      as_topic = autoscaler_env getenv ''AUTOSCALE_TOPIC'' ''orders.created'',
      as_min = intEnv getenv ''AUTOSCALE_MIN'' 1,
      as_max = intEnv getenv ''AUTOSCALE_MAX'' 3,
      as_highLag = intEnv getenv ''AUTOSCALE_HIGH_LAG'' 500,
      as_idleDuration = to_int64 (intEnv getenv ''AUTOSCALE_IDLE_SECONDS'' 30 * Second),
      as_checkInterval = to_int64 (intEnv getenv ''AUTOSCALE_CHECK_INTERVAL'' 5 * Second),
      as_step = intEnv getenv ''AUTOSCALE_STEP'' 1\<rparr>"

text \<open>The variables of the loop; the zero time is \<open>None\<close>.\<close>

record autoscaler =
  replicas :: int
  highCount :: int
  idleStart :: "int option"

definition start_autoscaler :: "autoscaler_config \<Rightarrow> autoscaler" where
  "start_autoscaler c = \<lparr>replicas = as_min c, highCount = 0, idleStart = None\<rparr>"

definition high_check :: "autoscaler_config \<Rightarrow> autoscaler \<Rightarrow> ('a ops_env_scheme, go_error, autoscaler) io" where
  "high_check c st =
     (let st = st\<lparr>highCount := highCount st + 1, idleStart := None\<rparr> in
      if highCount st \<ge> 2 \<and> replicas st < as_max c then
        (let n = to_int64 (replicas st + as_step c);
             n = (if n > as_max c then as_max c else n) in
         tryM (attemptM (scaleService (as_svc c) n)) (\<lambda>_.
         returnM (st\<lparr>replicas := n, highCount := 0\<rparr>)))
      else returnM st)"

definition idle_check :: "autoscaler_config \<Rightarrow> autoscaler \<Rightarrow> ('a ops_env_scheme, go_error, autoscaler) io" where
  "idle_check c st =
     (let st = st\<lparr>highCount := 0\<rparr> in
      tryM (case idleStart st of None \<Rightarrow> time_Now | Some t \<Rightarrow> returnM t) (\<lambda>since.
      let st = st\<lparr>idleStart := Some since\<rparr> in
      tryM time_Now (\<lambda>now.
      if now - since \<ge> as_idleDuration c \<and> replicas st > as_min c then
        (let n = to_int64 (replicas st - as_step c);
             n = (if n < as_min c then as_min c else n) in
         tryM (attemptM (scaleService (as_svc c) n)) (\<lambda>_.
         returnM (st\<lparr>replicas := n, idleStart := None\<rparr>)))
      else returnM st)))"

text \<open>One turn of the loop: what it logs, the lag if it could be read, and the new variables.\<close>

definition autoscale_check ::
  "autoscaler_config \<Rightarrow> autoscaler \<Rightarrow> ('a ops_env_scheme, go_error, int option \<times> autoscaler) io" where
  "autoscale_check c st =
     tryM (attemptM (totalLag (as_group c) (as_topic c))) (\<lambda>res.
     case res of
       Inl err \<Rightarrow> returnM (None, st)
     | Inr lag \<Rightarrow>
         tryM (if lag > as_highLag c then high_check c st
               else if lag = 0 then idle_check c st
               else returnM (st\<lparr>highCount := 0, idleStart := None\<rparr>)) (\<lambda>st.
         returnM (Some lag, st)))"

text \<open>The first \<open>n\<close> turns, with the lag and the replicas each turn logs.\<close>

fun autoscale ::
  "autoscaler_config \<Rightarrow> nat \<Rightarrow> autoscaler \<Rightarrow> ('a ops_env_scheme, go_error, (int option \<times> int) list \<times> autoscaler) io" where
  "autoscale c 0 st = returnM ([], st)"
| "autoscale c (Suc n) st =
     tryM (autoscale c n st) (\<lambda>(log, st).
     tryM (autoscale_check c st) (\<lambda>(lag, st).
     returnM (log @ [(lag, replicas st)], st)))"

section \<open>The replicas stay in range\<close>

text \<open>The limits are in order, the step is not negative, and no sum leaves 64 bits.\<close>

definition sane :: "autoscaler_config \<Rightarrow> bool" where
  "sane c \<longleftrightarrow> as_min c \<le> as_max c \<and> 0 \<le> as_step c \<and> as_max c + as_step c < 2 ^ 63 \<and>
     - (2 ^ 63) \<le> as_min c - as_step c"

definition in_limits :: "autoscaler_config \<Rightarrow> int \<Rightarrow> bool" where
  "in_limits c n \<longleftrightarrow> as_min c \<le> n \<and> n \<le> as_max c"

definition last_reading :: "(int option \<times> int) list \<Rightarrow> int option" where
  "last_reading log = 
     (let rs = filter (\<lambda>x. x \<noteq> None) (map fst log) in if rs = [] then None else last rs)"

text \<open>
  A turn that changes the number of replicas: upwards only on the second high reading in a row,
  downwards only on an empty lag.
\<close>

definition justified :: "autoscaler_config \<Rightarrow> int option \<Rightarrow> int \<Rightarrow> int option \<times> int \<Rightarrow> bool" where
  "justified c before n turn \<longleftrightarrow>
     (snd turn > n \<longrightarrow> (\<exists>lag prev. fst turn = Some lag \<and> lag > as_highLag c \<and>
        before = Some prev \<and> prev > as_highLag c)) \<and>
     (snd turn < n \<longrightarrow> fst turn = Some 0)"

definition replicas_before :: "autoscaler_config \<Rightarrow> (int option \<times> int) list \<Rightarrow> int" where
  "replicas_before c log = (if log = [] then as_min c else snd (last log))"

definition log_justified :: "autoscaler_config \<Rightarrow> (int option \<times> int) list \<Rightarrow> bool" where
  "log_justified c log \<longleftrightarrow> list_all (\<lambda>i.
     justified c (last_reading (take i log)) (replicas_before c (take i log)) (log ! i)) [0..<length log]"

lemma log_justified_snoc:
  "log_justified c (log @ [t]) \<longleftrightarrow> log_justified c log \<and> justified c (last_reading log) (replicas_before c log) t"
  by (auto simp: log_justified_def list_all_iff nth_append)

lemma last_reading_snoc [simp]:
  "last_reading (log @ [(Some lag, n)]) = Some lag" "last_reading (log @ [(None, n)]) = last_reading log"
  "last_reading [] = None"
  by (simp_all add: last_reading_def)

lemma replicas_before_snoc [simp]: "replicas_before c (log @ [t]) = snd t"
  by (simp add: replicas_before_def)

lemma wpM_ops [wp_simps]:
  "wpM (totalLag grp topic) Q E w = (case cli_output w (cli_calls w) of
     Inl err \<Rightarrow> E (ErrText (error_text err)) (w\<lparr>cli_calls := Suc (cli_calls w)\<rparr>)
   | Inr out \<Rightarrow> Q (sum_lags grp topic (split_on (CHR 0x0A) out) 0) (w\<lparr>cli_calls := Suc (cli_calls w)\<rparr>))"
  "wpM (scaleService service n) Q2 E w = (case scale_answer w (length (scaled w)) of
     None \<Rightarrow> Q2 () (w\<lparr>scaled := scaled w @ [n]\<rparr>)
   | Some err \<Rightarrow> E (ErrText (error_text err)) (w\<lparr>scaled := scaled w @ [n]\<rparr>))"
  "wpM time_Now Q3 E w = Q3 (clock w (ticks w)) (w\<lparr>ticks := Suc (ticks w)\<rparr>)"
  by (simp_all add: wpM_def totalLag_def scaleService_def time_Now_def Let_def split: sum.split option.split)

definition asked_within :: "autoscaler_config \<Rightarrow> 'a ops_env_scheme \<Rightarrow> 'a ops_env_scheme \<Rightarrow> bool" where
  "asked_within c w v \<longleftrightarrow> (\<exists>asked. scaled v = scaled w @ asked \<and> list_all (in_limits c) asked)"

lemma asked_none: "scaled v = scaled w \<Longrightarrow> asked_within c w v"
  by (simp add: asked_within_def)

lemma asked_one: "scaled v = scaled w @ [n] \<Longrightarrow> in_limits c n \<Longrightarrow> asked_within c w v"
  by (simp add: asked_within_def)

lemma high_check_turn:
  assumes "sane c" and "in_limits c (replicas st)" and "0 \<le> highCount st"
  shows "wpM (high_check c st)
    (\<lambda>st' v. in_limits c (replicas st') \<and> replicas st \<le> replicas st' \<and> 0 \<le> highCount st' \<and>
       (replicas st < replicas st' \<longrightarrow> 1 \<le> highCount st) \<and> asked_within c w v)
    (\<lambda>_ _. False) w"
proof (cases "highCount st + 1 \<ge> 2 \<and> replicas st < as_max c")
  case True
  let ?n = "min (replicas st + as_step c) (as_max c)"
  have sum: "to_int64 (replicas st + as_step c) = replicas st + as_step c"
    using assms True by (intro to_int64_id) (auto simp: sane_def in_limits_def)
  have n: "in_limits c ?n" "replicas st \<le> ?n"
    using assms True by (auto simp: sane_def in_limits_def)
  have eq: "(if as_max c < replicas st + as_step c then as_max c else replicas st + as_step c) = ?n"
    by simp
  show ?thesis
    using True n unfolding high_check_def Let_def
    by (auto simp: wp_simps sum eq intro: asked_one simp del: min_def split: option.split)
next
  case False
  with assms show ?thesis
    by (auto simp: high_check_def wp_simps Let_def intro: asked_none)
qed

lemma idle_check_turn:
  assumes "sane c" and "in_limits c (replicas st)"
  shows "wpM (idle_check c st)
    (\<lambda>st' v. in_limits c (replicas st') \<and> replicas st' \<le> replicas st \<and> highCount st' = 0 \<and> asked_within c w v)
    (\<lambda>_ _. False) w"
proof (cases "as_min c < replicas st")
  case True
  let ?n = "max (replicas st - as_step c) (as_min c)"
  have diff: "to_int64 (replicas st - as_step c) = replicas st - as_step c"
    using assms True by (intro to_int64_id) (auto simp: sane_def in_limits_def)
  have n: "in_limits c ?n" "?n \<le> replicas st"
    using assms True by (auto simp: sane_def in_limits_def)
  have eq: "(if replicas st - as_step c < as_min c then as_min c else replicas st - as_step c) = ?n"
    by simp
  show ?thesis
    using True n assms(2) unfolding idle_check_def Let_def
    by (cases "idleStart st")
      (auto simp: wp_simps diff eq intro: asked_one asked_none simp del: max_def split: option.split)
next
  case False
  with assms show ?thesis
    by (cases "idleStart st") (auto simp: idle_check_def wp_simps Let_def intro: asked_none)
qed

text \<open>What holds between two turns.\<close>

definition scaler_inv :: "autoscaler_config \<Rightarrow> (int option \<times> int) list \<Rightarrow> autoscaler \<Rightarrow> bool" where
  "scaler_inv c log st \<longleftrightarrow>
     in_limits c (replicas st) \<and> replicas st = replicas_before c log \<and> 0 \<le> highCount st \<and>
     (1 \<le> highCount st \<longrightarrow> (\<exists>prev. last_reading log = Some prev \<and> prev > as_highLag c)) \<and>
     list_all (\<lambda>t. in_limits c (snd t)) log \<and> log_justified c log"

lemma autoscale_check_turn:
  assumes "sane c" and "scaler_inv c log st"
  shows "wpM (autoscale_check c st)
    (\<lambda>(lag, st') v. scaler_inv c (log @ [(lag, replicas st')]) st' \<and> asked_within c w v) (\<lambda>_ _. False) w"
proof -
  let ?w = "w\<lparr>cli_calls := Suc (cli_calls w)\<rparr>"
  have st: "in_limits c (replicas st)" "0 \<le> highCount st" "replicas st = replicas_before c log"
      "1 \<le> highCount st \<Longrightarrow> \<exists>prev. last_reading log = Some prev \<and> prev > as_highLag c"
      "list_all (\<lambda>t. in_limits c (snd t)) log" "log_justified c log"
    using assms(2) unfolding scaler_inv_def by blast+
  have within: "asked_within c w v" if "asked_within c ?w v" for v
    using that by (simp add: asked_within_def)
  have high: "wpM (high_check c st)
      (\<lambda>st' v. scaler_inv c (log @ [(Some lag, replicas st')]) st' \<and> asked_within c w v) (\<lambda>_ _. False) ?w"
    if "lag > as_highLag c" for lag
    by (rule wpM_conseq [OF high_check_turn [OF assms(1) st(1,2), of ?w]])
      (use that st in \<open>auto simp: scaler_inv_def log_justified_snoc justified_def intro: within\<close>)
  have idle: "wpM (idle_check c st)
      (\<lambda>st' v. scaler_inv c (log @ [(Some 0, replicas st')]) st' \<and> asked_within c w v) (\<lambda>_ _. False) ?w"
    by (rule wpM_conseq [OF idle_check_turn [OF assms(1) st(1), of ?w]])
      (use st in \<open>auto simp: scaler_inv_def log_justified_snoc justified_def intro: within\<close>)
  have same: "scaler_inv c (log @ [(lag, replicas st)]) (st\<lparr>highCount := 0, idleStart := None\<rparr>)" for lag
    using st by (auto simp: scaler_inv_def log_justified_snoc justified_def)
  have failed: "scaler_inv c (log @ [(None, replicas st)]) st"
    using st by (auto simp: scaler_inv_def log_justified_snoc justified_def)
  show ?thesis
  proof (cases "cli_output w (cli_calls w)")
    case (Inl err)
    with failed show ?thesis
      by (auto simp: autoscale_check_def wp_simps intro: asked_none)
  next
    case (Inr out)
    define lag where "lag = sum_lags (as_group c) (as_topic c) (split_on (CHR 0x0A) out) 0"
    show ?thesis
      using Inr high [of lag] idle same [of "Some lag"]
      by (auto simp: autoscale_check_def wp_simps wpM_returnM_fun lag_def [symmetric] intro: asked_none)
  qed
qed

lemma autoscale_run:
  assumes "sane c"
  shows "wpM (autoscale c n (start_autoscaler c))
    (\<lambda>(log, st) v. length log = n \<and> scaler_inv c log st \<and> asked_within c w v) (\<lambda>_ _. False) w"
proof (induction n)
  case 0
  have "scaler_inv c [] (start_autoscaler c)"
    using assms by (auto simp: scaler_inv_def start_autoscaler_def in_limits_def sane_def
        replicas_before_def log_justified_def)
  then show ?case
    by (simp add: wp_simps asked_within_def)
next
  case (Suc n)
  have trans: "asked_within c w v" if "asked_within c w u" "asked_within c u v" for u v
    using that by (auto simp: asked_within_def)
  show ?case
    unfolding autoscale.simps wpM_tryM
    by (rule wpM_conseq [OF Suc.IH])
      (auto simp: wp_simps wpM_tryM split: prod.split
        intro!: wpM_conseq [OF autoscale_check_turn [OF assms]] intro: trans)
qed

section \<open>Properties\<close>

text \<open>
  C30: with limits in order and a step that is not negative, the autoscaler never asks for fewer
  replicas than the minimum nor for more than the maximum, whatever the tools print and answer; it
  scales up only on the second high reading in a row, and down only when the lag is empty.
\<close>

theorem autoscaler_stays_in_range:
  assumes "sane c"
  shows "\<exists>log st v. autoscale c n (start_autoscaler c) w = (Inr (log, st), v) \<and> length log = n \<and>
    in_limits c (replicas st) \<and> list_all (\<lambda>t. in_limits c (snd t)) log \<and> log_justified c log \<and>
    asked_within c w v"
  using wpM_never_errorD [OF autoscale_run [OF assms, of n w]] by (fastforce simp: scaler_inv_def)

text \<open>
  Two gaps outside the theorem: a scaling that fails counts as done, so the number of replicas the
  loop works with is not the number that runs; and a negative step is not rejected.
\<close>

lemma failed_scaling_is_counted:
  "fst (high_check c st (w\<lparr>scale_answer := \<lambda>_. Some err\<rparr>)) = fst (high_check c st (w\<lparr>scale_answer := \<lambda>_. None\<rparr>))"
  by (simp add: high_check_def scaleService_def tryM_def attemptM_def Let_def)

lemma negative_step_escapes:
  assumes "replicas st = as_min c" and "as_min c < as_max c" and "as_step c < 0" and "1 \<le> highCount st"
    and "- (2 ^ 63) \<le> as_min c + as_step c" and "as_max c < 2 ^ 63"
  shows "\<exists>st' v. high_check c st w = (Inr st', v) \<and> replicas st' < as_min c"
proof -
  have "to_int64 (as_min c + as_step c) = as_min c + as_step c"
    using assms by (intro to_int64_id) auto
  with assms show ?thesis
    by (auto simp: high_check_def scaleService_def tryM_def attemptM_def Let_def)
qed

section \<open>Witness\<close>

definition burst :: ops_env where
  "burst = \<lparr>entropy = \<lambda>_ _. 0, drawn = 0, clock = \<lambda>n. int n * Hour, ticks = 0, attempts = \<lambda>_ _. 0, metrics = new_registry,
     cli_output = \<lambda>n. if n < 2 then Inr ''orchestrator orders.created 0 10 910 900 c''
       else Inr ''orchestrator orders.created 0 910 910 0 c'',
     cli_calls = 0, scale_answer = \<lambda>_. None, scaled = []\<rparr>"

lemma autoscaler_stays_in_range_witness:
  "\<exists>log st v. autoscale (autoscaler_settings (\<lambda>_. [])) 3 (start_autoscaler (autoscaler_settings (\<lambda>_. []))) burst =
     (Inr (log, st), v) \<and> length log = 3 \<and> in_limits (autoscaler_settings (\<lambda>_. [])) (replicas st) \<and>
     list_all (\<lambda>t. in_limits (autoscaler_settings (\<lambda>_. [])) (snd t)) log \<and>
     log_justified (autoscaler_settings (\<lambda>_. [])) log \<and>
     asked_within (autoscaler_settings (\<lambda>_. [])) burst v"
  by (rule autoscaler_stays_in_range) (simp add: sane_def autoscaler_settings_def intEnv_def Let_def)

text \<open>The same run, evaluated: two high readings raise the replicas, an idle hour lowers them.\<close>

lemma burst_run:
  "map snd (fst (projr (fst (autoscale (autoscaler_settings (\<lambda>_. [])) 4
     (start_autoscaler (autoscaler_settings (\<lambda>_. []))) burst)))) = [1, 2, 1, 1]"
  by code_simp

end
