(* ===== verification/LoadGenerator.thy ===== *)
theory LoadGenerator
  imports Producer SystemSpec
begin

text \<open>
  The load generator of \<open>cmd/load-generator/main.go\<close>: it publishes a number of new orders in
  batches, on the writer of theory Producer. \<open>slept\<close> lists the waits the rate limit asks for. The
  loop is run with fuel: \<open>None\<close> means that it has not ended yet.
\<close>

record load_env = bus_env +
  slept :: "int list"

record load_flags =
  fl_count :: int
  fl_batch :: int
  fl_prefix :: string
  fl_rate :: int

text \<open>\<open>fmt.Sprintf("%s-%06d", prefix, published)\<close>\<close>

definition load_order_id :: "string \<Rightarrow> nat \<Rightarrow> string" where
  "load_order_id prefix n = prefix @ ''-'' @ zero_pad 6 n"

text \<open>The inner loop with \<open>k\<close> turns left: the number of orders so far and the batch.\<close>

fun fill_batch ::
  "load_flags \<Rightarrow> nat \<Rightarrow> nat \<Rightarrow> kafka_out list \<Rightarrow> ('a load_env_scheme, go_error, nat \<times> kafka_out list) io" where
  "fill_batch fl 0 published msgs = returnM (published, msgs)"
| "fill_batch fl (Suc k) published msgs =
     (if \<not> int published < fl_count fl then returnM (published, msgs)
      else
      (let orderID = load_order_id (fl_prefix fl) published in
      tryM NewEventID (\<lambda>eid.
      tryM time_Now (\<lambda>now.
      let event = \<lparr>EventID = eid, OrderID = orderID, SagaID = orderID, TransactionID = '''',
            StatusAtual = StatusPending, StatusAnterior = NoStatus, EventType = EventOrderCreated,
            SchemaVersion = CurrentSchemaVersion, CreatedAt = now, Metadata = fmempty\<rparr>;
          msg = \<lparr>ko_Topic = TopicOrderCreated, ko_Key = orderID, ko_Value = marshal_event event,
            ko_Headers = []\<rparr>
      in fill_batch fl k (Suc published) (msgs @ [msg])))))"

text \<open>The average rate: how long to wait after \<open>published\<close> orders, given the time that has passed.\<close>

definition rate_wait :: "load_flags \<Rightarrow> nat \<Rightarrow> int \<Rightarrow> int" where
  "rate_wait fl published elapsed = to_int64 (int published * Second) div fl_rate fl - elapsed"

definition time_Sleep :: "int \<Rightarrow> ('a load_env_scheme, go_error, unit) io" where
  "time_Sleep d w = (Inr (), w\<lparr>slept := slept w @ [d]\<rparr>)"

definition keep_rate :: "load_flags \<Rightarrow> int \<Rightarrow> nat \<Rightarrow> ('a load_env_scheme, go_error, unit) io" where
  "keep_rate fl start published =
     (if fl_rate fl > 0 then
        tryM time_Now (\<lambda>now.
        let wait = rate_wait fl published (now - start) in
        if wait > 0 then time_Sleep wait else returnM ())
      else returnM ())"

fun load_loop ::
  "load_flags \<Rightarrow> int \<Rightarrow> nat \<Rightarrow> nat \<Rightarrow> ('a load_env_scheme, go_error, nat option) io" where
  "load_loop fl start 0 published = returnM (if int published < fl_count fl then None else Some published)"
| "load_loop fl start (Suc fuel) published =
     (if \<not> int published < fl_count fl then returnM (Some published)
      else if fl_batch fl < 0 then failM (ErrText ''panic: makeslice: cap out of range'')
      else
      tryM (fill_batch fl (nat (fl_batch fl)) published []) (\<lambda>(published, msgs).
      tryM (writer_WriteMessages msgs) (\<lambda>_.
      tryM (keep_rate fl start published) (\<lambda>_.
      load_loop fl start fuel published))))"

definition load_generator :: "load_flags \<Rightarrow> nat \<Rightarrow> ('a load_env_scheme, go_error, nat option) io" where
  "load_generator fl fuel = tryM time_Now (\<lambda>start. load_loop fl start fuel 0)"

section \<open>Order ids are distinct\<close>

lemma dec_value_zeros: "dec_value (replicate k (CHR ''0'') @ s) 0 = dec_value s 0"
  by (induction k) (simp_all add: digit_value_def)

lemma dec_value_zero_pad: "dec_value (zero_pad k n) 0 = Some (int n)"
  unfolding zero_pad_def dec_value_zeros by (rule dec_value_nat_to_dec)

lemma load_order_id_inj: "load_order_id prefix m = load_order_id prefix n \<longleftrightarrow> m = n"
proof
  assume "load_order_id prefix m = load_order_id prefix n"
  then have "zero_pad 6 m = zero_pad 6 n"
    unfolding load_order_id_def by simp
  then show "m = n"
    by (metis dec_value_zero_pad of_nat_eq_iff option.inject)
qed simp

section \<open>Every order is published once\<close>

text \<open>The message of a new order, as \<open>CreateOrder\<close> publishes it.\<close>

definition creates :: "kafka_out \<Rightarrow> bool" where
  "creates x \<longleftrightarrow> (\<exists>eid now. let m = message_of (created_event eid now (ko_Key x)) in
     ko_Topic x = msg_Topic m \<and> ko_Value x = msg_Payload m)"

text \<open>The writer answers, and what it answers is true.\<close>

definition writer_up :: "'a load_env_scheme \<Rightarrow> bool" where
  "writer_up w \<longleftrightarrow> writer_honest w \<and> (\<forall>n. write_err w n = None)"

definition same_bus :: "'a load_env_scheme \<Rightarrow> 'a load_env_scheme \<Rightarrow> bool" where
  "same_bus w v \<longleftrightarrow> topic_log v = topic_log w \<and> writer_up v = writer_up w"

lemma same_bus_refl [simp]: "same_bus w w"
  by (simp add: same_bus_def)

lemma NewEventID_load [wp_simps]:
  "wpM NewEventID Q E w = Q (event_id_at (entropy w) (drawn w)) (w\<lparr>drawn := Suc (drawn w)\<rparr>)"
  by (simp add: wpM_def NewEventID_run)

lemma time_Now_load [wp_simps]: "wpM time_Now Q E w = Q (clock w (ticks w)) (w\<lparr>ticks := Suc (ticks w)\<rparr>)"
  by (simp add: wpM_def time_Now_def)

lemma same_bus_env [simp]:
  "same_bus w (v\<lparr>drawn := n\<rparr>) = same_bus w v" "same_bus w (v\<lparr>ticks := n\<rparr>) = same_bus w v"
  "same_bus w (v\<lparr>slept := s\<rparr>) = same_bus w v"
  by (simp_all add: same_bus_def writer_up_def writer_honest_def)

lemma same_bus_trans: "same_bus u v \<Longrightarrow> same_bus w u \<Longrightarrow> same_bus w v"
  by (simp add: same_bus_def)

definition filled :: "load_flags \<Rightarrow> nat \<Rightarrow> nat \<Rightarrow> kafka_out list \<Rightarrow> 'a load_env_scheme \<Rightarrow>
    nat \<times> kafka_out list \<Rightarrow> 'a load_env_scheme \<Rightarrow> bool" where
  "filled fl k p0 msgs w r v \<longleftrightarrow> (\<exists>new. snd r = msgs @ new \<and> list_all creates new \<and>
     fst r = p0 + min k (nat (fl_count fl - int p0)) \<and>
     map ko_Key new = map (load_order_id (fl_prefix fl)) [p0..<fst r] \<and> same_bus w v)"

lemma fill_batch_wp: "wpM (fill_batch fl k p0 msgs) (filled fl k p0 msgs w) (\<lambda>_ _. False) w"
proof (induction k arbitrary: p0 msgs w)
  case 0
  then show ?case by (simp add: wp_simps filled_def)
next
  case (Suc k)
  show ?case
  proof (cases "int p0 < fl_count fl")
    case False
    then show ?thesis by (simp add: wp_simps filled_def)
  next
    case True
    let ?w = "w\<lparr>drawn := Suc (drawn w), ticks := Suc (ticks w)\<rparr>"
    let ?e = "created_event (event_id_at (entropy w) (drawn w)) (clock w (ticks w)) (load_order_id (fl_prefix fl) p0)"
    let ?m = "\<lparr>ko_Topic = TopicOrderCreated, ko_Key = load_order_id (fl_prefix fl) p0,
       ko_Value = marshal_event ?e, ko_Headers = []\<rparr>"
    have m: "creates ?m"
      unfolding creates_def Let_def
      by (rule exI [of _ "event_id_at (entropy w) (drawn w)"], rule exI [of _ "clock w (ticks w)"])
        (simp add: message_of_def created_event_def outgoing_def topic_defs)
    have rest: "nat (fl_count fl - int p0) = Suc (nat (fl_count fl - int (Suc p0)))"
      using True by simp
    have upto: "[p0..<Suc p0 + n] = p0 # [Suc p0..<Suc p0 + n]" for n
      by (simp add: upt_conv_Cons)
    have more: "filled fl (Suc k) p0 msgs w r v" if "filled fl k (Suc p0) (msgs @ [?m]) ?w r v" for r v
    proof -
      obtain new where r: "snd r = msgs @ (?m # new)" "list_all creates new"
        "fst r = Suc p0 + min k (nat (fl_count fl - int (Suc p0)))"
        "map ko_Key new = map (load_order_id (fl_prefix fl)) [Suc p0..<fst r]" "same_bus ?w v"
        using \<open>filled fl k (Suc p0) (msgs @ [?m]) ?w r v\<close> by (auto simp: filled_def)
      have "same_bus w v"
        using same_bus_trans [OF r(5), of w] by simp
      then show ?thesis
        unfolding filled_def using r m upto [of "min k (nat (fl_count fl - int (Suc p0)))"] rest
        by (intro exI [of _ "?m # new"]) simp
    qed
    have "wpM (fill_batch fl k (Suc p0) (msgs @ [?m])) (filled fl (Suc k) p0 msgs w) (\<lambda>_ _. False) ?w"
      by (rule wpM_conseq [OF Suc.IH more]) auto
    with True show ?thesis
      by (simp add: wp_simps Let_def created_event_def outgoing_def)
  qed
qed

lemma write_up:
  assumes "writer_up w"
  shows "wpM (writer_WriteMessages msgs) Q E w =
    Q () (w\<lparr>topic_log := topic_log w @ msgs, writes := Suc (writes w)\<rparr>)"
proof -
  have "bus_env.accepted w (writes w) i" for i
    using assms by (simp add: writer_up_def writer_honest_def)
  moreover have "write_err w (writes w) = None"
    using assms by (simp add: writer_up_def)
  ultimately show ?thesis
    by (simp add: wpM_def writer_WriteMessages_def Let_def)
qed

lemma time_Sleep_wp [wp_simps]: "wpM (time_Sleep d) Q E w = Q () (w\<lparr>slept := slept w @ [d]\<rparr>)"
  by (simp add: wpM_def time_Sleep_def)

lemma keep_rate_wp: "wpM (keep_rate fl start p) (\<lambda>_. same_bus w) (\<lambda>_ _. False) w"
  by (simp add: keep_rate_def wp_simps Let_def)

definition published_from :: "load_flags \<Rightarrow> nat \<Rightarrow> 'a load_env_scheme \<Rightarrow> 'a load_env_scheme \<Rightarrow> bool" where
  "published_from fl p w v \<longleftrightarrow> (\<exists>new. topic_log v = topic_log w @ new \<and> list_all creates new \<and>
     map ko_Key new = map (load_order_id (fl_prefix fl)) [p..<nat (fl_count fl)])"

lemma load_loop_wp:
  assumes "1 \<le> fl_batch fl"
  shows "writer_up w \<Longrightarrow> p \<le> nat (fl_count fl) \<Longrightarrow> nat (fl_count fl) \<le> p + fuel \<Longrightarrow>
    wpM (load_loop fl start fuel p)
      (\<lambda>r v. r = Some (nat (fl_count fl)) \<and> published_from fl p w v) (\<lambda>_ _. False) w"
proof (induction fuel arbitrary: p w)
  case 0
  then have "p = nat (fl_count fl)"
    by simp
  then show ?case
    by (auto simp: wp_simps published_from_def)
next
  case (Suc fuel)
  show ?case
  proof (cases "int p < fl_count fl")
    case False
    with Suc.prems have "p = nat (fl_count fl)"
      by simp
    with False show ?thesis
      by (simp add: wp_simps published_from_def)
  next
    case True
    have next_batch: "wpM (load_loop fl start fuel p')
        (\<lambda>r v. r = Some (nat (fl_count fl)) \<and> published_from fl p w v) (\<lambda>_ _. False) u'"
      if f: "filled fl (nat (fl_batch fl)) p [] w (p', msgs) u"
        and u': "same_bus (u\<lparr>topic_log := topic_log u @ msgs, writes := Suc (writes u)\<rparr>) u'"
      for p' msgs u u'
    proof -
      have p': "p' = p + min (nat (fl_batch fl)) (nat (fl_count fl - int p))"
        and msgs: "list_all creates msgs" "map ko_Key msgs = map (load_order_id (fl_prefix fl)) [p..<p']"
        and u: "same_bus w u"
        using f by (auto simp: filled_def)
      have bounds: "p < p'" "p' \<le> nat (fl_count fl)"
        using p' assms True by (auto simp: min_def)
      have up: "writer_up u'" and log: "topic_log u' = topic_log w @ msgs"
        using u u' Suc.prems(1) by (auto simp: same_bus_def writer_up_def writer_honest_def)
      have "published_from fl p w v" if v: "published_from fl p' u' v" for v
      proof -
        obtain new where "topic_log v = topic_log u' @ new" "list_all creates new"
          "map ko_Key new = map (load_order_id (fl_prefix fl)) [p'..<nat (fl_count fl)]"
          using v by (auto simp: published_from_def)
        moreover have "[p..<nat (fl_count fl)] = [p..<p'] @ [p'..<nat (fl_count fl)]"
          using bounds upt_add_eq_append [of p p' "nat (fl_count fl) - p'"] by simp
        ultimately show ?thesis
          unfolding published_from_def using msgs log by (intro exI [of _ "msgs @ new"]) simp
      qed
      then show ?thesis
        using wpM_conseq [OF Suc.IH [OF up bounds(2)]] bounds Suc.prems(3) by simp
    qed
    have written: "wpM (tryM (writer_WriteMessages msgs) (\<lambda>_. tryM (keep_rate fl start p') (\<lambda>_. load_loop fl start fuel p')))
        (\<lambda>r v. r = Some (nat (fl_count fl)) \<and> published_from fl p w v) (\<lambda>_ _. False) u"
      if f: "filled fl (nat (fl_batch fl)) p [] w (p', msgs) u" for p' msgs u
    proof -
      have "writer_up u"
        using f Suc.prems(1) by (auto simp: filled_def same_bus_def)
      then show ?thesis
        by (auto simp: wpM_tryM write_up intro!: wpM_conseq [OF keep_rate_wp] next_batch [OF f])
    qed
    show ?thesis
      using True assms written
      by (auto simp: wpM_tryM wpM_if intro!: wpM_conseq [OF fill_batch_wp])
  qed
qed

lemma load_loop_stuck:
  assumes "fl_batch fl = 0" and "int p < fl_count fl"
  shows "writer_up w \<Longrightarrow> wpM (load_loop fl start fuel p)
    (\<lambda>r v. r = None \<and> topic_log v = topic_log w) (\<lambda>_ _. False) w"
proof (induction fuel arbitrary: w)
  case 0
  with assms show ?case by (simp add: wp_simps)
next
  case (Suc fuel)
  have "wpM (load_loop fl start fuel p) (\<lambda>r v. r = None \<and> topic_log v = topic_log w) (\<lambda>_ _. False) u"
    if "same_bus (w\<lparr>writes := Suc (writes w)\<rparr>) u" for u
  proof -
    have "writer_up u" "topic_log u = topic_log w"
      using that Suc.prems by (auto simp: same_bus_def writer_up_def writer_honest_def)
    then show ?thesis
      using Suc.IH [of u] by simp
  qed
  then show ?case
    using assms Suc.prems by (auto simp: wpM_tryM wpM_returnM write_up intro!: wpM_conseq [OF keep_rate_wp])
qed

section \<open>Properties\<close>

text \<open>
  C31: with a batch of at least one and a writer that answers, the load generator ends and puts
  each of its orders on the bus exactly once, in order, under distinct keys, each with the message
  of a new order; with a batch of zero it never ends and publishes nothing.
\<close>

theorem load_generator_publishes_each_order_once:
  assumes "writer_up w"
  shows "if 1 \<le> fl_batch fl
    then \<exists>v new. load_generator fl (nat (fl_count fl)) w = (Inr (Some (nat (fl_count fl))), v) \<and>
      topic_log v = topic_log w @ new \<and> list_all creates new \<and> distinct (map ko_Key new) \<and>
      map ko_Key new = map (load_order_id (fl_prefix fl)) [0..<nat (fl_count fl)]
    else fl_batch fl = 0 \<and> 0 < fl_count fl \<longrightarrow>
      (\<forall>fuel. \<exists>v. load_generator fl fuel w = (Inr None, v) \<and> topic_log v = topic_log w)"
proof -
  let ?u = "w\<lparr>ticks := Suc (ticks w)\<rparr>"
  have up: "writer_up ?u"
    using assms by (simp add: writer_up_def writer_honest_def)
  have run: "load_generator fl fuel w = load_loop fl (clock w (ticks w)) fuel 0 ?u" for fuel
    by (simp add: load_generator_def tryM_def time_Now_def)
  have ids: "distinct (map (load_order_id (fl_prefix fl)) ns)" if "distinct ns" for ns
    using that by (simp add: distinct_map inj_on_def load_order_id_inj)
  have ends: "\<exists>v new. load_generator fl (nat (fl_count fl)) w = (Inr (Some (nat (fl_count fl))), v) \<and>
      topic_log v = topic_log w @ new \<and> list_all creates new \<and> distinct (map ko_Key new) \<and>
      map ko_Key new = map (load_order_id (fl_prefix fl)) [0..<nat (fl_count fl)]" if "1 \<le> fl_batch fl"
    using wpM_never_errorD [OF load_loop_wp [OF that up, of 0 "nat (fl_count fl)" "clock w (ticks w)"]] ids
    by (auto simp: run published_from_def)
  have stuck: "\<exists>v. load_generator fl fuel w = (Inr None, v) \<and> topic_log v = topic_log w"
    if "fl_batch fl = 0" "0 < fl_count fl" for fuel
    using wpM_never_errorD [OF load_loop_stuck [OF that(1) _ up, of 0 "clock w (ticks w)" fuel]] that(2)
    by (auto simp: run)
  show ?thesis
    using ends stuck by simp
qed

section \<open>Witness\<close>

definition load_world :: load_env where
  "load_world = \<lparr>entropy = \<lambda>_ _. 0, drawn = 0, clock = \<lambda>n. int n, ticks = 0, attempts = \<lambda>_ _. 0, metrics = new_registry,
     sagas_table = \<lambda>_. None, saga_events_table = [], outbox_table = [], outbox_seq = 0,
     traceparent = [], plan = \<lambda>_. NoFault, calls = 0, db_clock = \<lambda>_. 0, row_locks = \<lambda>_. [],
     scan_rank = \<lambda>_ _. 0, topic_log = [], writes = 0, write_err = \<lambda>_. None, accepted = \<lambda>_ _. True,
     slept = []\<rparr>"

lemma load_ids: "map (load_order_id ''load'') [0..<3] = [''load-000000'', ''load-000001'', ''load-000002'']"
  by code_simp

lemma load_generator_publishes_each_order_once_witness:
  "\<exists>v. load_generator \<lparr>fl_count = 3, fl_batch = 2, fl_prefix = ''load'', fl_rate = 0\<rparr> 3 load_world = (Inr (Some 3), v) \<and>
     map ko_Key (topic_log v) = [''load-000000'', ''load-000001'', ''load-000002'']"
proof -
  have "writer_up load_world" "topic_log load_world = []"
    by (simp_all add: load_world_def writer_up_def writer_honest_def)
  with load_generator_publishes_each_order_once [of load_world
      "\<lparr>fl_count = 3, fl_batch = 2, fl_prefix = ''load'', fl_rate = 0\<rparr>"] load_ids
  show ?thesis
    by auto
qed

end
