(* ===== verification/Monitoring.thy ===== *)
theory Monitoring
  imports OrchestratorCorrect
begin

text \<open>
  The metrics exporter (\<open>cmd/metrics-exporter/main.go\<close>) over the gauges of
  \<open>internal/infrastructure/metrics/metrics.go\<close>.

  The answers of the database and of the Kafka admin client are
  arguments of the refresh functions. A query gives its rows one by one: each can fail to be read
  (\<open>rows.Scan\<close>), and the iteration can break off early with an error that \<open>rows.Err()\<close> would tell.
\<close>

section \<open>Sagas\<close>

definition allSagaStatuses :: "string list" where
  "allSagaStatuses =
     [''PENDING'', ''PAYMENT_PENDING'', ''PAYMENT_APPROVED'', ''PAYMENT_REFUND_PENDING'',
      ''INVENTORY_RESERVED'', ''NOTIFIED'', ''COMPLETED'', ''PAYMENT_REFUNDED'', ''RETRYING'', ''FAILED'']"

text \<open>The answer of a query: an error, or the rows and the error that ended them early.\<close>

type_synonym 'a rows = "go_error + (go_error + 'a) list \<times> go_error option"

fun scan_counts :: "(go_error + string \<times> int) list \<Rightarrow> (string \<Rightarrow> int) \<Rightarrow> (string \<Rightarrow> int) option" where
  "scan_counts [] counts = Some counts"
| "scan_counts (Inl err # rows) counts = None"
| "scan_counts (Inr (status, n) # rows) counts = scan_counts rows (counts(status := n))"

definition set_status :: "(string \<Rightarrow> int) \<Rightarrow> string \<Rightarrow> registry \<Rightarrow> registry" where
  "set_status counts s m =
     (let m = SetOrdersByStatus s (counts s) m in
      if s = ''COMPLETED'' \<or> s = ''FAILED'' then m else SetOrdersPending s (counts s) m)"

text \<open>A Go map gives zero for a missing key, so the counts start as the zero function.\<close>

definition refreshSagas :: "(string \<times> int) rows \<Rightarrow> registry \<Rightarrow> registry" where
  "refreshSagas answer m =
     (case answer of
        Inl err \<Rightarrow> m
      | Inr (rows, _) \<Rightarrow>
          (case scan_counts rows (\<lambda>_. 0) of
             None \<Rightarrow> m
           | Some counts \<Rightarrow>
               (let m = ResetOrdersByStatus (ResetOrdersPending m);
                    m = fold (set_status counts) allSagaStatuses m
                in SetOrdersFailed (counts ''FAILED'') (SetOrdersCompleted (counts ''COMPLETED'') m))))"

fun set_ages :: "(go_error + string \<times> int) list \<Rightarrow> registry \<Rightarrow> registry" where
  "set_ages [] m = m"
| "set_ages (Inl err # rows) m = m"
| "set_ages (Inr (status, age) # rows) m = set_ages rows (SetSagaMaxAge status age m)"

definition refreshSagaAges :: "(string \<times> int) rows \<Rightarrow> registry \<Rightarrow> registry" where
  "refreshSagaAges answer m =
     (case answer of Inl err \<Rightarrow> m | Inr (rows, _) \<Rightarrow> set_ages rows (ResetSagaMaxAge m))"

definition refreshOutboxAge :: "go_error + int \<Rightarrow> registry \<Rightarrow> registry" where
  "refreshOutboxAge answer m = (case answer of Inl err \<Rightarrow> m | Inr age \<Rightarrow> SetOutboxMaxAge age m)"

section \<open>Lag and dead letters\<close>

definition consumerGroups :: "string list" where
  "consumerGroups = [''orchestrator'', ''worker-payment'', ''worker-inventory'',
     ''worker-notification'', ''projector'', ''order-status'']"

definition flowPartitions :: "int list" where
  "flowPartitions = [0, 1, 2, 3]"

definition flowDLQTopics :: "string list" where
  "flowDLQTopics = map DLQTopicFor FlowTopics"

record partition_end =
  pe_Partition :: int
  pe_LastOffset :: int
  pe_Error :: "go_error option"

record partition_commit =
  pc_Partition :: int
  pc_CommittedOffset :: int

text \<open>The contribution of one pair of the two loops over the partitions.\<close>

definition partition_lag :: "partition_end \<Rightarrow> partition_commit \<Rightarrow> int" where
  "partition_lag ep cp =
     (if pc_Partition cp = pe_Partition ep then
        (if pc_CommittedOffset cp \<ge> 0 \<and> pe_LastOffset ep > pc_CommittedOffset cp
         then pe_LastOffset ep - pc_CommittedOffset cp else 0)
      else 0)"

definition topic_lag :: "partition_end list \<Rightarrow> partition_commit list \<Rightarrow> int" where
  "topic_lag ends commits = sum_list (map (\<lambda>ep. sum_list (map (partition_lag ep) commits)) ends)"

definition group_lags ::
  "(string \<Rightarrow> partition_end list) \<Rightarrow> string \<Rightarrow> (string \<Rightarrow> partition_commit list) \<Rightarrow> registry \<Rightarrow> registry" where
  "group_lags ends grp commits m =
     fold (\<lambda>topic. SetConsumerLag grp topic (topic_lag (ends topic) (commits topic))) FlowTopics m"

definition refreshConsumerLag ::
  "go_error + (string \<Rightarrow> partition_end list) \<Rightarrow>
     (string \<Rightarrow> go_error + (string \<Rightarrow> partition_commit list)) \<Rightarrow> registry \<Rightarrow> registry" where
  "refreshConsumerLag end_answer fetch_answer m =
     (case end_answer of
        Inl err \<Rightarrow> m
      | Inr ends \<Rightarrow>
          fold (\<lambda>grp m. case fetch_answer grp of Inl err \<Rightarrow> m | Inr commits \<Rightarrow> group_lags ends grp commits m)
            consumerGroups m)"

definition refreshDLQDepth :: "go_error + (string \<Rightarrow> partition_end list option) \<Rightarrow> registry \<Rightarrow> registry" where
  "refreshDLQDepth answer m =
     (case answer of
        Inl err \<Rightarrow> m
      | Inr topics \<Rightarrow>
          fold (\<lambda>dlq m. case topics dlq of
              None \<Rightarrow> m
            | Some parts \<Rightarrow> fold (\<lambda>p m. if pe_Partition p = 0 \<and> pe_Error p = None
                then SetDLQDepth dlq (pe_LastOffset p) m else m) parts m)
            flowDLQTopics m)"

section \<open>What the queries answer\<close>

definition sagas_in :: "'a pgenv_scheme \<Rightarrow> string \<Rightarrow> string set" where
  "sagas_in w status = {oid. \<exists>r. sagas_table w oid = Some r \<and> status_text (sr_current_status r) = status}"

text \<open>\<open>SELECT current_status, count(*) FROM sagas GROUP BY current_status\<close>, in any order.\<close>

definition status_counts :: "'a pgenv_scheme \<Rightarrow> (string \<times> int) list \<Rightarrow> bool" where
  "status_counts w rows \<longleftrightarrow> distinct (map fst rows) \<and>
     (\<forall>status n. (status, n) \<in> set rows \<longleftrightarrow> sagas_in w status \<noteq> {} \<and> n = int (card (sagas_in w status)))"

text \<open>
  The query of \<open>refreshSagaAges\<close> over the status and creation time of the sagas: per status that is
  not terminal, the time since \<open>MAX(created_at)\<close>.
\<close>

definition status_ages :: "(string \<times> int) list \<Rightarrow> int \<Rightarrow> (string \<times> int) list \<Rightarrow> bool" where
  "status_ages table now rows \<longleftrightarrow> distinct (map fst rows) \<and>
     (\<forall>status age. (status, age) \<in> set rows \<longleftrightarrow>
        status \<notin> {''COMPLETED'', ''FAILED''} \<and> status \<in> fst ` set table \<and>
        age = now - Max {t. (status, t) \<in> set table})"

section \<open>Facts about the refresh\<close>

lemma scan_counts_rows:
  "distinct (map fst rows) \<Longrightarrow>
     scan_counts (map Inr rows) c = Some (\<lambda>s. case map_of rows s of Some n \<Rightarrow> n | None \<Rightarrow> c s)"
  by (induction rows arbitrary: c) (force simp: fun_eq_iff dest: map_of_SomeD split: option.split)+

lemma counts_of_table:
  assumes "status_counts w rows"
  shows "scan_counts (map Inr rows) (\<lambda>_. 0) = Some (\<lambda>s. int (card (sagas_in w s)))"
proof -
  have dist: "distinct (map fst rows)"
    and rows: "(status, n) \<in> set rows \<longleftrightarrow> sagas_in w status \<noteq> {} \<and> n = int (card (sagas_in w status))" for status n
    using assms by (auto simp: status_counts_def)
  have "(case map_of rows s of Some n \<Rightarrow> n | None \<Rightarrow> 0) = int (card (sagas_in w s))" for s
  proof (cases "map_of rows s")
    case None
    then have "sagas_in w s = {}"
      using rows [of s "int (card (sagas_in w s))"] by (auto simp: map_of_eq_None_iff image_iff)
    with None show ?thesis by simp
  next
    case (Some n)
    with rows [of s n] show ?thesis
      by (auto dest: map_of_SomeD)
  qed
  then show ?thesis
    by (simp add: scan_counts_rows [OF dist])
qed

lemma fold_set_status:
  "ordersByStatus (fold (set_status c) ss m) s = (if s \<in> set ss then Some (c s) else ordersByStatus m s)"
  "ordersPending (fold (set_status c) ss m) s =
     (if s \<in> set ss \<and> s \<noteq> ''COMPLETED'' \<and> s \<noteq> ''FAILED'' then Some (c s) else ordersPending m s)"
  by (induction ss arbitrary: m) (auto simp: set_status_def gauge_defs Let_def)

lemma refreshSagas_gauges:
  assumes "status_counts w rows" and "v = refreshSagas (Inr (map Inr rows, err)) m"
  shows "ordersByStatus v = (\<lambda>s. if s \<in> set allSagaStatuses then Some (int (card (sagas_in w s))) else None)"
    and "ordersPending v = (\<lambda>s. if s \<in> set allSagaStatuses - {''COMPLETED'', ''FAILED''}
      then Some (int (card (sagas_in w s))) else None)"
    and "ordersCompleted v = int (card (sagas_in w ''COMPLETED''))"
    and "ordersFailed v = int (card (sagas_in w ''FAILED''))"
  by (auto simp: fun_eq_iff assms(2) refreshSagas_def counts_of_table [OF assms(1)] Let_def fold_set_status
      SetOrdersFailed_def SetOrdersCompleted_def ResetOrdersByStatus_def ResetOrdersPending_def)

text \<open>In the runs of the orchestrator every saga has a known status, and there are finitely many.\<close>

lemma saga_status_listed: "saga_ok maxR s \<Longrightarrow> status_text (Current s) \<in> set allSagaStatuses"
  by (auto simp: saga_ok_def live_status_def terminal_status_def allSagaStatuses_def)

lemma run_sagas:
  assumes "orch_run maxR w0 w" and "pg_view w0 = empty_db" and "distinct_ids w0 w"
  shows "finite (dom (sagas_table w))" and "dom (sagas_table w) = (\<Union>s \<in> set allSagaStatuses. sagas_in w s)"
proof -
  have saga: "saga_ok maxR (saga_of_row oid r) \<and> oid \<in> msg_Key ` set (a_out (pg_view w))"
    if "sagas_table w oid = Some r" for oid r
  proof -
    have "a_sagas (pg_view w) oid = Some (saga_of_row oid r)"
      using that by (simp add: pg_view_def)
    then have ok: "saga_ok maxR (saga_of_row oid r)"
      and "\<exists>ms ev. sent oid (pg_view w) = ms @ [message_of ev]"
      using orch_run_inv [OF assms, of oid] by (auto simp: order_inv_def)
    then obtain m where "m \<in> set (sent oid (pg_view w))"
      by fastforce
    with ok show ?thesis
      by (auto simp: sent_def)
  qed
  then have "dom (sagas_table w) \<subseteq> msg_Key ` set (a_out (pg_view w))"
    by blast
  then show "finite (dom (sagas_table w))"
    by (rule finite_subset) simp
  have "status_text (sr_current_status r) \<in> set allSagaStatuses" if "sagas_table w oid = Some r" for oid r
    using saga_status_listed [of maxR "saga_of_row oid r"] saga [OF that] by (simp add: saga_of_row_def)
  then show "dom (sagas_table w) = (\<Union>s \<in> set allSagaStatuses. sagas_in w s)"
    by (fastforce simp: sagas_in_def)
qed

lemma card_sagas:
  assumes "orch_run maxR w0 w" and "pg_view w0 = empty_db" and "distinct_ids w0 w"
  shows "card (dom (sagas_table w)) = (\<Sum>s \<in> set allSagaStatuses. card (sagas_in w s))"
proof -
  have "finite (sagas_in w s)" for s
    by (rule finite_subset [OF _ run_sagas(1) [OF assms]]) (auto simp: sagas_in_def)
  then show ?thesis
    unfolding run_sagas(2) [OF assms] by (intro card_UN_disjoint) (auto simp: sagas_in_def)
qed

section \<open>Ages and lags\<close>

lemma set_ages_rows:
  "sagaMaxAge (set_ages (map Inr rows) m) s =
     (case map_of (rev rows) s of Some age \<Rightarrow> Some age | None \<Rightarrow> sagaMaxAge m s)"
  by (induction rows arbitrary: m) (auto simp: gauge_defs map_add_def split: option.split)

text \<open>
  The gauge named after the oldest saga of a status carries the age of the youngest: it is at most
  the age of every saga in the status.
\<close>

lemma age_is_of_the_youngest:
  assumes "status_ages table now rows" and "v = refreshSagaAges (Inr (map Inr rows, err)) m"
    and "sagaMaxAge v status = Some age" and "(status, t) \<in> set table"
  shows "age \<le> now - t"
proof -
  have "map_of (rev rows) status = Some age"
    using assms(2,3) by (simp add: refreshSagaAges_def set_ages_rows ResetSagaMaxAge_def split: option.splits)
  then have "(status, age) \<in> set rows"
    using map_of_SomeD by fastforce
  then have age: "age = now - Max {t. (status, t) \<in> set table}"
    using assms(1) by (auto simp: status_ages_def)
  have "finite {t. (status, t) \<in> set table}"
    by (rule finite_subset [of _ "snd ` set table"]) force+
  then have "t \<le> Max {t. (status, t) \<in> set table}"
    using assms(4) by (intro Max_ge) simp_all
  with age show ?thesis
    by simp
qed

text \<open>Two sagas waiting for an hour and for a minute: the gauge says a minute.\<close>

lemma age_of_two_sagas:
  "status_ages [(''PAYMENT_PENDING'', 0), (''PAYMENT_PENDING'', 59)] 60 [(''PAYMENT_PENDING'', 1)] \<and>
   sagaMaxAge (refreshSagaAges (Inr (map Inr [(''PAYMENT_PENDING'', 1)], None)) m) ''PAYMENT_PENDING'' = Some 1"
proof -
  have "{t :: int. t = 0 \<or> t = 59} = {0, 59}"
    by auto
  then show ?thesis
    by (auto simp: status_ages_def refreshSagaAges_def gauge_defs)
qed

text \<open>Rows that were never read are not missed: the error that ended them early is not looked at.\<close>

lemma truncated_answers_pass:
  "refreshSagas (Inr (rows, Some err)) m = refreshSagas (Inr (rows, None)) m"
  by (simp add: refreshSagas_def)

lemma partition_lag_nonneg: "0 \<le> partition_lag ep cp"
  by (simp add: partition_lag_def)

lemma topic_lag_nonneg: "0 \<le> topic_lag ends commits"
  by (auto simp: topic_lag_def intro!: sum_list_nonneg partition_lag_nonneg)

text \<open>A group that has never committed shows no lag, however much it has not read.\<close>

lemma new_group_has_no_lag:
  "\<forall>cp \<in> set commits. pc_CommittedOffset cp < 0 \<Longrightarrow> topic_lag ends commits = 0"
proof -
  assume "\<forall>cp \<in> set commits. pc_CommittedOffset cp < 0"
  then have "sum_list (map (partition_lag ep) commits) = 0" for ep
    by (induction commits) (auto simp: partition_lag_def)
  then show ?thesis
    by (simp add: topic_lag_def)
qed

section \<open>Properties\<close>

text \<open>
  C27: after a refresh, whatever the gauges held before, each status has the gauge with the number
  of its sagas and no other gauge is left; in every run of the orchestrator these gauges account for
  every saga in the database, and so do the pending, completed and failed ones together.
\<close>

theorem gauges_account_for_every_saga:
  assumes "orch_run maxR w0 w" and "pg_view w0 = empty_db" and "distinct_ids w0 w"
    and "status_counts w rows" and "v = refreshSagas (Inr (map Inr rows, None)) m"
  shows "ordersByStatus v =
      (\<lambda>s. if s \<in> set allSagaStatuses then Some (int (card (sagas_in w s))) else None) \<and>
    sum_list (map (\<lambda>s. the (ordersByStatus v s)) allSagaStatuses) = int (card (dom (sagas_table w))) \<and>
    dom (ordersPending v) = set allSagaStatuses - {''COMPLETED'', ''FAILED''} \<and>
    (\<Sum>s \<in> dom (ordersPending v). the (ordersPending v s)) + ordersCompleted v + ordersFailed v =
      int (card (dom (sagas_table w)))"
proof -
  note gauges = refreshSagas_gauges [OF assms(4,5)]
  have dist: "distinct allSagaStatuses"
    by (simp add: allSagaStatuses_def)
  have total: "int (card (dom (sagas_table w))) = (\<Sum>s \<in> set allSagaStatuses. int (card (sagas_in w s)))"
    using card_sagas [OF assms(1-3)] by simp
  have pending: "dom (ordersPending v) = set allSagaStatuses - {''COMPLETED'', ''FAILED''}"
    unfolding gauges(2) by (auto simp: dom_def split: if_splits)
  have both: "{''COMPLETED'', ''FAILED''} \<subseteq> set allSagaStatuses"
    by (simp add: allSagaStatuses_def)
  have "(\<Sum>s \<in> dom (ordersPending v). the (ordersPending v s)) =
      (\<Sum>s \<in> set allSagaStatuses - {''COMPLETED'', ''FAILED''}. int (card (sagas_in w s)))"
    unfolding pending by (rule sum.cong) (simp_all add: gauges(2))
  then have "(\<Sum>s \<in> dom (ordersPending v). the (ordersPending v s)) + ordersCompleted v + ordersFailed v =
      (\<Sum>s \<in> set allSagaStatuses. int (card (sagas_in w s)))"
    using sum.subset_diff [OF both, of "\<lambda>s. int (card (sagas_in w s))"] gauges(3,4) by simp
  moreover have "sum_list (map (\<lambda>s. the (ordersByStatus v s)) allSagaStatuses) =
      (\<Sum>s \<in> set allSagaStatuses. int (card (sagas_in w s)))"
    using dist by (simp add: sum_list_distinct_conv_sum_set gauges(1))
  ultimately show ?thesis
    using gauges(1) pending total by simp
qed

lemma two_steps_counts: "status_counts two_steps [(''PAYMENT_APPROVED'', 1)]"
proof -
  have "sagas_table two_steps oid = (if oid = ''o'' then Some \<lparr>sr_saga_id = ''o'',
      sr_current_status = StatusPaymentApproved, sr_previous_status = StatusPaymentPending,
      sr_retry_count = 0, sr_transaction_id = Some ''tx-1''\<rparr> else None)" for oid
    by (simp add: two_steps_def run_defs journal_row_of_def pg_view_def)
  then have "sagas_in two_steps status = (if status = ''PAYMENT_APPROVED'' then {''o''} else {})" for status
    by (auto simp: sagas_in_def)
  then show ?thesis
    by (auto simp: status_counts_def)
qed

lemma gauges_account_for_every_saga_witness:
  "dom (ordersPending (refreshSagas (Inr ([Inr (''PAYMENT_APPROVED'', 1)], None))
     (new_registry\<lparr>ordersPending := (\<lambda>_. Some 7)\<rparr>))) =
     set allSagaStatuses - {''COMPLETED'', ''FAILED''}"
  using gauges_account_for_every_saga [OF two_steps_run _ two_steps_ids two_steps_counts refl] by simp

end
