(* ===== verification/Counters.thy ===== *)
theory Counters
  imports Services
begin

text \<open>
  What the counters of \<open>metrics.go\<close> count: those of a consuming goroutine against the calls it has
  made, and those of the outbox publisher against the rows of the outbox.
\<close>

section \<open>The counters of a consumer\<close>

definition calls_where :: "(call \<Rightarrow> bool) \<Rightarrow> call list \<Rightarrow> nat" where
  "calls_where P cs = length (filter P cs)"

lemma calls_where_simps [simp]:
  "calls_where P [] = 0"
  "calls_where P (c # cs) = (if P c then Suc (calls_where P cs) else calls_where P cs)"
  "calls_where P (cs @ ds) = calls_where P cs + calls_where P ds"
  by (simp_all add: calls_where_def)

text \<open>A run of the handler on an event of type \<open>t\<close>, with success or with an error.\<close>

fun handled_ok :: "string \<Rightarrow> call \<Rightarrow> bool" where
  "handled_ok t (Handle e None) = (event_type_text (EventType e) = t)"
| "handled_ok t _ = False"

fun handled_err :: "string \<Rightarrow> call \<Rightarrow> bool" where
  "handled_err t (Handle e (Some err)) = (event_type_text (EventType e) = t)"
| "handled_err t _ = False"

fun dead_lettered :: "string \<Rightarrow> call \<Rightarrow> bool" where
  "dead_lettered topic (WriteDLQ copy None) = (km_Topic copy = DLQTopicFor topic)"
| "dead_lettered topic _ = False"

definition opened :: "call \<Rightarrow> bool" where
  "opened c = (case c of OpenReader r \<Rightarrow> True | _ \<Rightarrow> False)"

text \<open>The counters of the service \<open>name\<close> have gone from \<open>m\<close> to \<open>m'\<close> during the calls \<open>cs\<close>.\<close>

definition tallied :: "string \<Rightarrow> call list \<Rightarrow> registry \<Rightarrow> registry \<Rightarrow> bool" where
  "tallied name cs m m' \<longleftrightarrow>
     (\<forall>t. eventsProcessed m' (name, t) = eventsProcessed m (name, t) + calls_where (handled_ok t) cs \<and>
        eventsFailed m' (name, t) = eventsFailed m (name, t) + calls_where (handled_err t) cs \<and>
        eventsReceived m' (name, t) = eventsReceived m (name, t) +
          calls_where (handled_ok t) cs + calls_where (handled_err t) cs) \<and>
     (\<forall>topic. eventsDLQ m' topic = eventsDLQ m topic + calls_where (dead_lettered topic) cs) \<and>
     consumerReconnects m' name = consumerReconnects m name + calls_where opened cs"

definition counted :: "string \<Rightarrow> 'w kafka_env \<Rightarrow> 'w kafka_env \<Rightarrow> bool" where
  "counted name w0 w \<longleftrightarrow> (\<exists>cs. trace w = trace w0 @ cs \<and> tallied name cs (metrics w0) (metrics w))"

lemma counted_refl: "counted name w w"
  by (simp add: counted_def tallied_def)

lemma counted_trans:
  assumes "counted name w0 w" and "trace v = trace w @ cs" and "tallied name cs (metrics w) (metrics v)"
  shows "counted name w0 v"
proof -
  obtain ds where "trace w = trace w0 @ ds" "tallied name ds (metrics w0) (metrics w)"
    using assms(1) by (auto simp: counted_def)
  with assms(2,3) have "trace v = trace w0 @ ds @ cs" "tallied name (ds @ cs) (metrics w0) (metrics v)"
    by (simp_all add: tallied_def)
  then show ?thesis
    unfolding counted_def by blast
qed

lemmas tally_defs = tallied_def counter_defs Incr_apply opened_def dlq_copy_def DLQTopicFor_inj

lemma consumer_step_counted:
  assumes "counted (serviceName c) w0 w"
  shows "wpM (consumer_step c h l) (\<lambda>_. counted (serviceName c) w0) (\<lambda>_. counted (serviceName c) w0) w"
proof (cases "fetch_plan w (length (trace w))")
  case FetchCancelled
  then show ?thesis
    by (auto simp: consumer_step_def reconnect_def flush_def wp_simps Let_def tally_defs
        intro!: counted_trans [OF assms])
next
  case (FetchError err)
  then show ?thesis
    by (auto simp: consumer_step_def flush_def wp_simps Let_def tally_defs
        intro!: counted_trans [OF assms] split: option.split)
next
  case (Fetched m)
  show ?thesis
  proof (cases "decode (km_Value m)")
    case (Inl derr)
    with Fetched show ?thesis
      by (auto simp: consumer_step_def moveToDLQ_def wp_simps Let_def tally_defs
          intro!: counted_trans [OF assms] split: option.split)
  next
    case (Inr e)
    with Fetched show ?thesis
      by (auto simp: consumer_step_def moveToDLQ_def flush_def validateSchemaVersion_def wp_simps Let_def
          tally_defs intro!: counted_trans [OF assms] split: option.split sum.split)
  qed
qed

lemma consumer_loop_counted:
  "counted (serviceName c) w0 w \<Longrightarrow>
     wpM (consumer_loop c h n l) (\<lambda>_. counted (serviceName c) w0) (\<lambda>_. counted (serviceName c) w0) w"
proof (induction n arbitrary: l w)
  case 0
  then show ?case by (simp add: wp_simps)
next
  case (Suc n)
  show ?case
    unfolding consumer_loop.simps wpM_tryM
    by (rule wpM_conseq [OF consumer_step_counted [OF Suc.prems] Suc.IH])
qed

section \<open>The counters of the outbox\<close>

definition terminal_rows :: "outbox_row list \<Rightarrow> nat" where
  "terminal_rows rows = length (filter (\<lambda>r. oe_Topic r = TopicOrderStatus) rows)"

definition terminals :: "registry \<Rightarrow> nat" where
  "terminals m = ordersTerminal m ''COMPLETED'' + ordersTerminal m ''FAILED''"

text \<open>From \<open>w\<close> to \<open>v\<close> the counters have grown at least as much as the outbox.\<close>

definition grown :: "'a pgenv_scheme \<Rightarrow> 'a pgenv_scheme \<Rightarrow> bool" where
  "grown w v \<longleftrightarrow> outboxGenerated (metrics w) \<le> outboxGenerated (metrics v) \<and>
     terminals (metrics w) \<le> terminals (metrics v)"

definition ahead :: "'a pgenv_scheme \<Rightarrow> 'a pgenv_scheme \<Rightarrow> bool" where
  "ahead w v \<longleftrightarrow> grown w v \<and>
     length (outbox_table v) + outboxGenerated (metrics w) \<le> length (outbox_table w) + outboxGenerated (metrics v) \<and>
     terminal_rows (outbox_table v) + terminals (metrics w) \<le> terminal_rows (outbox_table w) + terminals (metrics v)"

text \<open>An action of a transaction: when it fails, its rows will be rolled back.\<close>

definition keeps_ahead :: "('a pgenv_scheme, 'e, 'b) io \<Rightarrow> bool" where
  "keeps_ahead m \<longleftrightarrow> (\<forall>w. wpM m (\<lambda>_. ahead w) (\<lambda>_. grown w) w)"

lemma ahead_trans: "ahead w v \<Longrightarrow> ahead v u \<Longrightarrow> ahead w u"
  by (auto simp: ahead_def grown_def)

lemma grown_trans: "ahead w v \<Longrightarrow> grown v u \<Longrightarrow> grown w u"
  by (auto simp: ahead_def grown_def)

lemma ahead_same: "outbox_table v = outbox_table w \<Longrightarrow> metrics v = metrics w \<Longrightarrow> ahead w v"
  by (simp add: ahead_def grown_def)

named_theorems ahead_rules \<open>actions that keep the counters ahead of the outbox\<close>

lemma keeps_ahead_basic [ahead_rules]:
  "keeps_ahead (returnM x)" "keeps_ahead (failM e)" "keeps_ahead NewEventID" "keeps_ahead time_Now"
  by (simp_all add: keeps_ahead_def wp_simps ahead_same, simp add: grown_def)

lemma keeps_ahead_tryM [ahead_rules]:
  assumes "keeps_ahead m" and "\<And>x. keeps_ahead (f x)"
  shows "keeps_ahead (tryM m f)"
  unfolding keeps_ahead_def wpM_tryM
proof
  fix w
  show "wpM m (\<lambda>x. wpM (f x) (\<lambda>_. ahead w) (\<lambda>_. grown w)) (\<lambda>_. grown w) w"
  proof (rule wpM_conseq [OF assms(1) [unfolded keeps_ahead_def, rule_format]])
    fix x v
    assume "ahead w v"
    then show "wpM (f x) (\<lambda>_. ahead w) (\<lambda>_. grown w) v"
      by (intro wpM_conseq [OF assms(2) [unfolded keeps_ahead_def, rule_format]])
        (auto intro: ahead_trans grown_trans)
  qed simp
qed

lemma keeps_ahead_wrapM [ahead_rules]: "keeps_ahead m \<Longrightarrow> keeps_ahead (wrapM g m)"
  by (simp add: keeps_ahead_def wpM_wrapM)

text \<open>A statement on other tables, with or without a look at its error.\<close>

lemma keeps_ahead_statement:
  fixes f :: "'a pgenv_scheme \<Rightarrow> 'b \<times> 'a pgenv_scheme"
  assumes "\<And>w. outbox_table (snd (f w)) = outbox_table w \<and> metrics (snd (f w)) = metrics w"
  shows "keeps_ahead (statement label f)" and "keeps_ahead (attemptM (statement label f))"
proof -
  have "wpM (statement label f) (\<lambda>_. ahead w) (\<lambda>_. ahead w) w" for w
  proof -
    let ?w1 = "w\<lparr>calls := Suc (calls w)\<rparr>"
    obtain x v where run: "f ?w1 = (x, v)"
      by (cases "f ?w1")
    then have "ahead w v" and "ahead w ?w1"
      using assms [of ?w1] by (auto intro: ahead_same)
    with run show ?thesis
      by (cases "plan w (calls w)") (simp_all add: wpM_def statement_def Let_def)
  qed
  then show "keeps_ahead (attemptM (statement label f))"
    by (simp add: keeps_ahead_def wpM_attemptM [abs_def])
  show "keeps_ahead (statement label f)"
    unfolding keeps_ahead_def by (intro allI wpM_conseq [OF \<open>\<And>w. wpM (statement label f) _ _ w\<close>])
      (auto simp: ahead_def)
qed

lemma keeps_ahead_tables [ahead_rules]:
  "keeps_ahead (Save s)" "keeps_ahead (journal_Append entry)"
  "keeps_ahead (journal_Has eid who)" "keeps_ahead BeginTx"
  unfolding Save_def journal_Append_def journal_Has_def BeginTx_def
  by (auto intro!: keeps_ahead_statement simp: Let_def)

lemma keeps_ahead_Load [ahead_rules]: "keeps_ahead (attemptM (Load oid))"
proof -
  have "wpM (Load oid) (\<lambda>_. ahead w) (\<lambda>_. ahead w) w" for w
    by (auto simp: Load_def wpM_def tryM_def statement_def Let_def ahead_same split: fault.split option.split)
  then show ?thesis
    unfolding keeps_ahead_def wpM_attemptM by (intro allI)
qed

text \<open>A row is counted after it is added; only an event that ends a saga goes to its topic.\<close>

lemma status_topic: "TopicForEventType t = Some TopicOrderStatus \<longleftrightarrow> t \<in> {EventOrderCompleted, EventOrderFailed}"
  by (cases t) (auto simp: topic_defs)

lemma keeps_ahead_Publish [ahead_rules]: "keeps_ahead (outbox_Publish e)"
  unfolding keeps_ahead_def
proof
  fix w
  have count: "ahead w (v\<lparr>metrics := afterAppend e (metrics w)\<rparr>)"
    if "TopicForEventType (EventType e) = Some topic"
      "outbox_table v = outbox_table w \<or>
       (\<exists>r. oe_Topic r = topic \<and> outbox_table v = outbox_table w @ [r])" for v topic
    using that status_topic [of "EventType e"]
    by (cases "EventType e") (auto simp: ahead_def grown_def afterAppend_def counter_defs terminals_def
        terminal_rows_def Incr_def)
  show "wpM (outbox_Publish e) (\<lambda>_. ahead w) (\<lambda>_. grown w) w"
    by (auto simp: wpM_def outbox_Publish_def outbox_Append_def statement_def Let_def tryM_def record_metric_def
        grown_def intro!: count split: option.split fault.split)
qed

section \<open>The orchestrator's transactions\<close>

lemma pg_saga_tx_ops [simp]:
  "Sagas_Save pg_saga_tx = Save" "Sagas_Load pg_saga_tx = Load" "EventLog pg_saga_tx = Some pg_event_log"
  "Publish pg_saga_tx = outbox_Publish" "Append pg_event_log = journal_Append" "Has pg_event_log = journal_Has"
  by (simp_all add: pg_saga_tx_def pg_event_log_def)

lemma keeps_ahead_steps [ahead_rules]:
  "keeps_ahead (assertTransition s t)"
  "keeps_ahead (logEvent pg_saga_tx saga eid et dir st p req resp)"
  "keeps_ahead (alreadyProcessed pg_saga_tx eid)"
  "keeps_ahead (terminalEvent oid prev cur et md)"
  by (auto simp: assertTransition_def logEvent_def alreadyProcessed_def terminalEvent_def intro!: ahead_rules)

lemma keeps_ahead_dispatchNext [ahead_rules]: "keeps_ahead (dispatchNext pg_saga_tx saga)"
  by (auto simp: dispatchNext_def Let_def intro!: ahead_rules split: sum.split)

lemma keeps_ahead_ends [ahead_rules]:
  "keeps_ahead (fail_saga pg_saga_tx saga md)" "keeps_ahead (Orchestrator.complete pg_saga_tx saga md)"
  "keeps_ahead (startCompensation pg_saga_tx saga)" "keeps_ahead (advance pg_saga_tx saga e)"
  by (auto simp: fail_saga_def Orchestrator.complete_def startCompensation_def advance_def Let_def intro!: ahead_rules)

lemma keeps_ahead_retry [ahead_rules]: "keeps_ahead (retry maxR pg_saga_tx saga)"
  by (auto simp: retry_def Let_def intro!: ahead_rules)

lemma keeps_ahead_decide [ahead_rules]: "keeps_ahead (decide maxR pg_saga_tx saga e)"
  by (cases "expectedStatusForResult (EventType e)"; cases "validateResultStatus (EventType e) (StatusAtual e)";
      cases "StatusAtual e") (simp_all add: decide_def ahead_rules)

lemma keeps_ahead_handlers:
  "keeps_ahead (startOrder pg_saga_tx e)" "keeps_ahead (handleResult maxR pg_saga_tx e)"
  by (auto simp: startOrder_def handleResult_def Let_def intro!: ahead_rules split: sum.split)

lemma ahead_rollback: "grown w v \<Longrightarrow> ahead w (rollback w v)"
  by (simp add: ahead_def grown_def rollback_def)

lemma BeginTx_ahead: "wpM BeginTx (\<lambda>_. ahead w) (\<lambda>_. ahead w) w"
  by (auto simp: BeginTx_def wpM_def statement_def Let_def ahead_same split: fault.split)

lemma WithTx_ahead:
  assumes "keeps_ahead (body pg_saga_tx)"
  shows "ahead w (snd (WithTx body w))"
proof -
  have "wpM (WithTx body) (\<lambda>_. ahead w) (\<lambda>_. ahead w) w"
    unfolding wpM_WithTx
  proof (rule wpM_conseq [OF BeginTx_ahead], goal_cases)
    case (1 x w0)
    show ?case
    proof (rule wpM_conseq [OF assms [unfolded keeps_ahead_def, rule_format]], goal_cases)
      case (1 y v)
      then have "wpM (Commit w0) (\<lambda>_. ahead w0) (\<lambda>_. ahead w0) v"
        by (auto simp: Commit_def wpM_def Let_def ahead_rollback ahead_def rollback_def grown_def split: fault.split)
      with \<open>ahead w w0\<close> show ?case
        by (auto elim!: wpM_conseq intro: ahead_trans)
    next
      case (2 e v)
      with \<open>ahead w w0\<close> show ?case
        by (auto intro: ahead_trans ahead_rollback)
    qed
  qed simp
  then show ?thesis
    by (cases "WithTx body w") (auto simp: wpM_def split: sum.splits)
qed

section \<open>Properties\<close>

text \<open>
  C32: the counters of a consuming goroutine tell what it did, whatever broker, dead-letter writer and
  handler answer. After its first reader is opened, the received events of each type are those handed to
  the handler, the processed and the failed ones those it ended with success and with an error; the
  dead letters per topic are the confirmed writes to its dead-letter topic; and every further reader
  is a counted reconnection. So what was received is what was processed or failed.
\<close>

theorem consumer_counts_its_calls:
  "let v = snd (consumeWorker c h n w); name = serviceName c in
     \<exists>cs. trace v = trace w @ OpenReader (readers w) # cs \<and> tallied name cs (metrics w) (metrics v)"
proof -
  have start: "wpM (start_worker c) (\<lambda>_ u. trace u = trace w @ [OpenReader (readers w)] \<and> metrics u = metrics w)
      (\<lambda>_ _. False) w"
    by (simp add: start_worker_def wp_simps)
  define P where "P v \<longleftrightarrow> (\<exists>cs. trace v = trace w @ OpenReader (readers w) # cs \<and>
      tallied (serviceName c) cs (metrics w) (metrics v))" for v :: "'a kafka_env"
  have "wpM (tryM (start_worker c) (consumer_loop c h n)) (\<lambda>_. P) (\<lambda>_. P) w"
    unfolding wpM_tryM
  proof (rule wpM_conseq [OF start], goal_cases)
    case (1 l u)
    have "P v" if "counted (serviceName c) u v" for v
      using that 1 by (auto simp: P_def counted_def)
    then show ?case
      by (intro wpM_conseq [OF consumer_loop_counted [OF counted_refl]])
  qed simp
  moreover have "P (log_call (CloseReader r) v)" if v: "P v" for r v
  proof -
    obtain cs where cs: "trace v = trace w @ OpenReader (readers w) # cs"
      "tallied (serviceName c) cs (metrics w) (metrics v)"
      using v by (auto simp: P_def)
    then have "tallied (serviceName c) (cs @ [CloseReader r]) (metrics w) (metrics v)"
      by (simp add: tally_defs)
    with cs(1) show ?thesis
      unfolding P_def by (intro exI [of _ "cs @ [CloseReader r]"]) simp
  qed
  ultimately have "P (snd (consumeWorker c h n w))"
    by (auto simp: consumeWorker_def deferred_def wpM_def Let_def split: prod.splits sum.splits)
  then show ?thesis
    by (simp add: P_def)
qed

text \<open>
  C33: whatever events the orchestrator handles and whatever the database answers, the counters of the
  outbox are never behind it: at least as many events are counted as generated, and as terminations of
  sagas, as rows are added to the outbox, and to the topic of terminal events.
\<close>

theorem outbox_counters_never_behind:
  "let v = fold (\<lambda>e u. snd (HandleEvent (New_orchestrator WithTx maxR) e u)) es w in
     length (outbox_table v) + outboxGenerated (metrics w) \<le>
       length (outbox_table w) + outboxGenerated (metrics v) \<and>
     terminal_rows (outbox_table v) + terminals (metrics w) \<le>
       terminal_rows (outbox_table w) + terminals (metrics v)"
proof -
  have step: "ahead u (snd (HandleEvent (New_orchestrator WithTx maxR) e u))" for e u
    unfolding HandleEvent_def StartOrder_def HandleResult_def New_orchestrator_def
    by (simp add: WithTx_ahead keeps_ahead_handlers)
  have "ahead w (fold (\<lambda>e u. snd (HandleEvent (New_orchestrator WithTx maxR) e u)) es w)"
    by (induction es arbitrary: w) (auto simp: ahead_same intro: ahead_trans [OF step])
  then show ?thesis
    by (simp add: Let_def ahead_def)
qed

text \<open>
  They can be ahead: the counters are raised inside the transaction and are not part of it. The
  result that ends a saga is handled, its commit fails, and it is handled again when it is
  redelivered: one message, and two terminations counted.
\<close>

definition waiting_for_notification :: pgenv where
  "waiting_for_notification = (empty_world (\<lambda>n. if n = 8 then Fails else NoFault))
     \<lparr>sagas_table := [''o'' \<mapsto> \<lparr>sr_saga_id = ''o'', sr_current_status = StatusInventoryReserved,
        sr_previous_status = StatusPaymentApproved, sr_retry_count = 0, sr_transaction_id = Some ''tx-1''\<rparr>]\<rparr>"

definition notified_result :: event where
  "notified_result = outgoing ''e'' 0 ''o'' EventNotificationResult StatusInventoryReserved StatusNotified
     ''tx-1'' fmempty"

lemma termination_counted_twice:
  "let once = snd (HandleEvent (New_orchestrator WithTx 3) notified_result waiting_for_notification);
       v = snd (HandleEvent (New_orchestrator WithTx 3) notified_result once)
   in outbox_table once = [] \<and> terminal_rows (outbox_table v) = 1 \<and> terminals (metrics v) = 2"
  by (simp add: waiting_for_notification_def notified_result_def run_defs Orchestrator.complete_def
      assertTransition_def canTransitionTo_def validTransitions_def terminalEvent_def terminal_rows_def
      terminals_def afterAppend_def counter_defs Incr_def new_registry_def journal_row_of_def topic_defs)

end
