(* ===== verification/Projection.thy ===== *)
theory Projection
  imports Services ReadModel
begin

text \<open>
  The projector (\<open>cmd/projector/main.go\<close>) beside the running system: its consuming goroutine fetches
  copies of the messages of the bus and keeps the view of each order. The section on the outcome
  compares the view with the saga of the write database.
\<close>

section \<open>The service\<close>

definition projector_config :: "environ \<Rightarrow> ConsumerConfig" where
  "projector_config getenv =
     \<lparr>Brokers = BrokersFromEnv getenv, GroupID = ''projector'', ServiceName = ''projector'',
      Workers = WorkersFromEnv getenv, CommitBatch = 0, CommitInterval = 0, Topic = [],
      Topics = FlowTopics, DLQWriter = True\<rparr>"

definition projector_main :: "environ \<Rightarrow> 'a read_env_scheme service" where
  "projector_main getenv =
     \<lparr>svc_config = projector_config getenv,
      svc_handler = WithLogging ''projector'' projector_HandleEvent\<rparr>"

section \<open>The events of an order\<close>

text \<open>A result never says COMPLETED; only the orchestrator's last message does.\<close>

lemma reply_not_result: "EventType (reply maxR eid now e d) \<notin> result_types"
proof -
  have "EventType (reaction_event eid now s r) \<notin> result_types" if "react maxR s e = Some r" for s r
    using react_live [OF that] that
    by (cases r) (auto simp: outgoing_def result_types_def live_status_def elim!: react_Some_cases)
  then show ?thesis
    by (auto simp: reply_def start_command_def outgoing_def result_types_def split: option.split)
qed

lemma result_not_completed:
  "sys_run maxR S \<Longrightarrow> e \<in> set (created S @ outs S) \<Longrightarrow> EventType e \<in> result_types \<Longrightarrow>
     StatusAtual e \<noteq> StatusCompleted"
proof (induction rule: sys_run.induct)
  case sys_init
  then show ?case by (simp add: init_system_def)
next
  case (sys_create S eid now oid)
  then show ?case
    by (auto simp: created_event_def outgoing_def result_types_def)
next
  case (sys_orch S eid e' now d)
  then show ?case
    using reply_not_result by auto
next
  case (sys_work S out cmd req resp)
  have "StatusAtual out \<noteq> StatusCompleted"
    using sys_work.hyps by (auto simp: answers_def validateResultStatus_def split: event_type.splits if_splits)
  with sys_work show ?case by auto
next
  case (sys_idle S ids)
  then show ?case by simp
qed

lemma marshal_status:
  assumes "marshal_event e = marshal_event f"
  shows "status_text (StatusAtual e) = status_text (StatusAtual f)"
proof -
  define member where "member j = (case j of JObj ms \<Rightarrow> map_of ms ''status_atual'' | _ \<Rightarrow> None)" for j
  have "member (marshal_event x) = Some (JStr (status_text (StatusAtual x)))" for x
    by (cases "SagaID x = []"; cases "TransactionID x = []")
      (simp_all add: member_def marshal_event_def omit_empty_def)
  from this [of e] this [of f] assms show ?thesis
    by simp
qed

text \<open>The terminal message of an order tells the status of its saga.\<close>

lemma outcome_status:
  assumes inv: "sys_inv maxR S" and e: "e \<in> set (outs S)" "EventType e \<in> {EventOrderCompleted, EventOrderFailed}"
  shows "\<exists>s. a_sagas (store S) (OrderID e) = Some s \<and> terminal_status (Current s) \<and>
    status_text (StatusAtual e) = status_text (Current s)"
proof -
  let ?d = "store S" and ?oid = "OrderID e"
  have "message_of e \<in> set (a_out ?d)"
    using inv e(1) by (simp add: sys_inv_def)
  moreover have topic: "msg_Topic (message_of x) = TopicOrderStatus"
    if "EventType x \<in> {EventOrderCompleted, EventOrderFailed}" for x
    using that by (auto simp: message_of_def topic_defs)
  ultimately have mem: "message_of e \<in> set (outcomes ?oid ?d)"
    using e(2) by (auto simp: outcomes_def sent_def orchestrator_out_topics_def)
  have ord: "order_inv maxR ?oid ?d"
    using run_inv_of [OF inv] by (simp add: run_inv_def)
  with mem obtain s where s: "a_sagas ?d ?oid = Some s"
    by (auto simp: order_inv_def outcomes_def split: option.splits)
  with ord have one: "length (outcomes ?oid ?d) = (if terminal_status (Current s) then 1 else 0)"
    by (simp add: order_inv_def)
  obtain ms ev where ev: "sent ?oid ?d = ms @ [message_of ev]" "announced_by s ev"
    using ord s by (auto simp: order_inv_def)
  from one mem have ends: "terminal_status (Current s)"
    by (auto split: if_splits)
  with one have "length (outcomes ?oid ?d) = 1"
    by simp
  moreover have "message_of ev \<in> set (outcomes ?oid ?d)"
    using ev ends topic [of ev] by (auto simp: outcomes_def announced_by_def terminal_status_def)
  ultimately have "message_of e = message_of ev"
    using mem by (auto simp: length_Suc_conv)
  then have "status_text (StatusAtual e) = status_text (StatusAtual ev)"
    by (intro marshal_status) (simp add: message_of_def)
  then show ?thesis
    using s ends ev(2) by (simp add: announced_by_def)
qed

lemma sys_run_created:
  "sys_run maxR S \<Longrightarrow> e \<in> set (created S @ outs S) \<Longrightarrow> EventType e = EventOrderCreated \<Longrightarrow>
     StatusAtual e = StatusPending"
proof (induction rule: sys_run.induct)
  case (sys_orch S eid e' now d)
  have "EventType (reply maxR eid now e' (store S)) \<noteq> EventOrderCreated"
    using sys_run_inv [OF sys_run.sys_orch [OF sys_orch.hyps]] by (auto simp: sys_inv_def)
  with sys_orch show ?case by auto
next
  case (sys_work S out cmd req resp)
  have "EventType out \<noteq> EventOrderCreated"
    using sys_work.hyps by (auto simp: answers_def valid_command_def)
  with sys_work show ?case by auto
qed (auto simp: init_system_def created_event_def outgoing_def)

lemma terminal_text:
  assumes "canonical_status s"
  shows "status_text s = ''COMPLETED'' \<longleftrightarrow> s = StatusCompleted" "status_text s = ''FAILED'' \<longleftrightarrow> s = StatusFailed"
proof -
  have "status_of ''COMPLETED'' = StatusCompleted" "status_of ''FAILED'' = StatusFailed"
    by (simp_all add: status_of_def known_statuses_def)
  then show "status_text s = ''COMPLETED'' \<longleftrightarrow> s = StatusCompleted"
    and "status_text s = ''FAILED'' \<longleftrightarrow> s = StatusFailed"
    using assms unfolding canonical_status_def by (metis status_text.simps)+
qed

lemma order_events_status:
  assumes run: "sys_run maxR S" and e: "e \<in> set (created S @ outs S)" and ends: "terminal_event e"
    and s: "a_sagas (store S) (OrderID e) = Some s"
  shows "EventType e \<in> result_types \<and> StatusAtual e = StatusFailed \<or>
    EventType e \<in> {EventOrderCompleted, EventOrderFailed} \<and> status_text (StatusAtual e) = status_text (Current s)"
proof -
  have inv: "sys_inv maxR S"
    by (rule sys_run_inv [OF run])
  have typed: "TopicForEventType (EventType e) \<noteq> None"
    using sys_run_typed [OF run e] by (simp add: well_typed_def)
  have "\<not> valid_command e"
    using ends by (auto simp: valid_command_def terminal_event_def)
  moreover have "EventType e \<noteq> EventOrderCreated"
    using ends sys_run_created [OF run e] by (auto simp: terminal_event_def)
  ultimately consider "EventType e \<in> result_types" | "EventType e \<in> {EventOrderCompleted, EventOrderFailed}" "e \<in> set (outs S)"
    using inv e typed by (cases "EventType e") (auto simp: sys_inv_def commands_def result_types_def topic_defs)
  then show ?thesis
  proof cases
    case 1
    then have "StatusAtual e \<noteq> StatusCompleted"
      by (rule result_not_completed [OF run e])
    moreover have "StatusAtual e = StatusCompleted \<or> StatusAtual e = StatusFailed"
      using ends sys_run_typed [OF run e]
      by (auto simp: terminal_event_def well_typed_def wf_event_def terminal_text)
    ultimately show ?thesis
      using 1 by blast
  next
    case 2
    with outcome_status [OF inv 2(2,1)] s show ?thesis
      by auto
  qed
qed

section \<open>What the goroutine does to the views\<close>

text \<open>The event in a fetched message.\<close>

definition fetched_event :: "kafka_message \<Rightarrow> event" where
  "fetched_event km = (case decode (km_Value km) of Inr e \<Rightarrow> e | Inl _ \<Rightarrow> zero_event)"

definition bus_copy :: "message list \<Rightarrow> kafka_message \<Rightarrow> bool" where
  "bus_copy ms km \<longleftrightarrow> (\<exists>m \<in> set ms. copy_of km m)"

lemma fetched_copy:
  assumes sim: "simulates maxR w0 w msgs S" and km: "copy_of km m" "m \<in> set (msgs @ a_out (pg_view w))"
  shows "decode (km_Value km) = Inr (fetched_event km) \<and> m = message_of (fetched_event km) \<and>
    fetched_event km \<in> set (created S @ outs S) \<and> SchemaVersion (fetched_event km) = CurrentSchemaVersion"
proof -
  obtain e where e: "m = message_of e" "well_typed e" "e \<in> set (created S @ outs S)"
    by (rule cluster_message [OF sim km(2)]) blast
  then have "decode (km_Value km) = Inr e"
    using km(1) by (simp add: copy_of_def decode_def message_decoded well_typed_def)
  then show ?thesis
    using e by (simp add: fetched_event_def well_typed_def)
qed

lemma projector_replay:
  assumes "simulates maxR w0 w msgs S" and "\<And>km. km \<in> set kms \<Longrightarrow> bus_copy (msgs @ a_out (pg_view w)) km"
  shows "fold (deliver_fetched (svc_handler (projector_main getenv))) kms rw =
    fold project1 (map fetched_event kms) rw"
  using assms(2)
proof (induction kms arbitrary: rw)
  case Nil
  then show ?case by simp
next
  case (Cons km kms)
  obtain m where "copy_of km m" "m \<in> set (msgs @ a_out (pg_view w))"
    using Cons.prems [of km] by (auto simp: bus_copy_def)
  with fetched_copy [OF assms(1) this] Cons show ?case
    by (simp add: deliver_fetched_def projector_main_def project1_def)
qed

lemma set_new_events_sub: "set (new_events seen es) \<subseteq> set es"
  by (induction es arbitrary: seen) auto

lemma new_events_covers:
  "e \<in> set es \<Longrightarrow> EventID e \<notin> set seen \<Longrightarrow> \<exists>x \<in> set (new_events seen es). EventID x = EventID e"
proof (induction es arbitrary: seen)
  case Nil
  then show ?case by simp
next
  case (Cons x es)
  show ?case
  proof (cases "EventID x \<in> set seen")
    case True
    with Cons show ?thesis by auto
  next
    case False
    with Cons.IH [of "seen @ [EventID x]"] Cons.prems show ?thesis
      by (cases "EventID e = EventID x") auto
  qed
qed

lemma distinct_new_events:
  "distinct (map EventID (new_events seen es)) \<and> set seen \<inter> EventID ` set (new_events seen es) = {}"
proof (induction es arbitrary: seen)
  case Nil
  then show ?case by simp
next
  case (Cons x es)
  with Cons.IH [of "seen @ [EventID x]"] Cons.IH [of seen] show ?case by auto
qed

text \<open>Without a terminal row before, the row has the status of the first terminal event.\<close>

lemma apply_all_first_terminal:
  "(\<And>v. old = Some v \<Longrightarrow> \<not> terminal_view v) \<Longrightarrow> filter terminal_event es = t # ts \<Longrightarrow>
     \<exists>v. apply_all es old = Some v \<and> ov_current_status v = status_text (StatusAtual t)"
proof (induction es arbitrary: old)
  case Nil
  then show ?case by simp
next
  case (Cons e es)
  let ?row = "upsert old (excluded e)"
  have row: "ov_current_status ?row = status_text (StatusAtual e)"
    using Cons.prems(1) by (auto simp: upsert_def excluded_def split: option.split)
  have step: "apply_all (e # es) old = apply_all es (Some ?row)"
    by (simp add: apply_all_def)
  show ?case
  proof (cases "terminal_event e")
    case True
    then have "terminal_view ?row"
      using row by (simp add: terminal_view_def terminal_event_def)
    then have "\<exists>v. apply_all es (Some ?row) = Some v \<and> ov_current_status v = ov_current_status ?row"
    proof (induction es arbitrary: e old rule: rev_induct)
      case Nil
      then show ?case by (simp add: apply_all_def)
    next
      case (snoc x xs)
      then show ?case
        by (fastforce simp: apply_all_def upsert_def terminal_view_def)
    qed
    with True Cons.prems(2) row step show ?thesis by simp
  next
    case False
    then have "\<not> terminal_view ?row"
      using row by (simp add: terminal_view_def terminal_event_def)
    with Cons.IH [of "Some ?row"] Cons.prems(2) False step show ?thesis by simp
  qed
qed

section \<open>The view of a finished order\<close>

text \<open>No result of the order says FAILED.\<close>

definition no_failed_result :: "string \<Rightarrow> message list \<Rightarrow> bool" where
  "no_failed_result oid ms \<longleftrightarrow>
     (\<forall>m \<in> set ms. \<forall>e. msg_Key m = oid \<longrightarrow> unmarshal_event (msg_Payload m) = Inr e \<longrightarrow>
        EventType e \<in> result_types \<longrightarrow> StatusAtual e \<noteq> StatusFailed)"

lemma outcome_on_bus:
  assumes "simulates maxR w0 w msgs S" and "a_sagas (pg_view w) oid = Some s" and "terminal_status (Current s)"
  obtains e where "e \<in> set (outs S)" "OrderID e = oid" "EventType e \<in> {EventOrderCompleted, EventOrderFailed}"
proof -
  have inv: "sys_inv maxR S" and st: "store S = pg_view w"
    using assms(1) by (auto simp: simulates_def sys_run_inv)
  obtain old e where e: "chain oid (outs S) = old @ [e]" "token maxR (store S) s e"
    using chain_ok_of [OF inv, of oid] assms(2) st by (auto simp: chain_ok_def)
  then show thesis
    using that [of e] set_chain [of e oid "outs S"] assms(3) by (auto simp: token_def)
qed

lemma sent_message:
  assumes "simulates maxR w0 w msgs S" and "e \<in> set (created S @ outs S)"
  shows "message_of e \<in> set (msgs @ a_out (pg_view w))"
  using assms sys_run_inv [of maxR S] by (auto simp: simulates_def sys_inv_def)

lemma event_with_id:
  assumes "sys_inv maxR S" and "e \<in> set (created S @ outs S)" "f \<in> set (created S @ outs S)"
    and "EventID e = EventID f"
  shows "e = f"
  using assms unfolding sys_inv_def by (metis inj_onD distinct_map)

text \<open>The whole of what the messages of a finished order leave in its view.\<close>

lemma finished_view:
  assumes sim: "simulates maxR w0 w msgs S"
    and s: "a_sagas (pg_view w) oid = Some s" "terminal_status (Current s)"
    and copies: "\<And>km. km \<in> set kms \<Longrightarrow> bus_copy (msgs @ a_out (pg_view w)) km"
    and all: "\<And>m. m \<in> set (msgs @ a_out (pg_view w)) \<Longrightarrow> msg_Key m = oid \<Longrightarrow> \<exists>km \<in> set kms. copy_of km m"
    and fresh: "read_healthy rw" "processed_events rw = []" "order_views rw oid = None"
  shows "\<exists>row. order_views (fold project1 (map fetched_event kms) rw) oid = Some row \<and>
    (let es = filter (\<lambda>e. OrderID e = oid) (new_events [] (map fetched_event kms)) in
      filter terminal_event es \<noteq> [] \<and>
      ov_current_status row = status_text (StatusAtual (hd (filter terminal_event es))) \<and>
      ov_timeline row = map marshal_event es \<and> distinct es \<and>
      set es = {e \<in> set (created S @ outs S). OrderID e = oid})"
proof -
  have inv: "sys_inv maxR S" and st: "store S = pg_view w" and run: "sys_run maxR S"
    using sim by (auto simp: simulates_def sys_run_inv)
  let ?evs = "map fetched_event kms"
  define es where "es = filter (\<lambda>e. OrderID e = oid) (new_events [] ?evs)"
  have known: "set ?evs \<subseteq> set (created S @ outs S)"
    using copies fetched_copy [OF sim] by (fastforce simp: bus_copy_def)
  have seen: "e \<in> set (new_events [] ?evs)" if e: "e \<in> set (created S @ outs S)" "OrderID e = oid" for e
  proof -
    obtain km where km: "km \<in> set kms" "copy_of km (message_of e)"
      using all [OF sent_message [OF sim e(1)]] e(2) by auto
    have "message_of e = message_of (fetched_event km)" "fetched_event km \<in> set (created S @ outs S)"
      using fetched_copy [OF sim km(2) sent_message [OF sim e(1)]] by simp_all
    then have "fetched_event km = e"
      using event_with_id [OF inv _ e(1)] by (metis message_of_simps(1))
    then obtain x where "x \<in> set (new_events [] ?evs)" "EventID x = EventID e"
      using new_events_covers [of e ?evs "[]"] km(1) by auto
    then show ?thesis
      using event_with_id [OF inv _ e(1)] set_new_events_sub [of "[]" ?evs] known by blast
  qed
  moreover have "set (new_events [] ?evs) \<subseteq> set (created S @ outs S)"
    using set_new_events_sub known by (rule order_trans)
  ultimately have set_es: "set es = {e \<in> set (created S @ outs S). OrderID e = oid}"
    unfolding es_def by auto
  have "distinct es"
    using distinct_new_events [of "[]" ?evs] by (simp add: es_def distinct_map)
  obtain e where e: "e \<in> set (outs S)" "OrderID e = oid" "EventType e \<in> {EventOrderCompleted, EventOrderFailed}"
    by (rule outcome_on_bus [OF sim s])
  have "terminal_event e"
    using outcome_status [OF inv e(1,3)] e(2) s st by (auto simp: terminal_event_def terminal_status_def)
  then have ne: "filter terminal_event es \<noteq> []"
    using set_es e(1,2) by (auto simp: filter_empty_conv)
  have view: "order_views (fold project1 ?evs rw) oid = apply_all es None"
    using fold_project_healthy [OF fresh(1), of ?evs oid] fresh(2,3) by (simp add: es_def)
  obtain row where row: "apply_all es None = Some row"
    "ov_current_status row = status_text (StatusAtual (hd (filter terminal_event es)))"
    using apply_all_first_terminal [of None es "hd (filter terminal_event es)" "tl (filter terminal_event es)"] ne
    by auto
  then show ?thesis
    using view timeline_of_apply_all [OF row(1)] ne set_es \<open>distinct es\<close>
    by (intro exI [of _ row]) (simp add: es_def Let_def)
qed

text \<open>
  C34: the view of a finished order. Let the projector's goroutine fetch copies of the messages of the
  running system, in any order and any number of times, each message of the order at least once, with
  a read database that answers. Then the order has a view with a terminal status, whose timeline holds
  every message of the order exactly once. A failed order shows FAILED; a completed one
  shows COMPLETED provided no worker's result of it says FAILED.
\<close>

theorem view_shows_the_outcome:
  fixes k :: "'b read_env_scheme kafka_env"
  assumes "cluster_run maxR g w0 w msgs" and "gateways_ok g" and "pg_view w0 = empty_db"
    and "distinct_ids w0 w"
    and s: "a_sagas (pg_view w) oid = Some s" "terminal_status (Current s)"
    and v: "v = snd (consumeWorker (NewConsumer pd getenv (svc_config (projector_main getenv)))
      (svc_handler (projector_main getenv)) n k)"
    and kms: "kms = fetched_in (drop (length (trace k)) (trace v))"
    and copies: "\<And>km. km \<in> set kms \<Longrightarrow> bus_copy (msgs @ a_out (pg_view w)) km"
    and all: "\<And>m. m \<in> set (msgs @ a_out (pg_view w)) \<Longrightarrow> msg_Key m = oid \<Longrightarrow> \<exists>km \<in> set kms. copy_of km m"
    and fresh: "read_healthy (svc k)" "processed_events (svc k) = []" "order_views (svc k) oid = None"
  shows "\<exists>row. order_views (svc v) oid = Some row \<and> terminal_view row \<and>
    set (ov_timeline row) = msg_Payload ` {m \<in> set (msgs @ a_out (pg_view w)). msg_Key m = oid} \<and>
    distinct (ov_timeline row) \<and>
    (Current s = StatusFailed \<or> no_failed_result oid (msgs @ a_out (pg_view w)) \<longrightarrow>
      ov_current_status row = status_text (Current s))"
proof -
  obtain S where sim: "simulates maxR w0 w msgs S"
    using cluster_simulated [OF assms(1-4)] by blast
  have inv: "sys_inv maxR S" and st: "store S = pg_view w" and run: "sys_run maxR S"
    using sim by (auto simp: simulates_def sys_run_inv)
  have "\<exists>tr. trace v = trace k @ tr \<and>
      svc v = fold (deliver_fetched (svc_handler (projector_main getenv))) (fetched_in tr) (svc k)"
    unfolding v by (rule consumer_replay)
  then have "svc v = fold (deliver_fetched (svc_handler (projector_main getenv))) kms (svc k)"
    using kms by auto
  then have svc_v: "svc v = fold project1 (map fetched_event kms) (svc k)"
    using projector_replay [OF sim copies] by simp
  define es where "es = filter (\<lambda>e. OrderID e = oid) (new_events [] (map fetched_event kms))"
  obtain row where row: "order_views (svc v) oid = Some row" "filter terminal_event es \<noteq> []"
    "ov_current_status row = status_text (StatusAtual (hd (filter terminal_event es)))"
    "ov_timeline row = map marshal_event es" "distinct es"
    "set es = {e \<in> set (created S @ outs S). OrderID e = oid}"
    using finished_view [OF sim s copies all fresh] unfolding svc_v es_def Let_def by blast
  let ?t = "hd (filter terminal_event es)"
  have t: "?t \<in> set (created S @ outs S)" "OrderID ?t = oid" "terminal_event ?t"
    using hd_in_set [OF row(2)] row(6) by auto
  have wf: "wf_event e" if "e \<in> set es" for e
    using that row(6) inv by (auto simp: sys_inv_def)
  have "terminal_view row"
    using t(3) row(3) by (simp add: terminal_view_def terminal_event_def)
  moreover have "set (ov_timeline row) = msg_Payload ` {m \<in> set (msgs @ a_out (pg_view w)). msg_Key m = oid}"
  proof -
    have "set (msgs @ a_out (pg_view w)) = message_of ` set (created S @ outs S)"
      using sim inv st by (auto simp: simulates_def sys_inv_def)
    then have "{m \<in> set (msgs @ a_out (pg_view w)). msg_Key m = oid} = message_of ` set es"
      unfolding row(6) by auto
    then show ?thesis
      by (simp add: row(4) image_image message_of_def)
  qed
  moreover have "distinct (ov_timeline row)"
  proof -
    have "inj_on marshal_event (set es)"
      by (rule inj_onI) (metis sum.inject(2) unmarshal_marshal wf)
    then show ?thesis
      unfolding row(4) by (simp add: distinct_map row(5))
  qed
  moreover have "ov_current_status row = status_text (Current s)"
    if ok: "Current s = StatusFailed \<or> no_failed_result oid (msgs @ a_out (pg_view w))"
  proof -
    have "unmarshal_event (msg_Payload (message_of ?t)) = Inr ?t" "msg_Key (message_of ?t) = oid"
      using t wf [of ?t] row(6) by (simp_all add: message_decoded)
    then have "\<not> (EventType ?t \<in> result_types \<and> StatusAtual ?t = StatusFailed)"
      if "no_failed_result oid (msgs @ a_out (pg_view w))"
      using that sent_message [OF sim t(1)] unfolding no_failed_result_def by blast
    then show ?thesis
      using order_events_status [OF run t(1,3), of s] t(2) s st ok row(3) by auto
  qed
  ultimately show ?thesis
    using row(1) by blast
qed

end
