(* ===== verification/Scenarios.thy ===== *)
theory Scenarios
  imports System
begin

text \<open>
  What becomes of an order whose gateways always answer a stage in the same way, and with it the
  debug scenarios of \<open>internal/infrastructure/external/scenario.go\<close>, which a marker in the order id
  selects. Two deliveries, the command of the stage to its worker and the result to the
  orchestrator, take the saga from one stage to the next.
\<close>

section \<open>A constant answer\<close>

text \<open>Whatever the world, the result of a command of type \<open>t\<close> of the order satisfies \<open>P\<close>.\<close>

definition always_replies :: "'a pgenv_scheme gateways \<Rightarrow> string \<Rightarrow> event_type \<Rightarrow> (event \<Rightarrow> bool) \<Rightarrow> bool" where
  "always_replies g oid t P \<longleftrightarrow> (\<forall>u e eid now tid.
     case t of
       EventPaymentCommand \<Rightarrow> P (process_result e eid now (fst (gw_Process (payments g) oid u)))
     | EventPaymentCompensate \<Rightarrow> P (refund_result e eid now (fst (gw_Refund (payments g) oid tid u)))
     | EventInventoryCommand \<Rightarrow> P (reserve_result e eid now (fst (gw_Reserve (inventory g) oid u)))
     | EventNotificationCommand \<Rightarrow> P (notify_result e eid now (fst (gw_Notify (notifications g) oid u)))
     | _ \<Rightarrow> False)"

text \<open>A new command is answered with such a result.\<close>

definition replied :: "event \<Rightarrow> (event \<Rightarrow> bool) \<Rightarrow> 'a pgenv_scheme \<Rightarrow> 'a pgenv_scheme \<Rightarrow> bool" where
  "replied e P w v \<longleftrightarrow> abs_has (EventID e) (worker_of (EventType e)) (pg_view w) \<or>
     (\<exists>req resp out. answers e out \<and> P out \<and> EventID out = event_id_at (entropy w) (drawn w) \<and>
        drawn v = Suc (drawn w) \<and>
        pg_view v = worker_effect (worker_of (EventType e)) e req resp out (pg_view w))"

lemma replied_run:
  assumes contract: "worker_contract pg_saga_tx pg_event_log pg_view pg_healthy call
      (stage_of (EventType e)) (OrderID e) WithTx"
    and valid: "valid_command e"
    and result: "\<And>eid now r. answers e (result eid now r) \<and> EventID (result eid now r) = eid"
    and st: "\<And>eid now u. P (result eid now (fst (call u)))"
  shows "wpM (WithTx (\<lambda>tx. worker_step tx (worker_of (EventType e)) e req call resp result))
     (\<lambda>_ v. replied e P w v \<and> env_advances w v \<and> (pg_healthy w \<longrightarrow> pg_healthy v)) (\<lambda>_ _. \<not> pg_healthy w) w"
proof -
  obtain topic where "TopicForEventType (result_type (EventType e)) = Some topic"
    using valid by (auto simp: valid_command_def)
  then have topic: "\<And>eid now r. TopicForEventType (EventType (result eid now r)) = Some topic"
    using result by (simp add: answers_def)
  have "replied e P w v"
    if worked: "worked pg_view (worker_of (EventType e)) e req call resp result w v" for v
  proof (cases "abs_has (EventID e) (worker_of (EventType e)) (pg_view w)")
    case False
    with worked obtain u now where "pg_view v = worker_effect (worker_of (EventType e)) e req
        (resp (fst (call u))) (result (event_id_at (entropy w) (drawn w)) now (fst (call u))) (pg_view w)"
      "drawn v = Suc (drawn w)"
      by (auto simp: worked_def)
    then show ?thesis
      using result st unfolding replied_def by blast
  qed (simp add: replied_def)
  then show ?thesis
    by (intro wpM_conseq [OF worker_contract.with_tx_worker [OF contract, OF topic]])
      (auto simp: work_failed_def)
qed

lemma worker_replies:
  assumes "gateways_ok g" and valid: "valid_command e"
    and st: "always_replies g (OrderID e) (EventType e) P"
  shows "wpM (worker_Handle g e)
     (\<lambda>_ v. replied e P w v \<and> env_advances w v \<and> (pg_healthy w \<longrightarrow> pg_healthy v)) (\<lambda>_ _. \<not> pg_healthy w) w"
proof -
  note contract = assms(1) [unfolded gateways_ok_def, rule_format]
  note run = replied_run [OF _ valid]
  note status = st [unfolded always_replies_def, rule_format]
  from valid consider
      "EventType e = EventPaymentCommand" "StatusAtual e = StatusPaymentPending"
    | "EventType e = EventPaymentCompensate" "StatusAtual e = StatusPaymentRefundPending"
      "TransactionID e \<noteq> ''''"
    | "EventType e = EventInventoryCommand" "StatusAtual e = StatusPaymentApproved"
    | "EventType e = EventNotificationCommand" "StatusAtual e = StatusInventoryReserved"
    by (auto simp: valid_command_def)
  then show ?thesis
  proof cases
    case 1
    with run [of "gw_Process (payments g) (OrderID e)" "process_result e" P] status
      contract [of "OrderID e"] result_ids(1) [OF valid] show ?thesis
      by (simp add: worker_Handle_def worker_topics payment_Handle_def payment_process_eq)
  next
    case 2
    with run [of "gw_Refund (payments g) (OrderID e) (TransactionID e)" "refund_result e" P] status
      contract [of "OrderID e" "TransactionID e"] result_ids(2) [OF valid] show ?thesis
      by (simp add: worker_Handle_def worker_topics payment_Handle_def payment_refund_eq)
  next
    case 3
    with run [of "gw_Reserve (inventory g) (OrderID e)" "reserve_result e" P] status
      contract [of "OrderID e"] result_ids(3) [OF valid] show ?thesis
      by (simp add: worker_Handle_def worker_topics inventory_Handle_def inventory_reserve_eq)
  next
    case 4
    with run [of "gw_Notify (notifications g) (OrderID e)" "notify_result e" P] status
      contract [of "OrderID e"] result_ids(4) [OF valid] show ?thesis
      by (simp add: worker_Handle_def worker_topics notification_Handle_def notification_notify_eq)
  qed
qed

section \<open>From stage to stage\<close>

text \<open>The order is at a stage: its saga is live and the command of the stage is its last message.\<close>

definition at_stage :: "int \<Rightarrow> 'a pgenv_scheme \<Rightarrow> message list \<Rightarrow> string \<Rightarrow> saga \<Rightarrow> 'a pgenv_scheme \<Rightarrow> bool" where
  "at_stage maxR w0 bus oid s w \<longleftrightarrow> (\<exists>S. simulates maxR w0 w bus S) \<and> pg_healthy w \<and>
     a_sagas (pg_view w) oid = Some s \<and> \<not> terminal_status (Current s) \<and>
     msg_Topic (last (order_messages oid (pg_view w))) \<in> orchestrator_out_topics"

lemma stage_command:
  assumes "at_stage maxR w0 bus oid s w"
  obtains S e where "simulates maxR w0 w bus S" "last (order_messages oid (pg_view w)) = message_of e"
    "OrderID e = oid" "wf_event e" "message_of e \<in> set (bus @ a_out (pg_view w))"
    "valid_command e" "EventType e = command_type (Current s)"
    "\<not> abs_has (EventID e) (worker_of (EventType e)) (pg_view w)"
proof -
  obtain S where S: "simulates maxR w0 w bus S" and s: "a_sagas (pg_view w) oid = Some s"
      "\<not> terminal_status (Current s)"
    using assms by (auto simp: at_stage_def)
  obtain e where e: "last (order_messages oid (pg_view w)) = message_of e" "OrderID e = oid" "wf_event e"
      "message_of e \<in> set (bus @ a_out (pg_view w))" "token maxR (pg_view w) s e"
    by (rule last_message [OF S s(1)]) blast
  have "EventType e \<notin> result_types"
    using assms e(1) result_topic_foreign [of e] by (auto simp: at_stage_def)
  with e(5) s(2) have "announced_by s e" "valid_command e"
      "\<not> abs_has (EventID e) (worker_of (EventType e)) (pg_view w)"
    by (auto simp: token_def)
  moreover from this(1) s(2) have "EventType e = command_type (Current s)"
    by (auto simp: announced_by_def terminal_status_def split: if_splits)
  ultimately show thesis
    using that [OF S e(1-4)] by blast
qed

text \<open>The worker answers the command.\<close>

lemma drive_command_replied:
  assumes at: "at_stage maxR w0 bus oid s w" and ok: "gateways_ok g"
    and st: "always_replies g oid (command_type (Current s)) P"
    and ids: "distinct_ids w0 (w\<lparr>drawn := Suc (drawn w)\<rparr>)"
    and v: "v = snd (deliver_message maxR g (last (order_messages oid (pg_view w))) w)"
  obtains S out where "simulates maxR w0 v bus S" "pg_healthy v" "drawn v = Suc (drawn w)"
    "a_sagas (pg_view v) oid = Some s"
    "order_messages oid (pg_view v) = order_messages oid (pg_view w) @ [message_of out]" "OrderID out = oid" "P out" "EventType out = result_type (command_type (Current s))"
    "EventType out \<in> result_types" "wf_event out"
proof -
  obtain S e where S: "simulates maxR w0 w bus S" and e: "last (order_messages oid (pg_view w)) = message_of e"
      "OrderID e = oid" "wf_event e" "message_of e \<in> set (bus @ a_out (pg_view w))"
      "valid_command e" "EventType e = command_type (Current s)"
      "\<not> abs_has (EventID e) (worker_of (EventType e)) (pg_view w)"
    by (rule stage_command [OF at]) blast
  have healthy: "pg_healthy w"
    using at by (simp add: at_stage_def)
  have "always_replies g (OrderID e) (EventType e) P"
    using st e(2,6) by simp
  then have "wpM (worker_Handle g e) (\<lambda>_ v. replied e P w v \<and> env_advances w v \<and> pg_healthy v) (\<lambda>_ _. False) w"
    by (intro wpM_conseq [OF worker_replies [OF ok e(5)]]) (auto simp: healthy)
  from wpM_never_errorD [OF this] have v': "replied e P w v" "pg_healthy v"
    using v topics_of_types [of e] valid_command_type [OF e(5)]
    by (auto simp: e(1) deliver_message_of [OF e(3)])
  with e(7) obtain req resp out where out: "answers e out" "P out"
      "EventID out = event_id_at (entropy w) (drawn w)" "drawn v = Suc (drawn w)"
      "pg_view v = worker_effect (worker_of (EventType e)) e req resp out (pg_view w)"
    by (auto simp: replied_def)
  have sim: "simulates maxR w0 w bus S \<Longrightarrow> \<exists>S'. simulates maxR w0 v bus S'"
    using simulates_deliver [OF S e(4) ok] v e(1) ids out(4) by (simp add: distinct_ids_def)
  have inv: "sys_inv maxR S" and ent: "entropy w = entropy w0" "drawn w0 \<le> drawn w"
      "used_ids S = event_id_at (entropy w0) ` {drawn w0 ..< drawn w}" "store S = pg_view w"
    using S by (auto simp: simulates_def sys_run_inv)
  have "EventID out \<notin> used_ids S"
    using fresh_id [OF ids ent(2)] ent out(3) by simp
  then have "EventID out \<notin> msg_EventID ` set (a_out (pg_view w))"
    using run_inv_of [OF inv] ent(4) by (auto simp: run_inv_def)
  then have "order_messages oid (pg_view v) = order_messages oid (pg_view w) @ [message_of out]"
      "OrderID out = oid"
    using out(1,5) e(2) by (simp_all add: order_messages_def worker_effect_out answers_def)
  moreover have "EventType out \<in> result_types" "EventType out = result_type (command_type (Current s))"
    using out(1) e(5,6) by (auto simp: answers_def valid_command_def result_types_def)
  moreover have "a_sagas (pg_view v) oid = Some s"
    using out(5) at by (simp add: at_stage_def)
  ultimately show thesis
    using that sim [OF S] v'(2) out(2,4) wf_answer [OF e(5) out(1)] by blast
qed

text \<open>The orchestrator takes the answer in.\<close>

lemma drive_result_taken:
  assumes S: "simulates maxR w0 w bus S" and ok: "gateways_ok g" and healthy: "pg_healthy w"
    and s: "a_sagas (pg_view w) oid = Some s" "\<not> terminal_status (Current s)"
    and out: "last (order_messages oid (pg_view w)) = message_of out" "OrderID out = oid"
      "EventType out \<in> result_types" "wf_event out"
    and ids: "distinct_ids w0 (w\<lparr>drawn := Suc (drawn w)\<rparr>)"
    and v: "v = snd (deliver_message maxR g (message_of out) w)"
  obtains S' r eid now where "simulates maxR w0 v bus S'" "pg_healthy v" "drawn v = Suc (drawn w)"
    "react maxR s out = Some r" "a_sagas (pg_view v) oid = Some (next_saga r s)"
    "order_messages oid (pg_view v) = order_messages oid (pg_view w) @ [message_of (reaction_event eid now s r)]"
    "msg_Topic (message_of (reaction_event eid now s r)) \<in> orchestrator_out_topics"
proof -
  obtain e where e: "message_of out = message_of e" "wf_event e"
      "message_of e \<in> set (bus @ a_out (pg_view w))" "token maxR (pg_view w) s e"
    by (rule last_message [OF S s(1)]) (use out(1) in auto)
  have [simp]: "e = out"
    using message_of_eqD [OF e(1) out(4) e(2)] by simp
  have "\<not> valid_command out"
    using out(3) valid_command_type commands_not_results by blast
  with e(4) s(2) have "react maxR s out \<noteq> None" "\<not> abs_has (EventID out) orchestrator_component (pg_view w)"
    by (auto simp: token_def)
  then obtain d where acc: "spec_of maxR w out = Accept d"
    using s(1) out(2,3) by (auto simp: orch_spec_def result_types_def)
  from drive_result [OF healthy out(4,3) acc v]
  have v': "pg_view v = d" "pg_healthy v" "drawn v = Suc (drawn w)"
    by simp_all
  have inv: "sys_inv maxR S" and ent: "entropy w = entropy w0" "drawn w0 \<le> drawn w"
      "used_ids S = event_id_at (entropy w0) ` {drawn w0 ..< drawn w}" "store S = pg_view w"
    using S by (auto simp: simulates_def sys_run_inv)
  have "event_id_at (entropy w) (drawn w) \<notin> used_ids S"
    using fresh_id [OF ids ent(2)] ent by simp
  then have fresh: "event_id_at (entropy w) (drawn w) \<notin> msg_EventID ` set (a_out (pg_view w))"
    using run_inv_of [OF inv] ent(4) by (auto simp: run_inv_def)
  have "\<exists>S'. simulates maxR w0 v bus S'"
    using simulates_deliver [OF S e(3) ok] v ids v'(3) by (simp add: distinct_ids_def)
  moreover have "\<exists>r eid now. react maxR s out = Some r \<and> a_sagas d oid = Some (next_saga r s) \<and>
      order_messages oid d = order_messages oid (pg_view w) @ [message_of (reaction_event eid now s r)] \<and>
      msg_Topic (message_of (reaction_event eid now s r)) \<in> orchestrator_out_topics"
    using acc keyed_pg_view fresh
  proof (cases rule: accept_cases)
    case start
    with s(1) out(2) show ?thesis by simp
  next
    case (react s' r)
    then have [simp]: "s' = s"
      using s(1) out(2) by simp
    show ?thesis
      using react reaction_fits [of maxR s out r] out(2)
      by (auto simp: one_step_def order_messages_def fits_def)
  qed
  ultimately show thesis
    using that v' by blast
qed

text \<open>Two deliveries take the saga to its next stage.\<close>

lemma drive_stage:
  assumes at: "at_stage maxR w0 bus oid s w" and ok: "gateways_ok g"
    and st: "always_replies g oid (command_type (Current s)) P"
    and ids: "distinct_ids w0 (w\<lparr>drawn := drawn w + 2\<rparr>)"
    and v: "v = drive maxR g oid 2 w"
  obtains r out eid now where "react maxR s out = Some r" "P out" "drawn v = drawn w + 2" "wf_event out"
    "EventType out = result_type (command_type (Current s))" "a_sagas (pg_view v) oid = Some (next_saga r s)"
    "order_messages oid (pg_view v) = order_messages oid (pg_view w) @ [message_of out, message_of (reaction_event eid now s r)]"
    "\<not> terminal_status (Current (next_saga r s)) \<Longrightarrow> at_stage maxR w0 bus oid (next_saga r s) v"
proof -
  define u where "u = snd (deliver_message maxR g (last (order_messages oid (pg_view w))) w)"
  have ids1: "distinct_ids w0 (w\<lparr>drawn := Suc (drawn w)\<rparr>)"
    by (rule distinct_ids_mono [OF ids]) simp
  obtain S out where u: "simulates maxR w0 u bus S" "pg_healthy u" "drawn u = Suc (drawn w)"
      "a_sagas (pg_view u) oid = Some s"
      "order_messages oid (pg_view u) = order_messages oid (pg_view w) @ [message_of out]"
      "OrderID out = oid" "P out" "EventType out = result_type (command_type (Current s))"
      "EventType out \<in> result_types" "wf_event out"
    by (rule drive_command_replied [OF at ok st ids1 u_def]) blast
  have live: "\<not> terminal_status (Current s)"
    using at by (simp add: at_stage_def)
  have v_u: "v = snd (deliver_message maxR g (message_of out) u)"
    using v u(5) by (simp add: numeral_2_eq_2 u_def)
  have ids2: "distinct_ids w0 (u\<lparr>drawn := Suc (drawn u)\<rparr>)"
    using ids u(3) by (simp add: distinct_ids_def)
  obtain S' r eid now where v': "simulates maxR w0 v bus S'" "pg_healthy v" "drawn v = Suc (drawn u)"
      "react maxR s out = Some r" "a_sagas (pg_view v) oid = Some (next_saga r s)"
      "order_messages oid (pg_view v) = order_messages oid (pg_view u) @ [message_of (reaction_event eid now s r)]"
      "msg_Topic (message_of (reaction_event eid now s r)) \<in> orchestrator_out_topics"
    by (rule drive_result_taken [OF u(1) ok u(2,4) live _ u(6,9,10) ids2 v_u]) (simp add: u(5))
  show thesis
  proof (rule that [OF v'(4) u(7) _ u(10,8) v'(5)])
    show "drawn v = drawn w + 2"
      "order_messages oid (pg_view v) =
         order_messages oid (pg_view w) @ [message_of out, message_of (reaction_event eid now s r)]"
      using v'(3,6) u(3,5) by simp_all
    show "at_stage maxR w0 bus oid (next_saga r s) v" if "\<not> terminal_status (Current (next_saga r s))"
      unfolding at_stage_def using v' that by auto
  qed
qed

section \<open>The cases of the README\<close>

text \<open>
  The answers of the gateways to an order: \<open>p\<close> for its payment, \<open>i\<close> for its stock and \<open>n\<close> for its
  notification, an approved payment with a transaction. A refund may be answered in any way.
\<close>

definition constant_answers ::
  "'a pgenv_scheme gateways \<Rightarrow> string \<Rightarrow> order_status \<Rightarrow> order_status \<Rightarrow> order_status \<Rightarrow> bool" where
  "constant_answers g oid p i n \<longleftrightarrow>
     always_replies g oid EventPaymentCommand
       (\<lambda>out. StatusAtual out = p \<and> (p = StatusPaymentApproved \<longrightarrow> TransactionID out \<noteq> '''')) \<and>
     always_replies g oid EventInventoryCommand (\<lambda>out. StatusAtual out = i) \<and>
     always_replies g oid EventNotificationCommand (\<lambda>out. StatusAtual out = n)"

text \<open>The order has been started: its saga is new and the command of the payment is its only message.\<close>

definition just_started :: "string \<Rightarrow> abs_db \<Rightarrow> bool" where
  "just_started oid d \<longleftrightarrow> a_sagas d oid = Some (new_saga oid) \<and> length (order_messages oid d) = 1"

text \<open>The final status of the case, and the metadata of the outcome where the README names it.\<close>

definition final_status :: "order_status \<Rightarrow> order_status \<Rightarrow> order_status" where
  "final_status p i =
     (if p = StatusPaymentApproved \<and> i = StatusInventoryReserved then StatusCompleted else StatusFailed)"

definition notification_note :: "order_status \<Rightarrow> metadata" where
  "notification_note n =
     (if n = StatusNotified then fmempty
      else if n = StatusRetrying
      then fmupd ''motivo'' ''retry_limit_exceeded'' (fmupd ''notification_error'' ''true'' fmempty)
      else fmupd ''notification_error'' ''true'' fmempty)"

definition outcome_noted :: "order_status \<Rightarrow> order_status \<Rightarrow> order_status \<Rightarrow> metadata \<Rightarrow> bool" where
  "outcome_noted p i n m \<longleftrightarrow>
     (if p = StatusRetrying then m = motivo_retry
      else if p = StatusPaymentApproved \<and> i = StatusRetrying then m = motivo_retry
      else if p = StatusPaymentApproved \<and> i = StatusFailed
      then fmlookup m ''payment_refunded'' = Some ''true'' \<or> fmlookup m ''payment_refund_failed'' = Some ''true''
      else if p = StatusPaymentApproved \<and> i = StatusInventoryReserved then m = notification_note n
      else True)"

text \<open>Where an order of the case can be, with the messages sent for it so far.\<close>

definition on_track :: "order_status \<Rightarrow> order_status \<Rightarrow> order_status \<Rightarrow> saga \<Rightarrow> event list \<Rightarrow> bool" where
  "on_track p i n s es \<longleftrightarrow>
     (EventPaymentCompensate \<in> EventType ` set es \<longleftrightarrow>
        p = StatusPaymentApproved \<and> i = StatusFailed \<and>
        Current s \<in> {StatusPaymentRefundPending, StatusFailed}) \<and>
     (case Current s of
        StatusPaymentPending \<Rightarrow> True
      | StatusPaymentApproved \<Rightarrow> p = StatusPaymentApproved \<and> saga_TransactionID s \<noteq> ''''
      | StatusPaymentRefundPending \<Rightarrow>
          p = StatusPaymentApproved \<and> i = StatusFailed \<and> saga_TransactionID s \<noteq> ''''
      | StatusInventoryReserved \<Rightarrow> p = StatusPaymentApproved \<and> i = StatusInventoryReserved
      | st \<Rightarrow> st = final_status p i \<and> outcome_noted p i n (Metadata (last es)) \<and>
          (p = StatusPaymentApproved \<and> i \<noteq> StatusInventoryReserved \<longrightarrow> saga_TransactionID s \<noteq> '''') \<and>
          (st = StatusCompleted \<longrightarrow>
            (\<exists>x \<in> set es. wf_event x \<and> EventType x = EventNotificationResult \<and> StatusAtual x = n)))"

text \<open>What the worker of the stage is known to answer.\<close>

definition stage_reply :: "order_status \<Rightarrow> order_status \<Rightarrow> order_status \<Rightarrow> order_status \<Rightarrow> event \<Rightarrow> bool" where
  "stage_reply p i n st out \<longleftrightarrow>
     (case st of
        StatusPaymentPending \<Rightarrow>
          StatusAtual out = p \<and> (p = StatusPaymentApproved \<longrightarrow> TransactionID out \<noteq> '''')
      | StatusPaymentApproved \<Rightarrow> StatusAtual out = i
      | StatusInventoryReserved \<Rightarrow> StatusAtual out = n
      | _ \<Rightarrow> True)"

lemma constant_answers_at:
  assumes "constant_answers g oid p i n" and "live_status (Current s)"
  shows "always_replies g oid (command_type (Current s)) (stage_reply p i n (Current s))"
  using assms by (auto simp: constant_answers_def live_status_def stage_reply_def always_replies_def)

lemmas track_defs = on_track_def stage_reply_def outgoing_def final_status_def outcome_noted_def
  notification_note_def retry_or_def

text \<open>The decisions by stage, as what they tell of the answer.\<close>

lemma react_at:
  assumes "react maxR s out = Some r"
  shows "Current s = StatusPaymentPending \<Longrightarrow> react_payment maxR s out = Some r"
    "Current s = StatusPaymentApproved \<Longrightarrow> react_inventory maxR s out = Some r"
    "Current s = StatusInventoryReserved \<Longrightarrow> react_notification maxR s out = Some r"
    "Current s = StatusPaymentRefundPending \<Longrightarrow> react_refund maxR s out = Some r"
  using assms by (auto simp: react_def split: if_splits)

lemma on_track_step:
  assumes ok: "saga_ok maxR s" and track: "on_track p i n s es" and r: "react maxR s out = Some r"
    and reply: "stage_reply p i n (Current s) out" and t: "EventType out \<in> result_types"
    and wf: "wf_event out"
  shows "on_track p i n (next_saga r s) (es @ [out, reaction_event eid now s r])"
proof -
  have out: "EventType out \<noteq> EventPaymentCompensate"
    using t by (auto simp: result_types_def)
  from react_live [OF r] consider "Current s = StatusPaymentPending" | "Current s = StatusPaymentApproved"
    | "Current s = StatusInventoryReserved" | "Current s = StatusPaymentRefundPending"
    by (auto simp: live_status_def)
  then show ?thesis
  proof cases
    case 1
    with track reply react_at(1) [OF r] out show ?thesis
      by (auto simp: track_defs react_payment_def split: order_status.splits if_splits)
  next
    case 2
    with track reply react_at(2) [OF r] out show ?thesis
      by (auto simp: track_defs react_inventory_def split: order_status.splits if_splits)
  next
    case 3
    then have "EventType out = EventNotificationResult"
      using r by (auto simp: react_def split: if_splits)
    with 3 track reply react_at(3) [OF r] out wf show ?thesis
      by (auto simp: track_defs react_notification_def split: order_status.splits if_splits)
  next
    case 4
    with track reply react_at(4) [OF r] out show ?thesis
      by (auto simp: track_defs react_refund_def refund_outcome_def split: order_status.splits if_splits)
  qed
qed

lemma drive_on_track:
  assumes "gateways_ok g" and "constant_answers g oid p i n"
    and "at_stage maxR w0 bus oid s w" and "budget maxR s \<le> int k"
    and "order_messages oid (pg_view w) = map message_of es" and "on_track p i n s es"
    and "distinct_ids w0 (w\<lparr>drawn := drawn w + 2 * k\<rparr>)"
  shows "\<exists>j \<le> 2 * k. \<exists>t ts. a_sagas (pg_view (drive maxR g oid j w)) oid = Some t \<and>
    terminal_status (Current t) \<and>
    order_messages oid (pg_view (drive maxR g oid j w)) = map message_of ts \<and> on_track p i n t ts \<and>
    drawn (drive maxR g oid j w) = drawn w + j"
  using assms(3-)
proof (induction k arbitrary: s w es)
  have ok: "saga_ok maxR s" if at: "at_stage maxR w0 bus oid s w" for s w
  proof -
    obtain S where "simulates maxR w0 w bus S"
      using at by (auto simp: at_stage_def)
    then show ?thesis
      using at saga_ok_of [of maxR S oid s] by (simp add: at_stage_def simulates_def sys_run_inv)
  qed
  {
    case 0
    then show ?case
      using budget_positive [OF ok [OF 0(1)]] by (simp add: at_stage_def)
  next
    case (Suc k)
    note at = Suc.prems(1)
    have live: "live_status (Current s)"
      using at ok [OF at] by (auto simp: at_stage_def saga_ok_def)
    have ids: "distinct_ids w0 (w\<lparr>drawn := drawn w + 2\<rparr>)"
      by (rule distinct_ids_mono [OF Suc.prems(5)]) simp
    let ?v = "drive maxR g oid 2 w"
    obtain r out eid now where v: "react maxR s out = Some r" "stage_reply p i n (Current s) out"
        "drawn ?v = drawn w + 2" "wf_event out" "EventType out = result_type (command_type (Current s))"
        "a_sagas (pg_view ?v) oid = Some (next_saga r s)"
        "order_messages oid (pg_view ?v) =
           order_messages oid (pg_view w) @ [message_of out, message_of (reaction_event eid now s r)]"
        "\<not> terminal_status (Current (next_saga r s)) \<Longrightarrow> at_stage maxR w0 bus oid (next_saga r s) ?v"
      by (rule drive_stage [OF at assms(1) constant_answers_at [OF assms(2) live] ids refl]) blast
    let ?es = "es @ [out, reaction_event eid now s r]"
    have "EventType out \<in> result_types"
      using live v(5) by (auto simp: live_status_def result_types_def)
    then have track: "on_track p i n (next_saga r s) ?es"
      by (intro on_track_step [OF ok [OF at] Suc.prems(4) v(1,2) _ v(4)])
    have msgs: "order_messages oid (pg_view ?v) = map message_of ?es"
      using v(7) Suc.prems(3) by simp
    have shift: "drive maxR g oid (Suc (Suc j)) w = drive maxR g oid j ?v" for j
      by (simp add: numeral_2_eq_2)
    show ?case
    proof (cases "terminal_status (Current (next_saga r s))")
      case True
      with v(3,6) msgs track show ?thesis
        by (intro exI [of _ 2] conjI exI [of _ "next_saga r s"] exI [of _ ?es]) simp_all
    next
      case False
      have "budget maxR (next_saga r s) \<le> int k"
        using budget_decreases [OF ok [OF at] v(1)] Suc.prems(2) by simp
      moreover have "distinct_ids w0 (?v\<lparr>drawn := drawn ?v + 2 * k\<rparr>)"
        using Suc.prems(5) v(3) by (simp add: distinct_ids_def)
      ultimately obtain j t ts where "j \<le> 2 * k"
          "a_sagas (pg_view (drive maxR g oid j ?v)) oid = Some t" "terminal_status (Current t)"
          "order_messages oid (pg_view (drive maxR g oid j ?v)) = map message_of ts" "on_track p i n t ts"
          "drawn (drive maxR g oid j ?v) = drawn ?v + j"
        using Suc.IH [OF v(8) [OF False] _ msgs track] by blast
      then show ?thesis
        by (intro exI [of _ "j + 2"] conjI exI [of _ t] exI [of _ ts]) (simp_all add: shift v(3) del: drive.simps)
    qed
  }
qed

text \<open>A just started order is at the stage of its payment.\<close>

lemma just_started_at:
  assumes S: "simulates maxR w0 w bus S" and "pg_healthy w" and start: "just_started oid (pg_view w)"
  shows "at_stage maxR w0 bus oid (new_saga oid) w \<and>
    (\<exists>es. order_messages oid (pg_view w) = map message_of es \<and> on_track p i n (new_saga oid) es)"
proof -
  have inv: "sys_inv maxR S" and st: "store S = pg_view w"
    using S by (auto simp: simulates_def sys_run_inv)
  have s: "a_sagas (pg_view w) oid = Some (new_saga oid)"
    using start by (simp add: just_started_def)
  have live: "\<not> terminal_status (Current (new_saga oid))"
    by (simp add: new_saga_def terminal_status_def)
  obtain m where m: "order_messages oid (pg_view w) = [m]"
    using start by (auto simp: just_started_def length_Suc_conv)
  have "order_inv maxR oid (pg_view w)"
    using run_inv_of [OF inv] unfolding run_inv_def st by blast
  then have "sent oid (pg_view w) \<noteq> []"
    using s by (auto simp: order_inv_def)
  then obtain m' where "m' \<in> set (sent oid (pg_view w))"
    by (cases "sent oid (pg_view w)") auto
  moreover have "set (sent oid (pg_view w)) \<subseteq> set (order_messages oid (pg_view w))"
    by (auto simp: sent_def order_messages_def)
  ultimately have "msg_Topic m \<in> orchestrator_out_topics"
    using m by (auto simp: sent_def)
  then have at: "at_stage maxR w0 bus oid (new_saga oid) w"
    using S assms(2) s live m by (auto simp: at_stage_def)
  obtain S' e where e: "last (order_messages oid (pg_view w)) = message_of e"
      "EventType e = command_type (Current (new_saga oid))"
    by (rule stage_command [OF at]) blast
  have "on_track p i n (new_saga oid) [e]"
    using e(2) by (simp add: on_track_def new_saga_def)
  moreover have "order_messages oid (pg_view w) = map message_of [e]"
    using e(1) m by simp
  ultimately show ?thesis
    using at by blast
qed

lemma case_ends:
  assumes run: "cluster_run maxR g w0 w bus" and ok: "gateways_ok g" and "pg_view w0 = empty_db"
    and "pg_healthy w" and "just_started oid (pg_view w)" and "constant_answers g oid p i n"
    and ids: "distinct_ids w0 (w\<lparr>drawn := drawn w + nat (6 * (max 0 maxR + 1))\<rparr>)"
  shows "\<exists>j \<le> nat (6 * (max 0 maxR + 1)). \<exists>s es.
    a_sagas (pg_view (drive maxR g oid j w)) oid = Some s \<and>
    order_messages oid (pg_view (drive maxR g oid j w)) = map message_of es \<and>
    Current s = final_status p i \<and> outcome_noted p i n (Metadata (last es)) \<and>
    (EventPaymentCompensate \<in> EventType ` set es \<longleftrightarrow> p = StatusPaymentApproved \<and> i = StatusFailed) \<and>
    (p = StatusPaymentApproved \<and> i \<noteq> StatusInventoryReserved \<longrightarrow> saga_TransactionID s \<noteq> '''') \<and>
    (Current s = StatusCompleted \<longrightarrow> (\<exists>x \<in> set es. wf_event x \<and> EventType x = EventNotificationResult \<and> StatusAtual x = n)) \<and>
    drawn (drive maxR g oid j w) = drawn w + j"
proof -
  have "distinct_ids w0 w"
    using distinct_ids_mono [OF ids] by simp
  then obtain S where S: "simulates maxR w0 w bus S"
    using cluster_simulated [OF run ok assms(3)] by blast
  obtain es where at: "at_stage maxR w0 bus oid (new_saga oid) w"
      and es: "order_messages oid (pg_view w) = map message_of es" "on_track p i n (new_saga oid) es"
    using just_started_at [OF S assms(4,5)] by blast
  let ?k = "nat (3 * (max 0 maxR + 1))"
  have double: "2 * ?k = nat (6 * (max 0 maxR + 1))"
    by (simp add: nat_mult_distrib)
  have "budget maxR (new_saga oid) \<le> int ?k"
    by (simp add: budget_def new_saga_def)
  with drive_on_track [OF ok assms(6) at _ es, of ?k] ids
  obtain j t ts where end_: "j \<le> 2 * ?k" "a_sagas (pg_view (drive maxR g oid j w)) oid = Some t"
      "terminal_status (Current t)" "order_messages oid (pg_view (drive maxR g oid j w)) = map message_of ts"
      "on_track p i n t ts" "drawn (drive maxR g oid j w) = drawn w + j"
    unfolding double by blast
  have "Current t = final_status p i \<and> outcome_noted p i n (Metadata (last ts)) \<and>
    (EventPaymentCompensate \<in> EventType ` set ts \<longleftrightarrow> p = StatusPaymentApproved \<and> i = StatusFailed) \<and>
    (p = StatusPaymentApproved \<and> i \<noteq> StatusInventoryReserved \<longrightarrow> saga_TransactionID t \<noteq> '''') \<and>
    (Current t = StatusCompleted \<longrightarrow> (\<exists>x \<in> set ts. wf_event x \<and> EventType x = EventNotificationResult \<and> StatusAtual x = n))"
    using end_(3,5) by (auto simp: on_track_def terminal_status_def final_status_def split: if_splits)
  with end_(1,2,4,6) show ?thesis
    unfolding double by blast
qed

section \<open>The simulators answer an order by its identifier\<close>

text \<open>
  The status of every answer of the payment and the inventory simulator for an order: the marker in
  the identifier, or else the draw of the generator it seeds, against the rate. A marker
  \<open>-retry-once\<close> makes the answer depend on the attempt; it is left out here.
\<close>

definition simulated :: "(int \<Rightarrow> rat) \<Rightarrow> string \<Rightarrow> string \<Rightarrow> rat \<Rightarrow> order_status \<Rightarrow> order_status" where
  "simulated f64 oid stg rate ok =
     (case matchScenario oid stg of
        scenarioFail \<Rightarrow> StatusFailed
      | scenarioNone \<Rightarrow> if randForOrder f64 oid < rate then ok else StatusFailed
      | _ \<Rightarrow> StatusRetrying)"

definition decided :: "string \<Rightarrow> bool" where
  "decided oid \<longleftrightarrow> (\<forall>stg \<in> {''payment'', ''inventory'', ''notification''}.
     matchScenario oid stg \<noteq> scenarioRetryOnce)"

lemmas simulator_defs = PaymentSimulator_Process_def InventorySimulator_Reserve_def
  NotificationSimulator_Notify_def simulated_def result_defs result_of_def tryM_def next_attempt_def
  new_tx_def Let_def returnM_def failM_def time_Now_def

lemma simulators_constant:
  assumes "decided oid"
  shows "constant_answers (simulators f64) oid
    (simulated f64 oid ''payment'' (85 / 100) StatusPaymentApproved)
    (simulated f64 oid ''inventory'' (9 / 10) StatusInventoryReserved)
    (simulated f64 oid ''notification'' (95 / 100) StatusNotified)"
proof -
  note mode = assms [unfolded decided_def, rule_format]
  have "StatusAtual (process_result e eid now (fst (PaymentSimulator_Process f64 rate oid u))) =
      simulated f64 oid ''payment'' rate StatusPaymentApproved \<and>
    (simulated f64 oid ''payment'' rate StatusPaymentApproved = StatusPaymentApproved \<longrightarrow>
      TransactionID (process_result e eid now (fst (PaymentSimulator_Process f64 rate oid u))) \<noteq> '''')"
    for e eid now rate and u :: "'a pgenv_scheme"
    using mode [of "''payment''"]
    by (cases "matchScenario oid ''payment''") (auto simp: simulator_defs)
  moreover have "StatusAtual (reserve_result e eid now (fst (InventorySimulator_Reserve f64 rate oid u))) =
      simulated f64 oid ''inventory'' rate StatusInventoryReserved"
    for e eid now rate and u :: "'a pgenv_scheme"
    using mode [of "''inventory''"]
    by (cases "matchScenario oid ''inventory''") (auto simp: simulator_defs)
  moreover have "StatusAtual (notify_result e eid now (fst (NotificationSimulator_Notify f64 rate oid u))) =
      simulated f64 oid ''notification'' rate StatusNotified"
    for e eid now rate and u :: "'a pgenv_scheme"
    using mode [of "''notification''"]
    by (cases "matchScenario oid ''notification''") (auto simp: simulator_defs)
  ultimately show ?thesis
    by (simp add: constant_answers_def always_replies_def simulators_def PaymentSimulator_def
        InventorySimulator_def NotificationSimulator_def)
qed

section \<open>Properties\<close>



section \<open>Example orders\<close>

definition begun :: "(int \<Rightarrow> rat) \<Rightarrow> string \<Rightarrow> pgenv" where
  "begun f64 oid = snd (deliver_message 3 (simulators f64) (message_of (created_event
     (event_id_at (entropy (empty_world (\<lambda>_. NoFault))) 0) 0 oid)) one_order)"

lemma begun_run:
  "cluster_run 3 (simulators f64) (empty_world (\<lambda>_. NoFault)) (begun f64 oid)
     [message_of (created_event (event_id_at (entropy (empty_world (\<lambda>_. NoFault))) 0) 0 oid)]"
proof -
  have "cluster_run 3 (simulators f64) (empty_world (\<lambda>_. NoFault)) one_order
      [message_of (created_event (event_id_at (entropy (empty_world (\<lambda>_. NoFault))) 0) 0 oid)]"
    using cluster_create [OF cluster_start, of 3 "simulators f64" "empty_world (\<lambda>_. NoFault)" oid]
    by (simp add: one_order_def empty_world_def)
  then show ?thesis
    unfolding begun_def by (rule cluster_deliver) simp
qed

lemma begun_state:
  "drawn (begun f64 oid) = 2" "pg_healthy (begun f64 oid)" "just_started oid (pg_view (begun f64 oid))"
proof -
  have "msg_Topic (message_of (created_event eid now oid)) \<in> set orchestrator_topics" for eid now
    by (simp add: orchestrator_topics_def created_event_def message_of_def)
  then have run: "begun f64 oid = snd (HandleEvent (New_orchestrator WithTx 3)
     (created_event (event_id_at (entropy (empty_world (\<lambda>_. NoFault))) 0) 0 oid) one_order)"
    by (simp only: begun_def deliver_message_of [OF wf_created_event] if_True)
  show "drawn (begun f64 oid) = 2" "pg_healthy (begun f64 oid)"
    "just_started oid (pg_view (begun f64 oid))"
    by (simp_all add: run one_order_def created_event_def run_defs journal_row_of_def pg_view_def pg_healthy_def
        just_started_def new_saga_def order_messages_def message_of_row_def)
qed

lemma begun_ids: "distinct_ids (empty_world (\<lambda>_. NoFault))
    ((begun f64 oid)\<lparr>drawn := drawn (begun f64 oid) + nat (6 * (max 0 3 + 1))\<rparr>)"
  by (rule distinct_ids_empty_world) (simp add: begun_state)



end
