(* ===== verification/ViewOutcome.thy ===== *)
theory ViewOutcome
  imports Projection Scenarios
begin

text \<open>
  The view of a completed order whose notification failed, and the runs of the projector beside the
  debug scenarios that show it: every message of the bus fetched once, in the order of the bus.
\<close>

section \<open>A consumer that fetches a list of messages\<close>

lemma consumer_step_ok:
  assumes "fetch_plan u (length (trace u)) = Fetched km" and "decode (km_Value km) = Inr e"
    and "SchemaVersion e = CurrentSchemaVersion" and "handler e (svc u) = (Inr (), s)"
    and "clock u = (\<lambda>_. 0)" and "cb_last (batcher l) = 0" and "0 < cb_interval (batcher l)"
    and "cb_pending (batcher l) + 1 < cb_batch (batcher l)"
  shows "\<exists>l' v. consumer_step c handler l u = (Inr l', v) \<and>
    trace v = trace u @ [Fetch (reader l) (Fetched km), Handle e None] \<and> svc v = s \<and>
    fetch_plan v = fetch_plan u \<and> clock v = clock u \<and> cb_last (batcher l') = 0 \<and>
    cb_interval (batcher l') = cb_interval (batcher l) \<and> cb_batch (batcher l') = cb_batch (batcher l) \<and>
    cb_pending (batcher l') = cb_pending (batcher l) + 1"
  using assms
  by (simp add: consumer_step_def tryM_def FetchMessage_def log_call_def validateSchemaVersion_def
      record_metric_def time_Now_def run_handler_def shouldFlush_def batcher_add_def returnM_def Let_def)

text \<open>The events a handler takes without an error, one after the other.\<close>

fun accepts :: "'w event_handler \<Rightarrow> kafka_message list \<Rightarrow> 'w \<Rightarrow> bool" where
  "accepts h [] s = True"
| "accepts h (km # kms) s =
     (\<exists>e v. decode (km_Value km) = Inr e \<and> SchemaVersion e = CurrentSchemaVersion \<and> h e s = (Inr (), v) \<and>
        accepts h kms v)"

lemma consumer_loop_fetches:
  assumes "accepts handler kms (svc u)" and "clock u = (\<lambda>_. 0)" and "cb_last (batcher l) = 0"
    and "0 < cb_interval (batcher l)" and "cb_pending (batcher l) + int (length kms) < cb_batch (batcher l)"
    and "\<And>i. i < length kms \<Longrightarrow> fetch_plan u (length (trace u) + 2 * i) = Fetched (kms ! i)"
  shows "\<exists>l' v tr. consumer_loop c handler (length kms) l u = (Inr l', v) \<and> trace v = trace u @ tr \<and>
    fetched_in tr = kms"
  using assms
proof (induction kms arbitrary: l u)
  case Nil
  then show ?case
    by (simp add: returnM_def)
next
  case (Cons km kms)
  obtain e s where e: "decode (km_Value km) = Inr e" "SchemaVersion e = CurrentSchemaVersion"
      "handler e (svc u) = (Inr (), s)" "accepts handler kms s"
    using Cons.prems(1) by auto
  have "fetch_plan u (length (trace u)) = Fetched km"
    using Cons.prems(6) [of 0] by simp
  from consumer_step_ok [of u km e handler s l c, OF this e(1-3) Cons.prems(2-4)] Cons.prems(5)
  obtain l' v where v: "consumer_step c handler l u = (Inr l', v)"
    "trace v = trace u @ [Fetch (reader l) (Fetched km), Handle e None]" "svc v = s"
    "fetch_plan v = fetch_plan u" "clock v = clock u" "cb_last (batcher l') = 0"
    "cb_interval (batcher l') = cb_interval (batcher l)" "cb_batch (batcher l') = cb_batch (batcher l)"
    "cb_pending (batcher l') = cb_pending (batcher l) + 1"
    by fastforce
  have "\<exists>l'' x tr. consumer_loop c handler (length kms) l' v = (Inr l'', x) \<and> trace x = trace v @ tr \<and>
      fetched_in tr = kms"
  proof (rule Cons.IH)
    show "fetch_plan v (length (trace v) + 2 * i) = Fetched (kms ! i)" if "i < length kms" for i
      using Cons.prems(6) [of "Suc i"] that v(2,4) by simp
  qed (use Cons.prems v e(4) in simp_all)
  then obtain l'' x tr where x: "consumer_loop c handler (length kms) l' v = (Inr l'', x)"
      "trace x = trace v @ tr" "fetched_in tr = kms"
    by blast
  then have "consumer_loop c handler (length (km # kms)) l u = (Inr l'', x)"
    using v(1) by (simp add: tryM_def)
  moreover have "trace x = trace u @ (Fetch (reader l) (Fetched km) # Handle e None # tr)"
    using x(2) v(2) by simp
  ultimately show ?case
    using x(3) by (intro exI [of _ l''] exI [of _ x]
        exI [of _ "Fetch (reader l) (Fetched km) # Handle e None # tr"] conjI) simp_all
qed

text \<open>A broker that has the messages ready and never ends the goroutine, with a clock that stands.\<close>

definition feeding :: "kafka_message list \<Rightarrow> 'w \<Rightarrow> 'w kafka_env" where
  "feeding kms s = \<lparr>entropy = \<lambda>_ _. 0, drawn = 0, clock = \<lambda>_. 0, ticks = 0, attempts = \<lambda>_ _. 0,
     metrics = new_registry, svc = s, readers = 0,
     fetch_plan = \<lambda>n. if odd n \<and> n div 2 < length kms then Fetched (kms ! (n div 2)) else FetchCancelled,
     error_plan = \<lambda>_. None, trace = []\<rparr>"

lemma feeding_fetches:
  assumes "accepts handler kms s" and "int (length kms) < commitBatch c" and "0 < commitInterval c"
  shows "fetched_in (trace (snd (consumeWorker c handler (length kms) (feeding kms s)))) = kms"
proof -
  obtain l u where u: "start_worker c (feeding kms s) = (Inr l :: go_error \<times> worker_state + worker_state, u)" "trace u = [OpenReader 0]" "svc u = s"
    "clock u = (\<lambda>_. 0)" "fetch_plan u = fetch_plan (feeding kms s)" "cb_last (batcher l) = 0"
    "cb_interval (batcher l) = commitInterval c" "cb_pending (batcher l) = 0"
    "cb_batch (batcher l) = commitBatch c"
    by (simp add: start_worker_def tryM_def newReader_def time_Now_def returnM_def log_call_def
        newCommitBatcher_def feeding_def)
  have "\<exists>l' v tr. consumer_loop c handler (length kms) l u = (Inr l', v) \<and> trace v = trace u @ tr \<and>
      fetched_in tr = kms"
  proof (rule consumer_loop_fetches)
    show "fetch_plan u (length (trace u) + 2 * i) = Fetched (kms ! i)" if "i < length kms" for i
      using that u(2,5) by (simp add: feeding_def)
  qed (use assms u in simp_all)
  then obtain l' v tr where v: "consumer_loop c handler (length kms) l u = (Inr l', v)"
      "trace v = trace u @ tr" "fetched_in tr = kms"
    by blast
  then have "consumeWorker c handler (length kms) (feeding kms s) = (Running l', v)"
    using u(1) by (simp add: consumeWorker_def tryM_def)
  then show ?thesis
    using v(2,3) u(2) by (simp add: fetched_in_append)
qed

section \<open>A failed notification hides the completion\<close>

lemma new_events_distinct:
  "distinct (map EventID es) \<Longrightarrow> set seen \<inter> EventID ` set es = {} \<Longrightarrow> new_events seen es = es"
  by (induction es arbitrary: seen) auto

lemma sent_ids_distinct:
  assumes "sys_inv maxR S"
  shows "distinct (map EventID (created S @ outs S))"
  using assms by (simp add: sys_inv_def)

text \<open>Copies of all messages in the order of the bus decode to the events that were sent.\<close>

lemma fetched_in_order:
  assumes sim: "simulates maxR w0 w msgs S" and kms: "list_all2 copy_of kms (msgs @ a_out (pg_view w))"
  shows "map fetched_event kms = created S @ outs S"
proof -
  define es where "es = created S @ outs S"
  have inv: "sys_inv maxR S"
    using sim by (simp add: simulates_def sys_run_inv)
  then have bus: "msgs @ a_out (pg_view w) = map message_of es"
    using sim by (simp add: simulates_def sys_inv_def es_def)
  have len: "length kms = length es"
    using kms bus by (metis length_map list_all2_lengthD)
  have "fetched_event (kms ! j) = es ! j" if j: "j < length es" for j
  proof -
    have "copy_of (kms ! j) (message_of (es ! j))"
      using list_all2_nthD2 [OF kms [unfolded bus], of j] j by simp
    moreover have "message_of (es ! j) \<in> set (msgs @ a_out (pg_view w))"
      unfolding bus using j by auto
    ultimately have "message_of (es ! j) = message_of (fetched_event (kms ! j))"
      "fetched_event (kms ! j) \<in> set es"
      using fetched_copy [OF sim] unfolding es_def by blast+
    then show ?thesis
      using event_with_id [OF inv _ nth_mem [OF j, unfolded es_def]] unfolding es_def by (metis message_of_simps(1))
  qed
  with len have "map fetched_event kms = es"
    by (auto intro: nth_equalityI)
  then show ?thesis
    by (simp add: es_def)
qed

lemma outcome_is_last:
  assumes "sys_inv maxR S" and "a_sagas (store S) oid = Some s" and "terminal_status (Current s)"
    and "e \<in> set (chain oid (outs S))" and "EventType e \<in> {EventOrderCompleted, EventOrderFailed}"
  shows "e = last (chain oid (outs S))"
proof -
  obtain old x where x: "chain oid (outs S) = old @ [x]" "token maxR (store S) s x"
    using chain_ok_of [OF assms(1), of oid] assms(2) by (auto simp: chain_ok_def)
  have topic: "msg_Topic (message_of y) = TopicOrderStatus"
    if "EventType y \<in> {EventOrderCompleted, EventOrderFailed}" for y
    using that by (auto simp: message_of_def topic_defs)
  have "order_inv maxR oid (store S)"
    using run_inv_of [OF assms(1)] by (simp add: run_inv_def)
  then have one: "length (outcomes oid (store S)) = 1"
    using assms(2,3) by (simp add: order_inv_def)
  have "outcomes oid (store S) = filter (\<lambda>m. msg_Topic m = TopicOrderStatus) (order_messages oid (store S))"
    by (auto simp: outcomes_def sent_def order_messages_def orchestrator_out_topics_def intro: filter_cong)
  also have "\<dots> = filter (\<lambda>m. msg_Topic m = TopicOrderStatus) (map message_of old) @ [message_of x]"
    using x assms(3) topic [of x] by (simp add: order_messages_chain [OF assms(1)] token_def)
  finally have "\<forall>y \<in> set old. msg_Topic (message_of y) \<noteq> TopicOrderStatus"
    using one by (auto simp: filter_empty_conv)
  then show ?thesis
    using assms(4,5) x(1) topic by auto
qed

lemma in_order_copies:
  assumes "list_all2 copy_of kms ms"
  shows "km \<in> set kms \<Longrightarrow> bus_copy ms km" "m \<in> set ms \<Longrightarrow> \<exists>km \<in> set kms. copy_of km m"
proof -
  show "bus_copy ms km" if "km \<in> set kms"
    using assms that unfolding bus_copy_def list_all2_conv_all_nth in_set_conv_nth by (metis nth_mem)
  show "\<exists>km \<in> set kms. copy_of km m" if "m \<in> set ms"
    using assms that unfolding list_all2_conv_all_nth in_set_conv_nth by (metis nth_mem)
qed

lemma hd_filter_front: "x \<in> set xs \<Longrightarrow> P x \<Longrightarrow> hd (filter P (xs @ ys)) \<in> set (filter P xs)"
  by (induction xs) auto

lemma hides_completion:
  assumes sim: "simulates maxR w0 w msgs S"
    and s: "a_sagas (pg_view w) oid = Some s" "Current s = StatusCompleted"
    and f: "f \<in> set (outs S)" "OrderID f = oid" "EventType f \<in> result_types" "StatusAtual f = StatusFailed"
    and kms: "list_all2 copy_of kms (msgs @ a_out (pg_view w))"
    and fresh: "read_healthy rw" "processed_events rw = []" "order_views rw oid = None"
  shows "\<exists>row. order_views (fold project1 (map fetched_event kms) rw) oid = Some row \<and>
    ov_current_status row = ''FAILED''"
proof -
  have run: "sys_run maxR S" and inv: "sys_inv maxR S" and st: "store S = pg_view w"
    using sim by (auto simp: simulates_def sys_run_inv)
  have ends: "terminal_status (Current s)"
    using s(2) by (simp add: terminal_status_def)
  define es where "es = filter (\<lambda>e. OrderID e = oid) (created S @ outs S)"
  have "new_events [] (map fetched_event kms) = created S @ outs S"
    unfolding fetched_in_order [OF sim kms] by (rule new_events_distinct [OF sent_ids_distinct [OF inv]]) simp
  then obtain row where row: "order_views (fold project1 (map fetched_event kms) rw) oid = Some row"
    "ov_current_status row = status_text (StatusAtual (hd (filter terminal_event es)))"
    using finished_view [OF sim s(1) ends in_order_copies [OF kms] fresh] unfolding es_def Let_def by auto
  let ?t = "hd (filter terminal_event es)"
  obtain front x where x: "chain oid (outs S) = front @ [x]" "token maxR (store S) s x"
    using chain_ok_of [OF inv, of oid] s(1) st by (auto simp: chain_ok_def)
  have es: "es = (filter (\<lambda>e. OrderID e = oid) (created S) @ front) @ [x]"
    using x(1) by (simp add: es_def chain_def)
  have x_type: "EventType x \<in> {EventOrderCompleted, EventOrderFailed}"
    using x(2) ends by (simp add: token_def)
  have "f \<in> set front"
    using f x(1) x_type set_chain [of f oid "outs S"] by (auto simp: result_types_def)
  moreover have "terminal_event f"
    using f(4) by (simp add: terminal_event_def)
  ultimately have "?t \<in> set (filter terminal_event (filter (\<lambda>e. OrderID e = oid) (created S) @ front))"
    unfolding es by (intro hd_filter_front) simp_all
  then have t: "?t \<in> set (filter (\<lambda>e. OrderID e = oid) (created S) @ front)" "terminal_event ?t"
    by auto
  have mem: "?t \<in> set (created S @ outs S)" "OrderID ?t = oid"
    using t(1) x(1) set_chain [of ?t oid "outs S"] by auto
  have "\<not> EventType ?t \<in> {EventOrderCompleted, EventOrderFailed}"
  proof
    assume type: "EventType ?t \<in> {EventOrderCompleted, EventOrderFailed}"
    then have "?t \<in> set front"
      using t(1) inv by (auto simp: sys_inv_def)
    then have "?t \<in> set (chain oid (outs S))"
      by (simp add: x(1))
    from outcome_is_last [OF inv _ ends this type] have "?t = x"
      using s(1) st x(1) by simp
    moreover have "distinct (map EventID (chain oid (outs S)))"
      using sent_ids_distinct [OF inv] by (simp add: chain_def distinct_map_filter)
    ultimately show False
      using \<open>?t \<in> set front\<close> unfolding x(1) by auto
  qed
  then have "StatusAtual ?t = StatusFailed"
    using order_events_status [OF run mem(1) t(2), of s] mem(2) s(1) st by auto
  then show ?thesis
    using row by auto
qed

section \<open>Messages stay on the bus\<close>

lemma abs_publish_grows: "set (a_out d) \<subseteq> set (a_out (abs_publish e d))"
  by (auto simp: abs_publish_def)

lemma worker_effect_grows: "set (a_out d) \<subseteq> set (a_out (worker_effect who e req resp out d))"
  by (auto simp: worker_effect_def abs_publish_def)

lemma orch_spec_grows: "orch_spec maxR eid now e d = Accept d' \<Longrightarrow> set (a_out d) \<subseteq> set (a_out d')"
  using abs_publish_grows
  by (fastforce simp: orch_spec_def apply_start_def apply_reaction_def emit_def Let_def
      split: if_splits option.splits)

lemma deliver_grows:
  assumes "gateways_ok g"
  shows "set (a_out (pg_view w)) \<subseteq> set (a_out (pg_view (snd (deliver_message maxR g m w))))"
proof -
  have orch: "set (a_out (pg_view w)) \<subseteq> set (a_out (pg_view (snd (HandleEvent (New_orchestrator WithTx maxR) e w))))"
    for e
    using handle_effect [of w maxR e] orch_spec_grows by fastforce
  have work: "set (a_out (pg_view w)) \<subseteq> set (a_out (pg_view (snd (worker_Handle g e w))))" for e
  proof (cases "valid_command e")
    case True
    with worker_view_effect [OF assms True, of w] show ?thesis
      using worker_effect_grows by (fastforce simp: command_done_def split: if_splits)
  next
    case False
    then show ?thesis
      using worker_Handle_invalid [OF False, of g] by auto
  qed
  show ?thesis
    using orch work by (auto simp: deliver_message_def returnM_def failM_def split: sum.split)
qed

lemma drive_run:
  assumes "gateways_ok g"
  shows "cluster_run maxR g w0 w bus \<Longrightarrow> order_messages oid (pg_view w) \<noteq> [] \<Longrightarrow>
    cluster_run maxR g w0 (drive maxR g oid n w) bus"
proof (induction n arbitrary: w)
  case (Suc n)
  let ?v = "snd (deliver_message maxR g (last (order_messages oid (pg_view w))) w)"
  have "last (order_messages oid (pg_view w)) \<in> set (a_out (pg_view w))"
    using last_in_set [OF Suc.prems(2)] by (simp add: order_messages_def)
  then have "cluster_run maxR g w0 ?v bus"
    using Suc.prems(1) by (intro cluster_deliver) simp_all
  moreover have "order_messages oid (pg_view ?v) \<noteq> []"
    using Suc.prems(2) deliver_grows [OF assms, of w maxR "last (order_messages oid (pg_view w))"]
    unfolding order_messages_def filter_empty_conv by blast
  ultimately show ?case
    using Suc.IH by simp
qed simp

section \<open>Properties\<close>

text \<open>
  C35: a completed order whose notification failed shows FAILED for ever: when the projector fetches
  the messages of the running system in the order they were sent, each once, from a read database that
  answers, the NOTIFICATION_RESULT with status FAILED makes the view terminal, and ORDER_COMPLETED no
  longer changes it.
\<close>

theorem failed_notification_hides_completion:
  fixes k :: "'b read_env_scheme kafka_env"
  assumes "cluster_run maxR g w0 w msgs" and "gateways_ok g" and "pg_view w0 = empty_db"
    and "distinct_ids w0 w"
    and s: "a_sagas (pg_view w) oid = Some s" "Current s = StatusCompleted"
    and f: "m \<in> set (a_out (pg_view w))" "msg_Key m = oid" "unmarshal_event (msg_Payload m) = Inr f"
      "EventType f = EventNotificationResult" "StatusAtual f = StatusFailed"
    and v: "v = snd (consumeWorker (NewConsumer pd getenv (svc_config (projector_main getenv)))
      (svc_handler (projector_main getenv)) n k)"
    and kms: "list_all2 copy_of (fetched_in (drop (length (trace k)) (trace v))) (msgs @ a_out (pg_view w))"
    and fresh: "read_healthy (svc k)" "processed_events (svc k) = []" "order_views (svc k) oid = None"
  shows "\<exists>row. order_views (svc v) oid = Some row \<and> ov_current_status row = ''FAILED''"
proof -
  obtain S where sim: "simulates maxR w0 w msgs S"
    using cluster_simulated [OF assms(1-4)] by blast
  obtain e where e: "m = message_of e" "e \<in> set (outs S)" "wf_event e"
    by (rule outbox_event [OF sim f(1)]) blast
  have "e = f"
    using f(3) e(1) message_decoded [OF e(3)] by simp
  with e f have failed: "f \<in> set (outs S)" "OrderID f = oid" "EventType f \<in> result_types" "StatusAtual f = StatusFailed"
    by (auto simp: result_types_def)
  let ?kms = "fetched_in (drop (length (trace k)) (trace v))"
  have "\<exists>tr. trace v = trace k @ tr \<and>
      svc v = fold (deliver_fetched (svc_handler (projector_main getenv))) (fetched_in tr) (svc k)"
    unfolding v by (rule consumer_replay)
  then have "svc v = fold project1 (map fetched_event ?kms) (svc k)"
    using projector_replay [OF sim in_order_copies(1) [OF kms]] by auto
  then show ?thesis
    using hides_completion [OF sim s failed kms fresh] by simp
qed

section \<open>The projector beside an order\<close>

text \<open>A copy of a message, and the projector fed with copies of the whole bus in order.\<close>

definition copy_on :: "message \<Rightarrow> kafka_message" where
  "copy_on m = \<lparr>km_Topic = msg_Topic m, km_Partition = 0, km_Offset = 0, km_Key = msg_Key m,
     km_Value = JsonText (msg_Payload m)\<rparr>"

lemma copy_on: "copy_of (copy_on m) m"
  by (simp add: copy_of_def copy_on_def)

lemma copies_on: "list_all2 copy_of (map copy_on ms) ms"
  by (simp add: list_all2_conv_all_nth copy_on)

definition no_views :: read_env where
  "no_views = \<lparr>order_views = \<lambda>_. None, processed_events = [], read_plan = \<lambda>_. ReadOk, read_calls = 0\<rparr>"

definition projector :: Consumer where
  "projector = NewConsumer (\<lambda>_. None) (\<lambda>_. []) (svc_config (projector_main (\<lambda>_. []) :: read_env service))"

lemma projector_accepts:
  assumes sim: "simulates maxR w0 w msgs S" and "set ms \<subseteq> set (msgs @ a_out (pg_view w))"
    and "read_healthy rw"
  shows "accepts (svc_handler (projector_main getenv)) (map copy_on ms) rw"
  using assms(2,3)
proof (induction ms arbitrary: rw)
  case (Cons m ms)
  have e: "decode (km_Value (copy_on m)) = Inr (fetched_event (copy_on m))"
    "SchemaVersion (fetched_event (copy_on m)) = CurrentSchemaVersion"
    using fetched_copy [OF sim copy_on, of m] Cons.prems(1) by auto
  have "wpM (projector_HandleEvent (fetched_event (copy_on m))) (\<lambda>_. read_healthy) (\<lambda>_ _. False) rw"
    using Cons.prems(2)
    by (simp add: projector_HandleEvent_def MarkProcessed_def ApplyEvent_def wp_simps read_healthy_def Let_def)
  then obtain v where "projector_HandleEvent (fetched_event (copy_on m)) rw = (Inr (), v)" "read_healthy v"
    by (auto simp: wpM_def split: prod.splits sum.splits)
  with e Cons show ?case
    by (auto simp: projector_main_def)
qed simp

lemma messages_bounded:
  assumes "simulates maxR w0 w msgs S"
  shows "length (msgs @ a_out (pg_view w)) \<le> drawn w"
proof -
  let ?es = "created S @ outs S"
  have inv: "sys_inv maxR S" and used: "used_ids S = event_id_at (entropy w0) ` {drawn w0 ..< drawn w}"
    using assms by (auto simp: simulates_def sys_run_inv)
  have "length (msgs @ a_out (pg_view w)) = length ?es"
    using assms inv by (auto simp: simulates_def sys_inv_def)
  also have "\<dots> = card (EventID ` set ?es)"
    using distinct_card [OF sent_ids_distinct [OF inv]] by (simp add: image_Un)
  also have "\<dots> \<le> card (used_ids S)"
    using inv by (intro card_mono) (auto simp: sys_inv_def used)
  also have "\<dots> \<le> card {drawn w0 ..< drawn w}"
    unfolding used by (rule card_image_le) simp
  finally show ?thesis
    by simp
qed

lemma projector_fetches:
  assumes sim: "simulates maxR w0 w msgs S" and "drawn w < 50"
  shows "fetched_in (trace (snd (consumeWorker projector (svc_handler (projector_main (\<lambda>_. [])))
      (length (msgs @ a_out (pg_view w))) (feeding (map copy_on (msgs @ a_out (pg_view w))) no_views)))) =
    map copy_on (msgs @ a_out (pg_view w))"
proof -
  let ?ms = "msgs @ a_out (pg_view w)"
  have "commitBatch projector = 50" "0 < commitInterval projector"
    by (simp_all add: projector_def projector_main_def projector_config_def NewConsumer_def
        CommitBatchFromEnv_def CommitIntervalFromEnv_def)
  then show ?thesis
    using feeding_fetches [OF projector_accepts [OF sim order_refl, of no_views], of projector "\<lambda>_. []"]
      messages_bounded [OF sim] assms(2)
    by (simp add: read_healthy_def no_views_def)
qed

text \<open>The debug scenarios, run to their end by delivering the last message again and again.\<close>

lemma scenario_ends:
  assumes "decided oid"
  obtains j s es where "let w = drive 3 (simulators f64) oid j (begun f64 oid) in
    cluster_run 3 (simulators f64) (empty_world (\<lambda>_. NoFault)) w
      [message_of (created_event (event_id_at (entropy (empty_world (\<lambda>_. NoFault))) 0) 0 oid)] \<and>
    drawn w \<le> 26 \<and> a_sagas (pg_view w) oid = Some s \<and>
    Current s = final_status (simulated f64 oid ''payment'' (85 / 100) StatusPaymentApproved)
      (simulated f64 oid ''inventory'' (9 / 10) StatusInventoryReserved) \<and>
    order_messages oid (pg_view w) = map message_of es \<and>
    (Current s = StatusCompleted \<longrightarrow> (\<exists>x \<in> set es. wf_event x \<and> EventType x = EventNotificationResult \<and>
       StatusAtual x = simulated f64 oid ''notification'' (95 / 100) StatusNotified))"
proof -
  have "pg_view (empty_world (\<lambda>_. NoFault)) = empty_db"
    by simp
  from case_ends [OF begun_run [of f64 oid] simulators_ok this begun_state(2,3) simulators_constant [OF assms(1)] begun_ids]
  obtain j s es where j: "j \<le> nat (6 * (max 0 3 + 1))"
    and w: "a_sagas (pg_view (drive 3 (simulators f64) oid j (begun f64 oid))) oid = Some s"
    "order_messages oid (pg_view (drive 3 (simulators f64) oid j (begun f64 oid))) = map message_of es"
    "Current s = final_status (simulated f64 oid ''payment'' (85 / 100) StatusPaymentApproved)
      (simulated f64 oid ''inventory'' (9 / 10) StatusInventoryReserved)"
    "Current s = StatusCompleted \<longrightarrow> (\<exists>x \<in> set es. wf_event x \<and> EventType x = EventNotificationResult \<and>
       StatusAtual x = simulated f64 oid ''notification'' (95 / 100) StatusNotified)"
    "drawn (drive 3 (simulators f64) oid j (begun f64 oid)) = drawn (begun f64 oid) + j"
    by blast
  have "order_messages oid (pg_view (begun f64 oid)) \<noteq> []"
    using begun_state(3) [of oid f64] by (auto simp: just_started_def)
  from drive_run [OF simulators_ok begun_run this] w j show thesis
    by (intro that [of j s es]) (simp add: Let_def begun_state(1))
qed

text \<open>
  The order of the witnesses: its notification is always refused; the saga completes and the view
  shows FAILED.
\<close>

lemma failed_notification_run:
  obtains w msgs s m f where
    "cluster_run 3 (simulators (\<lambda>_. 0)) (empty_world (\<lambda>_. NoFault)) w msgs"
    "drawn w \<le> 26" "a_sagas (pg_view w) ''notification-fail'' = Some s" "Current s = StatusCompleted"
    "m \<in> set (a_out (pg_view w))" "msg_Key m = ''notification-fail''"
    "unmarshal_event (msg_Payload m) = Inr f" "EventType f = EventNotificationResult" "StatusAtual f = StatusFailed"
proof -
  let ?oid = "''notification-fail''"
  have modes: "matchScenario ?oid ''payment'' = scenarioNone" "matchScenario ?oid ''inventory'' = scenarioNone"
      "matchScenario ?oid ''notification'' = scenarioFail"
    by code_simp+
  then have "decided ?oid"
    by (simp add: decided_def)
  from scenario_ends [OF this, of "\<lambda>_. 0"] obtain j s es where w:
    "let w = drive 3 (simulators (\<lambda>_. 0)) ?oid j (begun (\<lambda>_. 0) ?oid) in
    cluster_run 3 (simulators (\<lambda>_. 0)) (empty_world (\<lambda>_. NoFault)) w
      [message_of (created_event (event_id_at (entropy (empty_world (\<lambda>_. NoFault))) 0) 0 ?oid)] \<and>
    drawn w \<le> 26 \<and> a_sagas (pg_view w) ?oid = Some s \<and>
    Current s = final_status (simulated (\<lambda>_. 0) ?oid ''payment'' (85 / 100) StatusPaymentApproved)
      (simulated (\<lambda>_. 0) ?oid ''inventory'' (9 / 10) StatusInventoryReserved) \<and>
    order_messages ?oid (pg_view w) = map message_of es \<and>
    (Current s = StatusCompleted \<longrightarrow> (\<exists>x \<in> set es. wf_event x \<and> EventType x = EventNotificationResult \<and>
       StatusAtual x = simulated (\<lambda>_. 0) ?oid ''notification'' (95 / 100) StatusNotified))"
    by blast
  define w where "w = drive 3 (simulators (\<lambda>_. 0)) ?oid j (begun (\<lambda>_. 0) ?oid)"
  have run: "cluster_run 3 (simulators (\<lambda>_. 0)) (empty_world (\<lambda>_. NoFault)) w
      [message_of (created_event (event_id_at (entropy (empty_world (\<lambda>_. NoFault))) 0) 0 ?oid)]"
    "drawn w \<le> 26" "a_sagas (pg_view w) ?oid = Some s" "Current s = StatusCompleted"
    and es: "order_messages ?oid (pg_view w) = map message_of es"
      "\<exists>x \<in> set es. wf_event x \<and> EventType x = EventNotificationResult \<and> StatusAtual x = StatusFailed"
    using w [folded w_def] by (simp_all add: Let_def simulated_def modes randForOrder_def final_status_def)
  then obtain x where x: "x \<in> set es" "wf_event x" "EventType x = EventNotificationResult" "StatusAtual x = StatusFailed"
    by blast
  then have "message_of x \<in> set (order_messages ?oid (pg_view w))"
    using es(1) by simp
  then have "message_of x \<in> set (a_out (pg_view w))" "msg_Key (message_of x) = ?oid"
    by (auto simp: order_messages_def)
  with run x show thesis
    by (intro that [of w _ s "message_of x" x]) (simp_all add: message_decoded)
qed

text \<open>The projector's goroutine has fetched the whole bus of such a run.\<close>

lemma projected:
  assumes run: "cluster_run 3 (simulators (\<lambda>_. 0)) (empty_world (\<lambda>_. NoFault)) w msgs" and "drawn w \<le> 26"
  defines "ms \<equiv> msgs @ a_out (pg_view w)"
  defines "k \<equiv> feeding (map copy_on ms) no_views"
  defines "v \<equiv> snd (consumeWorker projector (svc_handler (projector_main (\<lambda>_. []))) (length ms) k)"
  shows "fetched_in (drop (length (trace k)) (trace v)) = map copy_on ms" "read_healthy (svc k)"
    "processed_events (svc k) = []" "order_views (svc k) oid = None"
proof -
  obtain S where "simulates 3 (empty_world (\<lambda>_. NoFault)) w msgs S"
    using cluster_simulated [OF run simulators_ok _ distinct_ids_empty_world] assms(2) by auto
  from projector_fetches [OF this] assms(2) show "fetched_in (drop (length (trace k)) (trace v)) = map copy_on ms"
    unfolding v_def k_def ms_def by (simp add: feeding_def)
  show "read_healthy (svc k)" "processed_events (svc k) = []" "order_views (svc k) oid = None"
    by (simp_all add: k_def feeding_def no_views_def read_healthy_def)
qed

lemma failed_notification_hides_completion_witness:
  "\<exists>w msgs s n k row.
     cluster_run 3 (simulators (\<lambda>_. 0)) (empty_world (\<lambda>_. NoFault)) w msgs \<and>
     a_sagas (pg_view w) ''notification-fail'' = Some s \<and> Current s = StatusCompleted \<and>
     order_views (svc (snd (consumeWorker projector (svc_handler (projector_main (\<lambda>_. []))) n
       (k :: read_env kafka_env)))) ''notification-fail'' = Some row \<and> ov_current_status row = ''FAILED''"
proof -
  obtain w msgs s m f where w:
    "cluster_run 3 (simulators (\<lambda>_. 0)) (empty_world (\<lambda>_. NoFault)) w msgs"
    and d: "drawn w \<le> 26" and s: "a_sagas (pg_view w) ''notification-fail'' = Some s" "Current s = StatusCompleted"
    and f: "m \<in> set (a_out (pg_view w))" "msg_Key m = ''notification-fail''"
    "unmarshal_event (msg_Payload m) = Inr f" "EventType f = EventNotificationResult" "StatusAtual f = StatusFailed"
    by (rule failed_notification_run) blast
  let ?ms = "msgs @ a_out (pg_view w)"
  have "\<exists>row. order_views (svc (snd (consumeWorker projector (svc_handler (projector_main (\<lambda>_. []))) (length ?ms)
      (feeding (map copy_on ?ms) no_views)))) ''notification-fail'' = Some row \<and> ov_current_status row = ''FAILED''"
    unfolding projector_def
    by (rule failed_notification_hides_completion [OF w simulators_ok _ _ s f refl])
      (use projected [OF w d] d in \<open>simp_all add: copies_on distinct_ids_empty_world del: map_append flip: projector_def\<close>)
  with w s show ?thesis
    by blast
qed

text \<open>The view of an order whose payment is refused.\<close>

lemma failed_payment_run:
  obtains w msgs s where "cluster_run 3 (simulators (\<lambda>_. 0)) (empty_world (\<lambda>_. NoFault)) w msgs"
    "drawn w \<le> 26" "a_sagas (pg_view w) ''payment-fail'' = Some s" "Current s = StatusFailed"
proof -
  let ?oid = "''payment-fail''"
  have modes: "matchScenario ?oid ''payment'' = scenarioFail" "matchScenario ?oid ''inventory'' = scenarioNone"
      "matchScenario ?oid ''notification'' = scenarioNone"
    by code_simp+
  then have "decided ?oid"
    by (simp add: decided_def)
  from scenario_ends [OF this, of "\<lambda>_. 0"] show thesis
    using that by (auto simp: Let_def simulated_def modes final_status_def)
qed

lemma view_shows_the_outcome_witness:
  "\<exists>w msgs n k row.
     cluster_run 3 (simulators (\<lambda>_. 0)) (empty_world (\<lambda>_. NoFault)) w msgs \<and>
     order_views (svc (snd (consumeWorker projector (svc_handler (projector_main (\<lambda>_. []))) n
       (k :: read_env kafka_env)))) ''payment-fail'' = Some row \<and> ov_current_status row = ''FAILED'' \<and>
     set (ov_timeline row) = msg_Payload ` {m \<in> set (msgs @ a_out (pg_view w)). msg_Key m = ''payment-fail''}"
proof -
  obtain w msgs s where w: "cluster_run 3 (simulators (\<lambda>_. 0)) (empty_world (\<lambda>_. NoFault)) w msgs"
    "drawn w \<le> 26" and s: "a_sagas (pg_view w) ''payment-fail'' = Some s" "Current s = StatusFailed"
    by (rule failed_payment_run) blast
  let ?ms = "msgs @ a_out (pg_view w)"
  let ?k = "feeding (map copy_on ?ms) no_views"
  let ?v = "snd (consumeWorker projector (svc_handler (projector_main (\<lambda>_. []))) (length ?ms) ?k)"
  have "\<exists>row. order_views (svc ?v) ''payment-fail'' = Some row \<and> terminal_view row \<and>
    set (ov_timeline row) = msg_Payload ` {m \<in> set ?ms. msg_Key m = ''payment-fail''} \<and>
    distinct (ov_timeline row) \<and>
    (Current s = StatusFailed \<or> no_failed_result ''payment-fail'' ?ms \<longrightarrow>
      ov_current_status row = status_text (Current s))"
    unfolding projector_def
  proof (rule view_shows_the_outcome [OF w(1) simulators_ok _ _ s(1) _ refl refl])
    note kms = projected(1) [OF w, unfolded projector_def]
    fix km
    assume "km \<in> set (fetched_in (drop (length (trace ?k)) (trace (snd (consumeWorker (NewConsumer (\<lambda>_. None) (\<lambda>_. [])
      (svc_config (projector_main (\<lambda>_. []) :: read_env service))) (svc_handler (projector_main (\<lambda>_. []))) (length ?ms) ?k)))))"
    then show "bus_copy ?ms km"
      unfolding kms by (rule in_order_copies(1) [OF copies_on])
  next
    note kms = projected(1) [OF w, unfolded projector_def]
    fix m
    assume "m \<in> set ?ms"
    then show "\<exists>km \<in> set (fetched_in (drop (length (trace ?k)) (trace (snd (consumeWorker (NewConsumer (\<lambda>_. None) (\<lambda>_. [])
      (svc_config (projector_main (\<lambda>_. []) :: read_env service))) (svc_handler (projector_main (\<lambda>_. []))) (length ?ms) ?k))))).
      copy_of km m"
      unfolding kms by (rule in_order_copies(2) [OF copies_on])
  qed (use projected(2-4) [OF w] w(2) s in \<open>simp_all add: distinct_ids_empty_world terminal_status_def\<close>)
  with w s show ?thesis
    by fastforce
qed

end
