(* ===== verification/Observability.thy ===== *)
theory Observability
  imports Complex_Main Config
begin

text \<open>
  What a log line carries (\<open>internal/infrastructure/logging/logging.go\<close>) and how tracing is set up
  (\<open>internal/infrastructure/telemetry/telemetry.go\<close>).

  Of \<open>log/slog\<close> the code uses what its documentation says of a handler: \<open>WithAttrs\<close> puts its
  attributes before those of every record, \<open>WithGroup\<close> qualifies the attributes of every record that
  follow, and a group without attributes is left out. A line is the list of its attributes; level,
  time and message are left out. The exporter and the resource of the OpenTelemetry SDK are inputs
  that succeed or fail; \<open>strconv.ParseFloat\<close> is the argument \<open>parse_float\<close>.
\<close>

section \<open>Logging\<close>

text \<open>
  A context: the value under \<open>orderIDKey\<close>, and the trace and span of a valid span context, if any.
\<close>

record log_context =
  orderIDKey :: "string option"
  span_context :: "(string \<times> string) option"

text \<open>\<open>ctx\<close> is \<open>None\<close> when it is nil.\<close>

definition WithOrderID :: "log_context option \<Rightarrow> string \<Rightarrow> log_context option" where
  "WithOrderID ctx orderID =
     (case ctx of
        None \<Rightarrow> None
      | Some c \<Rightarrow> if orderID = '''' then Some c else Some (c\<lparr>orderIDKey := Some orderID\<rparr>))"

datatype log_attr = Attr (attr_key: string) string | AttrGroup (attr_key: string) "log_attr list"

datatype slog_handler = JSONHandler | NextWithAttrs "log_attr list" slog_handler | NextWithGroup string slog_handler

text \<open>The attributes of the line a handler of the library writes for a record.\<close>

fun handler_Handle :: "slog_handler \<Rightarrow> log_attr list \<Rightarrow> log_attr list" where
  "handler_Handle JSONHandler attrs = attrs"
| "handler_Handle (NextWithAttrs bound next) attrs = handler_Handle next (bound @ attrs)"
| "handler_Handle (NextWithGroup name next) attrs =
     handler_Handle next (if attrs = [] then [] else [AttrGroup name attrs])"

record ctxHandler =
  ctx_next :: slog_handler

definition ctxHandler_WithAttrs :: "ctxHandler \<Rightarrow> log_attr list \<Rightarrow> ctxHandler" where
  "ctxHandler_WithAttrs h attrs = \<lparr>ctx_next = NextWithAttrs attrs (ctx_next h)\<rparr>"

definition ctxHandler_WithGroup :: "ctxHandler \<Rightarrow> string \<Rightarrow> ctxHandler" where
  "ctxHandler_WithGroup h name = \<lparr>ctx_next = NextWithGroup name (ctx_next h)\<rparr>"

fun recordHas :: "log_attr list \<Rightarrow> string \<Rightarrow> bool" where
  "recordHas [] key = False"
| "recordHas (a # as) key = (attr_key a = key \<or> recordHas as key)"

definition ctxHandler_Handle :: "ctxHandler \<Rightarrow> log_context \<Rightarrow> log_attr list \<Rightarrow> log_attr list" where
  "ctxHandler_Handle h ctx r =
     (let orderID = (case orderIDKey ctx of Some s \<Rightarrow> s | None \<Rightarrow> '''');
          r = (if orderID \<noteq> '''' \<and> \<not> recordHas r ''order_id''
               then r @ [Attr ''order_id'' orderID] else r);
          r = (if orderID \<noteq> '''' \<and> \<not> recordHas r ''correlation_id''
               then r @ [Attr ''correlation_id'' orderID] else r);
          r = (case span_context ctx of
                 Some (trace_id, span_id) \<Rightarrow> r @ [Attr ''trace_id'' trace_id] @ [Attr ''span_id'' span_id]
               | None \<Rightarrow> r)
      in handler_Handle (ctx_next h) r)"

text \<open>The logger \<open>Setup\<close> installs: the service is bound to every line.\<close>

definition Setup :: "string \<Rightarrow> ctxHandler" where
  "Setup name = ctxHandler_WithAttrs \<lparr>ctx_next = JSONHandler\<rparr> [Attr ''service'' name]"

section \<open>Tracing\<close>

datatype float64 = Finite rat | Infinite bool | NotANumber

text \<open>The comparisons \<open>f >= 0 && f <= 1\<close>, false for a NaN.\<close>

fun in_unit :: "float64 \<Rightarrow> bool" where
  "in_unit (Finite q) = (0 \<le> q \<and> q \<le> 1)"
| "in_unit _ = False"

datatype sampler = AlwaysSample | NeverSample | TraceIDRatioBased float64 | ParentBased sampler

definition samplerFromEnv :: "(string \<Rightarrow> float64 option) \<Rightarrow> environ \<Rightarrow> sampler" where
  "samplerFromEnv parse_float getenv =
     (let sampler = getenv ''OTEL_TRACES_SAMPLER''; arg = getenv ''OTEL_TRACES_SAMPLER_ARG'';
          ratio = (case parse_float arg of Some f \<Rightarrow> if in_unit f then f else Finite 1 | None \<Rightarrow> Finite 1)
      in if sampler = ''always_on'' then AlwaysSample
         else if sampler = ''always_off'' then NeverSample
         else if sampler = ''traceidratio'' then TraceIDRatioBased ratio
         else if sampler = ''parentbased_always_off'' then ParentBased NeverSample
         else if sampler = ''parentbased_traceidratio'' then ParentBased (TraceIDRatioBased ratio)
         else if sampler = ''parentbased_always_on'' \<or> sampler = '''' then ParentBased AlwaysSample
         else ParentBased AlwaysSample)"

record tracer_provider =
  tp_endpoint :: string
  tp_service :: string
  tp_sampler :: sampler

text \<open>
  \<open>Init\<close>: the provider it installs, or the error of the exporter or of the resource; \<open>exporter\<close>
  answers for an endpoint.
\<close>

definition telemetry_Init ::
  "(string \<Rightarrow> float64 option) \<Rightarrow> environ \<Rightarrow> (string \<Rightarrow> go_error option) \<Rightarrow> go_error option \<Rightarrow> string \<Rightarrow>
     go_error + tracer_provider" where
  "telemetry_Init parse_float getenv exporter resource serviceName =
     (let endpoint = (if getenv ''OTEL_EXPORTER_OTLP_ENDPOINT'' = '''' then ''localhost:4318''
            else getenv ''OTEL_EXPORTER_OTLP_ENDPOINT'') in
      case exporter endpoint of
        Some err \<Rightarrow> Inl err
      | None \<Rightarrow>
          (case resource of
             Some err \<Rightarrow> Inl err
           | None \<Rightarrow> Inr \<lparr>tp_endpoint = endpoint, tp_service = serviceName,
               tp_sampler = samplerFromEnv parse_float getenv\<rparr>))"

section \<open>Lemmas\<close>

text \<open>How often a key occurs at the top of a line.\<close>

definition occurs :: "string \<Rightarrow> log_attr list \<Rightarrow> nat" where
  "occurs key r = length (filter (\<lambda>a. attr_key a = key) r)"

lemma occurs_simps [simp]:
  "occurs key [] = 0"
  "occurs key (a # r) = (if attr_key a = key then Suc (occurs key r) else occurs key r)"
  "occurs key (r @ r') = occurs key r + occurs key r'"
  by (simp_all add: occurs_def)

lemma recordHas_occurs: "recordHas r key \<longleftrightarrow> occurs key r \<noteq> 0"
  by (induction r) auto

text \<open>The ratio a sampler works with, if it has one.\<close>

fun sampling_ratio :: "sampler \<Rightarrow> rat option" where
  "sampling_ratio (TraceIDRatioBased (Finite q)) = Some q"
| "sampling_ratio (TraceIDRatioBased _) = None"
| "sampling_ratio (ParentBased s) = sampling_ratio s"
| "sampling_ratio AlwaysSample = Some 1"
| "sampling_ratio NeverSample = Some 0"

lemma sampler_in_range:
  "\<exists>q. sampling_ratio (samplerFromEnv pf getenv) = Some q \<and> 0 \<le> q \<and> q \<le> 1"
proof -
  have "\<exists>q. ratio = Finite q \<and> 0 \<le> q \<and> q \<le> 1"
    if "ratio = (case pf arg of Some f \<Rightarrow> if in_unit f then f else Finite 1 | None \<Rightarrow> Finite 1)" for ratio arg
    using that by (cases "pf arg"; cases "the (pf arg)") auto
  from this [OF refl, of "getenv ''OTEL_TRACES_SAMPLER_ARG''"] show ?thesis
    by (auto simp: samplerFromEnv_def Let_def)
qed

text \<open>
  Attributes bound with \<open>With\<close> are not in the record: a key bound before is written again, and the
  keys of the trace are written whether they are there or not.
\<close>

lemma bound_order_id_is_repeated:
  "occurs ''order_id'' (ctxHandler_Handle (ctxHandler_WithAttrs (Setup s) [Attr ''order_id'' ''o''])
     \<lparr>orderIDKey = Some ''o'', span_context = None\<rparr> []) = 2"
  by (simp add: ctxHandler_Handle_def ctxHandler_WithAttrs_def Setup_def Let_def)

lemma given_trace_id_is_repeated:
  "occurs ''trace_id'' (ctxHandler_Handle (Setup s) \<lparr>orderIDKey = None, span_context = Some (t, p)\<rparr>
     [Attr ''trace_id'' t]) = 2"
  by (simp add: ctxHandler_Handle_def ctxHandler_WithAttrs_def Setup_def Let_def)

section \<open>Properties\<close>


section \<open>Witness\<close>

text \<open>A line of the relay for an order, with its key given by the call, inside a span.\<close>

definition relay_line :: "log_attr list" where
  "relay_line = ctxHandler_Handle (Setup ''outbox-relay'')
     (the (WithOrderID (Some \<lparr>orderIDKey = None, span_context = Some (''t1'', ''s1'')\<rparr>) ''order-1''))
     [Attr ''order_id'' ''order-1'', Attr ''phase'' ''publishing'']"


end
