(* ===== verification/Lifecycle.thy ===== *)
theory Lifecycle
  imports Startup ConsumerGroup Projection Observability Monitoring Relay
begin

text \<open>
  The \<open>main\<close> functions of the services from their start to their exit: what each opens, in which
  order, where it gives up with \<open>os.Exit(1)\<close>, and what its deferred calls close when it returns.
  Deferred calls run on a return only; \<open>os.Exit\<close> and a panic of another goroutine skip them.

  The answers of the SDK, the database and the broker are inputs, as in the theories of these parts;
  the goroutines of a consumer take turns as a schedule says, in which \<open>CtxDone\<close> is the signal that
  ends the process.
\<close>

section \<open>Processes\<close>

text \<open>
  The writer of the dead letters (\<open>dlq.go\<close>): it asks for the acknowledgement of the leader only,
  whatever the environment asks of the producers. Its calls are inputs of theory Consumer.
\<close>

record dlq_writer =
  dw_brokers :: "string list"
  dw_acks :: RequiredAcks

definition NewDLQWriter :: "string list \<Rightarrow> dlq_writer" where
  "NewDLQWriter brokers = \<lparr>dw_brokers = brokers, dw_acks = RequireOne\<rparr>"

datatype proc_step =
    OpenedDLQ dlq_writer | OpenedConsumer | OpenedTelemetry tracer_provider | OpenedPool nat | OpenedProducer
  | Serving string "string list"
  | ClosedDLQ | ClosedConsumer | ClosedTelemetry | ClosedPool nat | ClosedProducer

datatype proc_end = Alive | Exited int | Crashed string

text \<open>What the environment of a process answers.\<close>

record 'w surroundings =
  su_env :: environ
  su_parse_float :: "string \<Rightarrow> float64 option"
  su_parse_duration :: "string \<Rightarrow> int option"
  su_parse_config :: "string \<Rightarrow> go_error + pool_config"
  su_exporter :: "string \<Rightarrow> go_error option"
  su_resource :: "go_error option"
  su_boot :: boot_env
  su_world :: 'w

definition start_telemetry :: "'w surroundings \<Rightarrow> string \<Rightarrow> go_error + tracer_provider" where
  "start_telemetry s name = telemetry_Init (su_parse_float s) (su_env s) (su_exporter s) (su_resource s) name"

abbreviation opened_dlq :: "'w surroundings \<Rightarrow> proc_step" where
  "opened_dlq s \<equiv> OpenedDLQ (NewDLQWriter (BrokersFromEnv (su_env s)))"

definition connect_to :: "'w surroundings \<Rightarrow> string \<Rightarrow> (go_error + nat) \<times> boot_env" where
  "connect_to s url = Connect (su_parse_config s) (su_parse_duration s) (su_env s) url (su_boot s)"

text \<open>
  The wait of \<open>Consume\<close> for its goroutines: until the process has crashed or all of them have
  returned. The boolean tells whether the signal has come by then (\<open>ctx.Err() != nil\<close>).
\<close>

definition group_over :: "'w group \<Rightarrow> bool" where
  "group_over g \<longleftrightarrow> crashed g \<noteq> None \<or> group_result g \<noteq> None"

fun await_group ::
  "Consumer \<Rightarrow> 'w event_handler \<Rightarrow> sched list \<Rightarrow> bool \<Rightarrow> 'w group \<Rightarrow> bool \<times> 'w group" where
  "await_group c h [] signalled g = (signalled, g)"
| "await_group c h (x # xs) signalled g =
     (if group_over g then (signalled, g)
      else await_group c h xs (signalled \<or> x = CtxDone) (group_step c h x g))"

text \<open>
  The end of \<open>main\<close> around \<open>Consume\<close>: an error without a done context is an exit with 1, any other
  return runs the deferred calls.
\<close>

definition consume_end ::
  "'x surroundings \<Rightarrow> ConsumerConfig \<Rightarrow> 'w event_handler \<Rightarrow> sched list \<Rightarrow> 'w kafka_env \<Rightarrow>
     proc_step list \<Rightarrow> proc_step list \<Rightarrow> proc_end \<times> proc_step list" where
  "consume_end s config handler ss w opened closing =
     (let c = NewConsumer (su_parse_duration s) (su_env s) config in
      case await_group c handler ss False (Consume c w) of
        (signalled, g) \<Rightarrow>
          (case crashed g of
             Some msg \<Rightarrow> (Crashed msg, opened)
           | None \<Rightarrow>
               (case group_result g of
                  None \<Rightarrow> (Alive, opened)
                | Some err \<Rightarrow>
                    if \<not> signalled then (Exited 1, opened) else (Exited 0, opened @ closing))))"

text \<open>
  The shape of the main function of the orchestrator, the workers and the projector: dead-letter
  writer, consumer, telemetry, database, probes, consuming.
\<close>

definition service_process ::
  "string \<Rightarrow> string \<Rightarrow> (environ \<Rightarrow> string) \<Rightarrow> 'w service \<Rightarrow> sched list \<Rightarrow> 'w kafka_env surroundings \<Rightarrow>
     proc_end \<times> proc_step list" where
  "service_process name port url service ss s =
     (let opened = [opened_dlq s, OpenedConsumer] in
      case start_telemetry s name of
        Inl err \<Rightarrow> (Exited 1, opened)
      | Inr tp \<Rightarrow>
          let opened = opened @ [OpenedTelemetry tp] in
          (case fst (connect_to s (url (su_env s))) of
             Inl err \<Rightarrow> (Exited 1, opened)
           | Inr pool \<Rightarrow>
               consume_end s (svc_config service) (svc_handler service) ss (su_world s)
                 (opened @ [OpenedPool pool, Serving port (BrokersFromEnv (su_env s))])
                 [ClosedPool pool, ClosedTelemetry, ClosedConsumer, ClosedDLQ]))"

definition orchestrator_process :: "sched list \<Rightarrow> 'a pgenv_scheme kafka_env surroundings \<Rightarrow> proc_end \<times> proc_step list" where
  "orchestrator_process ss s =
     service_process ''orchestrator'' '':9101'' DatabaseURLFromEnv (orchestrator_main (su_env s)) ss s"

definition worker_payment_process ::
  "'a pgenv_scheme gateways \<Rightarrow> sched list \<Rightarrow> 'a pgenv_scheme kafka_env surroundings \<Rightarrow> proc_end \<times> proc_step list" where
  "worker_payment_process g ss s =
     service_process ''worker-payment'' '':9102'' DatabaseURLFromEnv (worker_payment_main (su_env s) g) ss s"

definition worker_inventory_process ::
  "'a pgenv_scheme gateways \<Rightarrow> sched list \<Rightarrow> 'a pgenv_scheme kafka_env surroundings \<Rightarrow> proc_end \<times> proc_step list" where
  "worker_inventory_process g ss s =
     service_process ''worker-inventory'' '':9103'' DatabaseURLFromEnv (worker_inventory_main (su_env s) g) ss s"

definition worker_notification_process ::
  "'a pgenv_scheme gateways \<Rightarrow> sched list \<Rightarrow> 'a pgenv_scheme kafka_env surroundings \<Rightarrow> proc_end \<times> proc_step list" where
  "worker_notification_process g ss s =
     service_process ''worker-notification'' '':9104'' DatabaseURLFromEnv (worker_notification_main (su_env s) g) ss s"

definition projector_process :: "sched list \<Rightarrow> 'a read_env_scheme kafka_env surroundings \<Rightarrow> proc_end \<times> proc_step list" where
  "projector_process ss s =
     service_process ''projector'' '':9105'' read_DatabaseURLFromEnv (projector_main (su_env s)) ss s"

text \<open>\<open>cmd/order-status\<close> has neither dead letters nor telemetry nor a database.\<close>

definition order_status_process :: "sched list \<Rightarrow> 'w kafka_env surroundings \<Rightarrow> proc_end \<times> proc_step list" where
  "order_status_process ss s =
     (let service = order_status_main (su_env s) in
      consume_end s (svc_config service) (svc_handler service) ss (su_world s) [OpenedConsumer] [ClosedConsumer])"

text \<open>
  \<open>cmd/outbox-relay\<close>: the loop of theory Relay between the start and the deferred calls. The two
  tickers beside it are steps of that theory.
\<close>

definition relay_process ::
  "(string \<Rightarrow> (string \<times> string) list) \<Rightarrow> nat \<Rightarrow> bool list \<Rightarrow> 'a bus_env_scheme surroundings \<Rightarrow>
     proc_end \<times> proc_step list" where
  "relay_process inject fuel sleeps s =
     (case start_telemetry s ''outbox-relay'' of
        Inl err \<Rightarrow> (Exited 1, [])
      | Inr tp \<Rightarrow>
          (case fst (connect_to s (DatabaseURLFromEnv (su_env s))) of
             Inl err \<Rightarrow> (Exited 1, [OpenedTelemetry tp])
           | Inr pool \<Rightarrow>
               let opened = [OpenedTelemetry tp, OpenedPool pool,
                     Serving '':9106'' (BrokersFromEnv (su_env s)), OpenedProducer] in
               (case relay_main inject (relay_batchSize (su_env s)) fuel sleeps 0 (su_world s) of
                  (over, _, _) \<Rightarrow>
                    if over then (Exited 0, opened @ [ClosedProducer, ClosedPool pool, ClosedTelemetry])
                    else (Alive, opened))))"

text \<open>
  \<open>cmd/metrics-exporter\<close>: every \<open>refreshInterval\<close> the answers of the database and of Kafka go to the
  gauges, until the context is done.
\<close>

definition refreshInterval :: int where
  "refreshInterval = 10 * Second"

record refresh_answers =
  ra_sagas :: "(string \<times> int) rows"
  ra_ages :: "(string \<times> int) rows"
  ra_outbox :: "go_error + int"
  ra_ends :: "go_error + (string \<Rightarrow> partition_end list)"
  ra_commits :: "string \<Rightarrow> go_error + (string \<Rightarrow> partition_commit list)"
  ra_dlq :: "go_error + (string \<Rightarrow> partition_end list option)"

definition refresh_all :: "refresh_answers \<Rightarrow> registry \<Rightarrow> registry" where
  "refresh_all a m =
     (let m = refreshSagas (ra_sagas a) m;
          m = refreshSagaAges (ra_ages a) m;
          m = refreshOutboxAge (ra_outbox a) m;
          m = refreshConsumerLag (ra_ends a) (ra_commits a) m
      in refreshDLQDepth (ra_dlq a) m)"

text \<open>The loop: \<open>None\<close> is a done context.\<close>

fun exporter_loop :: "refresh_answers option list \<Rightarrow> registry \<Rightarrow> bool \<times> registry" where
  "exporter_loop [] m = (False, m)"
| "exporter_loop (None # as) m = (True, m)"
| "exporter_loop (Some a # as) m = exporter_loop as (refresh_all a m)"

definition exporter_process ::
  "refresh_answers option list \<Rightarrow> registry surroundings \<Rightarrow> (proc_end \<times> proc_step list) \<times> registry" where
  "exporter_process as s =
     (case fst (connect_to s (DatabaseURLFromEnv (su_env s))) of
        Inl err \<Rightarrow> ((Exited 1, []), su_world s)
      | Inr pool \<Rightarrow>
          let opened = [OpenedPool pool, Serving '':9107'' (BrokersFromEnv (su_env s))] in
          (case exporter_loop as (su_world s) of
             (over, m) \<Rightarrow> (if over then (Exited 0, opened @ [ClosedPool pool]) else (Alive, opened), m)))"

section \<open>What is left open\<close>

text \<open>The resources a process holds after its steps.\<close>

fun step_effect :: "proc_step \<Rightarrow> proc_step list \<Rightarrow> proc_step list" where
  "step_effect (Serving port brokers) held = held"
| "step_effect ClosedDLQ held = filter (\<lambda>r. case r of OpenedDLQ _ \<Rightarrow> False | _ \<Rightarrow> True) held"
| "step_effect ClosedConsumer held = removeAll OpenedConsumer held"
| "step_effect ClosedTelemetry held = filter (\<lambda>r. case r of OpenedTelemetry _ \<Rightarrow> False | _ \<Rightarrow> True) held"
| "step_effect (ClosedPool p) held = removeAll (OpenedPool p) held"
| "step_effect ClosedProducer held = removeAll OpenedProducer held"
| "step_effect r held = held @ [r]"

definition held :: "proc_step list \<Rightarrow> proc_step list" where
  "held ps = fold step_effect ps []"

lemmas process_defs = service_process_def consume_end_def held_def Let_def

text \<open>The pools of the database are those of the log of \<open>Connect\<close>.\<close>

lemma connect_leaves:
  assumes "pool_log (su_boot s) = []"
  shows "case connect_to s url of (r, v) \<Rightarrow>
    open_pools (pool_log v) = (case r of Inl _ \<Rightarrow> [] | Inr p \<Rightarrow> [p]) \<and>
    (\<forall>p. r = Inr p \<longrightarrow> last (pool_log v) = PoolPinged p None)"
proof -
  obtain r v where run: "Connect (su_parse_config s) (su_parse_duration s) (su_env s) url (su_boot s) = (r, v)"
    by (cases "Connect (su_parse_config s) (su_parse_duration s) (su_env s) url (su_boot s)")
  have "attempts_ok (env_config (su_parse_duration s) (su_env s)) 10 r (su_boot s) v"
    using connect_attempts_ok [OF newPool_opens [of "su_parse_duration s" "su_env s" "su_parse_config s" url],
        of 10 "ErrText []" "su_boot s"] run
    by (simp add: Connect_def connectRetries_def)
  then show ?thesis
    using run assms by (cases r) (auto simp: connect_to_def attempts_ok_def)
qed

section \<open>How a service ends\<close>

lemma await_append:
  "await_group c h (xs @ ys) b g = (case await_group c h xs b g of (b', g') \<Rightarrow> await_group c h ys b' g')"
proof (induction xs arbitrary: b g)
  case Nil
  then show ?case by simp
next
  case (Cons x xs)
  then show ?case by (cases ys) simp_all
qed

lemma await_signalled: "fst (await_group c h xs b g) \<longleftrightarrow> b \<or> fst (await_group c h xs False g)"
proof (induction xs arbitrary: b g)
  case Nil
  then show ?case by simp
next
  case (Cons x xs)
  show ?case
  proof (cases "group_over g")
    case True
    then show ?thesis by simp
  next
    case False
    then show ?thesis
      using Cons.IH [of "b \<or> x = CtxDone" "group_step c h x g"] Cons.IH [of "x = CtxDone" "group_step c h x g"]
      by simp
  qed
qed

lemma signalled_in: "fst (await_group c h xs False g) \<Longrightarrow> CtxDone \<in> set xs"
proof (induction xs arbitrary: g)
  case Nil
  then show ?case by simp
next
  case (Cons x xs)
  then show ?case
    using await_signalled [of c h xs "x = CtxDone" "group_step c h x g"] by (auto split: if_splits)
qed

text \<open>Once the context is done and no message is ready, waiting goes on for ever.\<close>

lemma await_drained:
  "drained g \<Longrightarrow> i < length (routines g) \<Longrightarrow> \<forall>err. routines g ! i \<noteq> Ended err \<Longrightarrow>
     \<not> group_over (snd (await_group c h xs b g))"
proof (induction xs arbitrary: b g)
  case Nil
  then show ?case
    using result_needs_all by (auto simp: group_over_def drained_def)
next
  case (Cons x xs)
  have "\<not> group_over g"
    using Cons.prems result_needs_all by (auto simp: group_over_def drained_def)
  then show ?case
    using Cons.IH [of "group_step c h x g"] drained_step [OF Cons.prems, of c h x] Cons.prems(2) by simp
qed

text \<open>The end of \<open>main\<close> in its four cases.\<close>

lemma consume_end_cases:
  assumes "consume_end s config handler ss w opened closing = (out, ps)"
  shows "(\<exists>msg. out = Crashed msg \<and> ps = opened) \<or> (out = Alive \<and> ps = opened) \<or>
    (out = Exited 1 \<and> ps = opened) \<or> (out = Exited 0 \<and> ps = opened @ closing \<and> CtxDone \<in> set ss)"
proof -
  obtain b g where await: "await_group (NewConsumer (su_parse_duration s) (su_env s) config) handler ss False
      (Consume (NewConsumer (su_parse_duration s) (su_env s) config) w) = (b, g)"
    by fastforce
  then have "b \<Longrightarrow> CtxDone \<in> set ss"
    using signalled_in by (metis fst_conv)
  then show ?thesis
    using assms await by (auto simp: consume_end_def Let_def split: option.splits if_splits)
qed

text \<open>
  Whatever a service runs: what it holds at its exit, and that it serves only after the database has
  answered.
\<close>

lemma service_ends:
  assumes "service_process name port url service ss s = (out, ps)"
  shows "(out = Exited 0 \<longrightarrow> held ps = [] \<and> CtxDone \<in> set ss) \<and>
    (\<forall>n. out = Exited n \<longrightarrow> n = 0 \<or> n = 1 \<and> {opened_dlq s, OpenedConsumer} \<subseteq> set (held ps)) \<and>
    (\<forall>p. OpenedPool p \<in> set ps \<longrightarrow> fst (connect_to s (url (su_env s))) = Inr p) \<and>
    (\<forall>a brokers. Serving a brokers \<in> set ps \<longrightarrow> (\<exists>p. fst (connect_to s (url (su_env s))) = Inr p))"
proof (cases "start_telemetry s name")
  case (Inl err)
  then show ?thesis
    using assms by (auto simp: process_defs)
next
  case (Inr tp)
  show ?thesis
  proof (cases "fst (connect_to s (url (su_env s)))")
    case (Inl err)
    then show ?thesis
      using assms Inr by (auto simp: process_defs)
  next
    case (Inr pool)
    let ?opened = "[opened_dlq s, OpenedConsumer, OpenedTelemetry tp, OpenedPool pool,
      Serving port (BrokersFromEnv (su_env s))]"
    have "consume_end s (svc_config service) (svc_handler service) ss (su_world s) ?opened
        [ClosedPool pool, ClosedTelemetry, ClosedConsumer, ClosedDLQ] = (out, ps)"
      using assms Inr \<open>start_telemetry s name = Inr tp\<close> by (simp add: service_process_def Let_def)
    then show ?thesis
      using Inr by (auto dest!: consume_end_cases simp: held_def)
  qed
qed

text \<open>The relay and the exporter: a return leaves nothing open.\<close>

lemma relay_ends:
  assumes "relay_process inject fuel sleeps s = (Exited n, ps)"
  shows "n = 0 \<and> held ps = [] \<or> n = 1 \<and> (\<forall>p. OpenedPool p \<notin> set ps)"
  using assms by (auto simp: relay_process_def held_def Let_def split: sum.splits prod.splits if_splits)

lemma exporter_ends:
  assumes "exporter_process as s = ((Exited n, ps), m)"
  shows "n = 0 \<and> held ps = [] \<or> n = 1 \<and> ps = [] \<and> m = su_world s"
  using assms by (auto simp: exporter_process_def held_def Let_def split: sum.splits prod.splits if_splits)

definition all_processes ::
  "'a pgenv_scheme gateways \<Rightarrow> sched list \<Rightarrow> 'a pgenv_scheme kafka_env surroundings \<Rightarrow>
     (proc_end \<times> proc_step list) list" where
  "all_processes g ss s =
     [orchestrator_process ss s, worker_payment_process g ss s, worker_inventory_process g ss s,
      worker_notification_process g ss s]"

section \<open>Properties\<close>

text \<open>
  C39: how the services of the write side end. A process that returns from \<open>main\<close> has been signalled
  and leaves nothing open. One that gives up with code 1 has closed nothing: \<open>os.Exit\<close> skips the
  deferred calls, so the dead-letter writer and the consumer (with its membership of the group) are
  left to the timeouts of the broker. The probes are served only over a pool that answered its ping,
  and \<open>Connect\<close> leaves open exactly the pool it returns.
\<close>

theorem only_a_signal_ends_a_service_cleanly:
  assumes "(out, ps) \<in> set (all_processes g ss s)" and "pool_log (su_boot s) = []"
  shows "(out = Exited 0 \<longrightarrow> held ps = [] \<and> CtxDone \<in> set ss) \<and>
    (\<forall>n. out = Exited n \<longrightarrow> n = 0 \<or> n = 1 \<and> {opened_dlq s, OpenedConsumer} \<subseteq> set (held ps)) \<and>
    (\<forall>a brokers. Serving a brokers \<in> set ps \<longrightarrow>
       (\<exists>p. open_pools (pool_log (snd (connect_to s (DatabaseURLFromEnv (su_env s))))) = [p] \<and>
          last (pool_log (snd (connect_to s (DatabaseURLFromEnv (su_env s))))) = PoolPinged p None))"
proof -
  obtain name port service where "service_process name port DatabaseURLFromEnv service ss s = (out, ps)"
    using assms(1) unfolding all_processes_def orchestrator_process_def worker_payment_process_def
      worker_inventory_process_def worker_notification_process_def by auto
  from service_ends [OF this] connect_leaves [OF assms(2), of "DatabaseURLFromEnv (su_env s)"] show ?thesis
    by (auto split: prod.splits sum.splits)
qed


section \<open>Witnesses\<close>

text \<open>Everything answers at the start.\<close>

definition calm_start :: "'w \<Rightarrow> 'w surroundings" where
  "calm_start w = \<lparr>su_env = \<lambda>_. [], su_parse_float = \<lambda>_. None, su_parse_duration = \<lambda>_. None,
     su_parse_config = any_config, su_exporter = \<lambda>_. None, su_resource = None,
     su_boot = \<lparr>open_plan = \<lambda>_. None, ping_plan = \<lambda>_. None, done_plan = \<lambda>_. None, pool_log = []\<rparr>,
     su_world = w\<rparr>"

definition broker_with :: "(nat \<Rightarrow> fetch_result) \<Rightarrow> pgenv kafka_env" where
  "broker_with fetches = consumer_world\<lparr>fetch_plan := fetches\<rparr>"

lemma calm_starts:
  "\<exists>tp. start_telemetry (calm_start w) name = Inr tp"
  "fst (connect_to (calm_start w) url) = Inr 0"
  "pool_log (su_boot (calm_start w)) = []"
  by (simp_all add: calm_start_def start_telemetry_def telemetry_Init_def connect_to_def Connect_def
      connectRetries_def eval_nat_numeral newPool_def any_config_def NewWithConfig_def pool_Ping_def
      tryM_def attemptM_def returnM_def attempt_no_def Let_def)

lemma calm_fields:
  "su_env (calm_start w) = (\<lambda>_. [])" "su_parse_duration (calm_start w) = (\<lambda>_. None)"
  "su_world (calm_start w) = w"
  by (simp_all add: calm_start_def)

text \<open>One worker by default.\<close>

lemma one_worker: "workers (NewConsumer (\<lambda>_. None) (\<lambda>_. []) (orchestrator_config (\<lambda>_. []))) = 1"
  by (simp add: NewConsumer_def orchestrator_config_def WorkersFromEnv_def Let_def)

text \<open>The broker is gone: the fetch fails with an error the consumer does not retry.\<close>

lemma lost_broker:
  "case await_group (NewConsumer (\<lambda>_. None) (\<lambda>_. []) (orchestrator_config (\<lambda>_. []))) h [Run 0, Run 0] False
     (Consume (NewConsumer (\<lambda>_. None) (\<lambda>_. []) (orchestrator_config (\<lambda>_. [])))
       (broker_with (\<lambda>_. FetchError (ErrText ''EOF'')))) of
     (b, g) \<Rightarrow> \<not> b \<and> crashed g = None \<and> group_result g \<noteq> None"
  by (simp add: Consume_def one_worker group_over_def group_result_def run_routine_def group_return_def
      start_worker_def newReader_def time_Now_def tryM_def broker_with_def consumer_world_def in_ctx_def
      consumer_step_def FetchMessage_def log_call_def shouldRetryFetch_def flush_def deferred_def Let_def)

text \<open>The orchestrator gives up with code 1 and its consumer open.\<close>

lemma only_a_signal_ends_a_service_cleanly_witness:
  "\<exists>ps. orchestrator_process [Run 0, Run 0] (calm_start (broker_with (\<lambda>_. FetchError (ErrText ''EOF'')))) =
       (Exited 1, ps) \<and> OpenedConsumer \<in> set (held ps)"
proof -
  let ?s = "calm_start (broker_with (\<lambda>_. FetchError (ErrText ''EOF'')))"
  obtain tp where tp: "start_telemetry ?s ''orchestrator'' = Inr tp"
    using calm_starts(1) by (rule exE)
  have "fst (consume_end ?s (orchestrator_config (\<lambda>_. [])) h [Run 0, Run 0] (su_world ?s) opened closing) =
      Exited 1" for h opened closing
    using lost_broker [of h]
    by (cases "await_group (NewConsumer (\<lambda>_. None) (\<lambda>_. []) (orchestrator_config (\<lambda>_. []))) h [Run 0, Run 0]
        False (Consume (NewConsumer (\<lambda>_. None) (\<lambda>_. []) (orchestrator_config (\<lambda>_. []))) (su_world ?s))")
      (auto simp: consume_end_def calm_fields Let_def simp del: await_group.simps)
  then have "fst (orchestrator_process [Run 0, Run 0] ?s) = Exited 1"
    using tp
    by (simp add: calm_starts(2) orchestrator_process_def service_process_def orchestrator_main_def calm_fields Let_def)
  then obtain ps where run: "orchestrator_process [Run 0, Run 0] ?s = (Exited 1, ps)"
    by (metis prod.collapse)
  then have "(Exited 1, ps) \<in> set (all_processes no_gateways [Run 0, Run 0] ?s)" for no_gateways
    by (simp add: all_processes_def)
  from only_a_signal_ends_a_service_cleanly [OF this calm_starts(3)] run show ?thesis
    by auto
qed




end
