(* ===== verification/Spec2Isabelle.thy ===== *)
theory Spec2Isabelle
  imports System ConsumerCorrect Relay ReadModel Breaker Config Services ConsumerGroup Startup
    Autoscaler LoadGenerator Monitoring Counters ViewOutcome Lifecycle
begin

text \<open>
  A verification development of workers-kafka, an order saga in Go: an orchestrator and three workers
  that exchange events over Kafka and keep their state in Postgres.

  \<^bold>\<open>The program.\<close> \<open>create-order\<close> and \<open>load-generator\<close> put ORDER_CREATED on the bus. The orchestrator
  takes it and the results of the workers in, moves the saga of the order from stage to stage
  (payment, stock, notification), and sends the next command, a retry, the compensation of the payment
  or the outcome. A worker takes a command, asks its gateway, perhaps behind a circuit breaker, and
  sends the result. Both write in one transaction: the saga, the journal of events and the outbox; the
  journal makes them idempotent by the event id. The outbox relay publishes the rows of the outbox.
  The projector feeds a read database with a view of each order. Around them stand the metrics
  exporter, the autoscaler, the health endpoint, the logger and the tracing.

  \<^bold>\<open>Conventions.\<close> A Go function that touches the outside world is an action on an explicit world that
  ends in an error or a value (\<open>io\<close>, theory Prelude); Go error values are the datatype \<open>go_error\<close>.
  What the world answers (the server, the broker, the clock, the random source) is an input, the
  fields of the record \<open>env\<close> and of the records that extend it, so a theorem about any world holds
  for every failure. Definitions keep the names of the source, with a prefix where two functions
  share a name or HOL has one of it.

  \<^bold>\<open>Theories and the sources they model\<close> (paths under \<open>src/\<close>; \<open>infra\<close> is \<open>internal/infrastructure\<close>):

  \<^item> Foundations. Prelude: actions, their weakest preconditions, the collection \<open>wp_simps\<close>. GoStd, Json:
    what the code uses of the Go library, up to the byte syntax of JSON. Metrics:
    \<open>infra/metrics/metrics.go\<close>. Config: \<open>infra/kafka/env.go\<close>, both \<open>env.go\<close> of the databases and the
    settings of the relay.
  \<^item> Domain. SagaDomain: \<open>internal/domain\<close>, events with their JSON form. Topics: \<open>infra/kafka/topics.go\<close>.
    StateMachine: \<open>internal/application/orchestrator/state_machine.go\<close>. Ports:
    \<open>internal/application/ports.go\<close> and, as locales, what the use cases rely on
    (\<open>saga_tx_contract\<close>, \<open>saga_uow_contract\<close>).
  \<^item> Orchestrator. Orchestrator: \<open>orchestrator.go\<close>, one definition per function. OrchestratorSpec: the
    abstract handler \<open>orch_spec\<close>. OrchestratorRefines: the code implements it, inside the contracts.
    SagaLife: invariants of the abstract store under any events. OrchestratorCorrect: the orchestrator
    over Postgres.
  \<^item> Write database. Postgres: \<open>infra/persistence/postgres\<close>, the tables of the migrations and each
    statement. UnitOfWork: \<open>infra/uow\<close> and \<open>infra/outbox/publisher.go\<close>, with the interpretations \<open>pg\<close>
    and \<open>pg_uow\<close> of the contracts.
  \<^item> Workers. Workers: \<open>internal/application/worker\<close>. Gateways: the simulators of \<open>infra/external\<close>.
    Breaker: \<open>infra/external/breaker.go\<close>. WorkersRefines: the common shape of the four commands and
    the locales \<open>gateway_contract\<close> and \<open>worker_contract\<close>. WorkersCorrect: the interpretations \<open>process\<close>,
    \<open>refund\<close>, \<open>reserve\<close> and \<open>notify\<close> over Postgres.
  \<^item> The system. SystemSpec: orchestrator and workers on the abstract store, with the invariant that
    only the last message of an order is still to be acted on. System: the code, simulated by it.
    Scenarios: orders whose gateways always answer alike, and the debug scenarios of
    \<open>infra/external/scenario.go\<close>.
  \<^item> Kafka. Consumer: \<open>infra/kafka/consumer.go\<close>, a goroutine of \<open>Consume\<close> and the watchdog.
    ConsumerCorrect: its discipline. ConsumerGroup: \<open>Consume\<close> with its goroutines. Producer:
    \<open>infra/kafka/producer.go\<close>. Relay: \<open>cmd/outbox-relay\<close>, any number of relays side by side.
  \<^item> Read side. ReadModel: \<open>infra/persistence/postgres_read\<close> and \<open>internal/application/projector\<close>.
    Projection: the projector beside the running system. ViewOutcome: the runs whose view is wrong.
  \<^item> Services. Services: consumer configuration and handler of each \<open>cmd/*\<close>, \<open>create-order\<close>,
    \<open>internal/interfaces/logging.go\<close>. Startup: \<open>Connect\<close> of \<open>postgres.go\<close>, the health checks, \<open>/healthz\<close>.
    Observability: \<open>infra/logging\<close> and \<open>infra/telemetry\<close>. Lifecycle: the main functions from start to
    exit, \<open>infra/kafka/dlq.go\<close>.
  \<^item> Operations. Counters: what the counters tell. Monitoring: \<open>cmd/metrics-exporter\<close>. Autoscaler:
    \<open>cmd/autoscaler\<close>. LoadGenerator: \<open>cmd/load-generator\<close>.
\<close>

text \<open>
  \<^bold>\<open>What is shown.\<close> The theorems marked C\<open>n\<close> are the properties; the lemmas serve them.

  \<^item> Refinement. The handlers over Postgres implement \<open>orch_spec\<close> and \<open>worker_effect\<close> under every fault
    of the database, lost acknowledgements of a commit included (C1, C2, C11). From it follow single
    effect of redeliveries, one outcome per order, legal states, and the bound on results (C3 to C7).
  \<^item> The system. In every run, with messages delivered late, out of order or several times, no message
    is rejected as definitive (C9), and from every reachable state delivering the messages of an order
    ends it (C10). The cases of the README end as it says (C36, C37).
  \<^item> Transport. The consumer commits only what it has handled, and its runs are runs of the system
    (C12, C13, C23, C24); the relay marks only what is sent, and drains the outbox (C14 to C16); the
    breakers keep the contract of the gateways (C18 to C20).
  \<^item> The JSON of an event decodes to the event (C8), and the view of a finished order shows its outcome
    (C34).
  \<^item> Start, end and monitoring: C22, C25 to C33 and C38 to C40.
  \<^item> What the code does not do as meant: a projection is lost (C17); the view of a completed order can
    show FAILED (C35, and the proviso of C34); the watchdog cancels a reader with a steady rate (C21);
    a goroutine that fails hangs the service (C26); a signal does not end a service (C38), and code 1
    skips the deferred calls (C39). The lemmas \<open>return_after_reconnect_panics\<close>,
    \<open>cancelled_consumer_never_returns\<close>, \<open>age_is_of_the_youngest\<close>, \<open>truncated_answers_pass\<close>,
    \<open>new_group_has_no_lag\<close>, \<open>failed_scaling_is_counted\<close>, \<open>negative_step_escapes\<close>, \<open>pool_size_is_cut\<close>,
    \<open>termination_counted_twice\<close> and \<open>bound_order_id_is_repeated\<close> are smaller ones.

  \<^bold>\<open>Bounds and fuel.\<close> An order takes in at most \<open>3 * (maxRetries + 1)\<close> results, since there are at most three
    stages and each counts its retries from zero; so it ends within \<open>6 * (maxRetries + 1)\<close> deliveries, a
    command and a result each time. \<open>consumeWorker\<close> runs \<open>n\<close> iterations of a loop that has no end of
    its own, and its theorems hold for every \<open>n\<close>. The fuel of \<open>relay_main\<close> bounds the cycles; the
    drain theorem gives one that is enough, from the rows and the batch size. The loop of the
    load generator is given its number of orders as fuel, enough as each batch publishes at least one, and
    \<open>Connect\<close> makes ten attempts by its own count. The transitions of several processes are inductive
    relations or schedules, without a bound.

  \<^bold>\<open>Code outside the repository\<close> is a parameter with what its documentation says. The Kafka client: the
  plans of \<open>kafka_env\<close> and \<open>bus_env\<close>, any answers at all, with \<open>writer_honest\<close> (a write without an error
  has delivered) where named. \<open>gobreaker\<close>: \<open>cb_law\<close>. \<open>math/rand\<close>, \<open>time.ParseDuration\<close>,
  \<open>strconv.ParseFloat\<close>, \<open>pgxpool.ParseConfig\<close>: function arguments. The two commands of the autoscaler: their
  outputs. \<open>errgroup\<close>, the Prometheus client and \<open>log/slog\<close>: the documented behaviour the code uses,
  told in the theories that use it. Identifiers are drawn from an input; where a theorem needs
  that no two draws agree, it says so (\<open>distinct_ids\<close>).

  \<^bold>\<open>Not modelled.\<close> Log lines other than their attributes, and spans. The HTTP server, the registration of
  metrics, buckets and the conversion to \<open>float64\<close>. Isolation levels: the transactions of the write
  database are serialised. The code loads a saga without locking its row, so two transactions on one
  order that overlap at the default level of Postgres are outside the theorems. Column widths and the
  timestamps only dashboards read. Parts of the texts of errors. The two tickers of the relay are
  single steps, \<open>count_tick\<close> and \<open>purge_tick\<close>. Theory Services follows one goroutine of a service;
  several at once are in ConsumerGroup. The parsing of command-line flags, and everything that is
  not Go: compose files, manifests, dashboards, scripts, and the migrations beyond their tables.
\<close>

end
